(* ===== verification/Go_Prelude.thy ===== *)
theory Go_Prelude
  imports Main "HOL-Library.AList" "HOL-Library.Multiset"
begin

text \<open>
  What the components share: the parts of Go and of its standard library that the sources use.
  \<^item> maps with pointer values (\<open>gomap\<close>), as association lists with distinct keys: the order of
    the list is the order in which \<open>range\<close> visits the entries, which Go leaves unspecified, so a
    statement about every such list is a statement about every iteration order;
  \<^item> 64-bit integers with their wrap-around (\<open>wrap64\<close>) and truncating division (\<open>go_div\<close>);
  \<^item> the verbs \<^verbatim>\<open>%x\<close>, \<^verbatim>\<open>%0Nx\<close> and \<^verbatim>\<open>%d\<close> of \<^verbatim>\<open>fmt.Sprintf\<close> on the numbers
    the sources print;
  \<^item> the contract of \<^verbatim>\<open>sort.Slice\<close> (a locale: a permutation, sorted, ties in any order);
  \<^item> the rule that a property kept by every step is kept by every run (a locale).
\<close>

named_theorems gomap_simps "lookups after updates of a map"
named_theorems wf_intros "operations keep the keys of a map distinct"

section \<open>Maps\<close>

type_synonym ('k, 'v) gomap = "('k \<times> 'v) list"

abbreviation map_get :: "('k, 'v) gomap \<Rightarrow> 'k \<Rightarrow> 'v option" where
  "map_get m k \<equiv> map_of m k"

abbreviation map_put :: "'k \<Rightarrow> 'v \<Rightarrow> ('k, 'v) gomap \<Rightarrow> ('k, 'v) gomap" where
  "map_put \<equiv> AList.update"

abbreviation map_del :: "'k \<Rightarrow> ('k, 'v) gomap \<Rightarrow> ('k, 'v) gomap" where
  "map_del \<equiv> AList.delete"

text \<open>Writing through the pointer stored under one key, and through every pointer of the map.\<close>

abbreviation map_upd :: "'k \<Rightarrow> ('v \<Rightarrow> 'v) \<Rightarrow> ('k, 'v) gomap \<Rightarrow> ('k, 'v) gomap" where
  "map_upd \<equiv> AList.map_entry"

definition map_vals :: "('v \<Rightarrow> 'w) \<Rightarrow> ('k, 'v) gomap \<Rightarrow> ('k, 'w) gomap" where
  "map_vals f m = map (\<lambda>(k, v). (k, f v)) m"

definition keys_distinct :: "('k, 'v) gomap \<Rightarrow> bool" where
  "keys_distinct m \<longleftrightarrow> distinct (map fst m)"

lemma get_put [simp, gomap_simps]: "map_get (map_put k v m) k' = (if k' = k then Some v else map_get m k')"
  by (simp add: update_conv)

lemma get_del [simp, gomap_simps]: "map_get (map_del k m) k' = (if k' = k then None else map_get m k')"
  by (simp add: delete_conv')

lemma get_upd [simp, gomap_simps]: "map_get (map_upd k f m) k' =
    (if k' = k then map_option f (map_get m k) else map_get m k')"
  by (induction m) auto

lemma get_vals [simp, gomap_simps]: "map_get (map_vals f m) k = map_option f (map_get m k)"
  by (induction m) (auto simp: map_vals_def)

lemma fst_vals [simp]: "map fst (map_vals f m) = map fst m"
  by (simp add: map_vals_def comp_def case_prod_unfold)

lemma fst_upd [simp]: "map fst (map_upd k f m) = map fst m"
  by (induction m) auto

lemma set_vals [simp]: "set (map_vals f m) = (\<lambda>(k, v). (k, f v)) ` set m"
  by (simp add: map_vals_def)

lemma length_vals [simp]: "length (map_vals f m) = length m"
  by (simp add: map_vals_def)

lemma keys_distinct_Nil [wf_intros, simp]: "keys_distinct []"
  by (simp add: keys_distinct_def)

lemma keys_distinct_put [wf_intros, intro]: "keys_distinct m \<Longrightarrow> keys_distinct (map_put k v m)"
  by (simp add: keys_distinct_def distinct_update)

lemma keys_distinct_del [wf_intros, intro]: "keys_distinct m \<Longrightarrow> keys_distinct (map_del k m)"
  by (simp add: keys_distinct_def distinct_delete)

lemma keys_distinct_upd [wf_intros, simp]: "keys_distinct (map_upd k f m) = keys_distinct m"
  by (simp add: keys_distinct_def)

lemma keys_distinct_vals [wf_intros, simp]: "keys_distinct (map_vals f m) = keys_distinct m"
  by (simp add: keys_distinct_def)

lemma get_iff_mem: "keys_distinct m \<Longrightarrow> map_get m k = Some v \<longleftrightarrow> (k, v) \<in> set m"
  by (simp add: keys_distinct_def)

lemma mem_put: "keys_distinct m \<Longrightarrow>
    (k', v') \<in> set (map_put k v m) \<longleftrightarrow> (if k' = k then v' = v else (k', v') \<in> set m)"
  by (auto simp flip: get_iff_mem simp: keys_distinct_put)

lemma values_get: "v \<in> snd ` set m \<Longrightarrow> keys_distinct m \<Longrightarrow> \<exists>k. map_get m k = Some v"
  by (auto simp: get_iff_mem)

text \<open>The container contract the components rely on, and that association lists meet it.\<close>

locale map_contract =
  fixes get :: "'m \<Rightarrow> 'k \<Rightarrow> 'v option"
    and put :: "'k \<Rightarrow> 'v \<Rightarrow> 'm \<Rightarrow> 'm"
    and del :: "'k \<Rightarrow> 'm \<Rightarrow> 'm"
    and wf :: "'m \<Rightarrow> bool"
  assumes get_after_put: "wf m \<Longrightarrow> get (put k v m) = (get m)(k \<mapsto> v)"
    and get_after_del: "wf m \<Longrightarrow> get (del k m) = (get m)(k := None)"
    and wf_put: "wf m \<Longrightarrow> wf (put k v m)"
    and wf_del: "wf m \<Longrightarrow> wf (del k m)"
begin

lemma dom_put_del: "wf m \<Longrightarrow> dom (get (put k v m)) = insert k (dom (get m)) \<and> dom (get (del k m)) = dom (get m) - {k}"
  by (auto simp: get_after_put get_after_del)

lemma put_preserves_all: "wf m \<Longrightarrow> (\<And>k' v'. get m k' = Some v' \<Longrightarrow> P v') \<Longrightarrow> P v
    \<Longrightarrow> get (put k v m) k' = Some v' \<Longrightarrow> P v'"
  by (auto simp: get_after_put split: if_splits)

lemma del_preserves_all: "wf m \<Longrightarrow> (\<And>k' v'. get m k' = Some v' \<Longrightarrow> P v')
    \<Longrightarrow> get (del k m) k' = Some v' \<Longrightarrow> P v'"
  by (auto simp: get_after_del split: if_splits)

end

interpretation gm: map_contract "map_of" "AList.update" "AList.delete" keys_distinct
  by unfold_locales (auto simp: fun_eq_iff)

section \<open>Integers\<close>

text \<open>\<open>int\<close> and \<open>int64\<close> are 64 bits wide; the result of an operation is taken modulo \<open>2 ^ 64\<close>.\<close>

definition wrap64 :: "int \<Rightarrow> int" where
  "wrap64 x = (x + 2 ^ 63) mod 2 ^ 64 - 2 ^ 63"

definition is_int64 :: "int \<Rightarrow> bool" where
  "is_int64 x \<longleftrightarrow> - (2 ^ 63) \<le> x \<and> x < 2 ^ 63"

lemma wrap64_range: "is_int64 (wrap64 x)"
  by (simp add: wrap64_def is_int64_def)

lemma wrap64_id: "is_int64 x \<Longrightarrow> wrap64 x = x"
  by (simp add: wrap64_def is_int64_def)

lemma wrap64_le: "- (2 ^ 63) \<le> x \<Longrightarrow> wrap64 x \<le> x"
proof -
  assume "- (2 ^ 63) \<le> x"
  then have "(x + 2 ^ 63) mod 2 ^ 64 \<le> x + 2 ^ 63" by (intro zmod_le_nonneg_dividend) simp
  then show ?thesis by (simp add: wrap64_def)
qed

lemma wrap64_add: "wrap64 (wrap64 x + y) = wrap64 (x + y)"
proof -
  have "wrap64 x + y + 2 ^ 63 = (x + 2 ^ 63) mod 2 ^ 64 + y" by (simp add: wrap64_def)
  also have "\<dots> mod 2 ^ 64 = (x + 2 ^ 63 + y) mod 2 ^ 64" by (rule mod_add_left_eq)
  finally show ?thesis by (simp add: wrap64_def algebra_simps)
qed

text \<open>Division truncates towards zero; the sources divide by non-zero values only.\<close>

definition go_div :: "int \<Rightarrow> int \<Rightarrow> int" where
  "go_div a b = sgn a * sgn b * (\<bar>a\<bar> div \<bar>b\<bar>)"

lemma go_div_nonneg: "0 \<le> a \<Longrightarrow> 0 < b \<Longrightarrow> go_div a b = a div b"
  by (simp add: go_div_def) (metis abs_of_nonneg div_0 le_less mult_1 mult_zero_left sgn_0 sgn_pos)

section \<open>Numbers as text\<close>

definition hex_digit :: "nat \<Rightarrow> char" where
  "hex_digit n = ''0123456789abcdef'' ! n"

fun hex :: "nat \<Rightarrow> string" where
  "hex n = (if n < 16 then [hex_digit n] else hex (n div 16) @ [hex_digit (n mod 16)])"

declare hex.simps [simp del]

definition hex_pad :: "nat \<Rightarrow> nat \<Rightarrow> string" where
  "hex_pad w n = replicate (w - length (hex n)) (CHR ''0'') @ hex n"

fun dec :: "nat \<Rightarrow> string" where
  "dec n = (if n < 10 then [hex_digit n] else dec (n div 10) @ [hex_digit (n mod 10)])"

declare dec.simps [simp del]

definition dec_int :: "int \<Rightarrow> string" where
  "dec_int i = (if i < 0 then CHR ''-'' # dec (nat (- i)) else dec (nat i))"

lemma less_16_cases: "n < 16 \<Longrightarrow> n \<in> {0, 1, 2, 3, 4, 5, 6, 7, 8, 9, 10, 11, 12, 13, 14, 15}" for n :: nat
  by (simp only: insert_iff empty_iff) presburger

lemma hex_digit_inj: "m < 16 \<Longrightarrow> n < 16 \<Longrightarrow> hex_digit m = hex_digit n \<Longrightarrow> m = n"
  by (drule less_16_cases, drule less_16_cases) (auto simp: hex_digit_def)

lemma hex_ne [simp]: "hex n \<noteq> []" "[] \<noteq> hex n"
  by (subst hex.simps, simp)+

lemma hex_inj: "hex m = hex n \<Longrightarrow> m = n"
proof (induction m arbitrary: n rule: less_induct)
  case (less m)
  show ?case
  proof (cases "m < 16")
    case True
    with less.prems have "hex n = [hex_digit m]" by (simp add: hex.simps [of m])
    then have "n < 16" by (subst (asm) hex.simps) (auto split: if_splits)
    with less.prems True show ?thesis by (auto simp: hex.simps [of m] hex.simps [of n] hex_digit_inj)
  next
    case False
    then have m: "hex m = hex (m div 16) @ [hex_digit (m mod 16)]" by (simp add: hex.simps [of m])
    have n: "\<not> n < 16"
    proof
      assume "n < 16"
      with m less.prems show False by (simp add: hex.simps [of n])
    qed
    then have "hex n = hex (n div 16) @ [hex_digit (n mod 16)]" by (simp add: hex.simps [of n])
    with m less.prems have eq: "hex (m div 16) = hex (n div 16)" "hex_digit (m mod 16) = hex_digit (n mod 16)" by auto
    from eq(1) False have "m div 16 = n div 16" by (intro less.IH) auto
    moreover from eq(2) have "m mod 16 = n mod 16" by (intro hex_digit_inj) auto
    ultimately show ?thesis by (metis div_mod_decomp)
  qed
qed

lemma hex_length: "16 ^ k \<le> n \<Longrightarrow> n < 16 ^ Suc k \<Longrightarrow> length (hex n) = Suc k"
proof (induction k arbitrary: n)
  case 0
  then show ?case by (subst hex.simps) simp
next
  case (Suc k)
  have ge: "\<not> n < 16"
  proof -
    have "(16::nat) ^ 1 \<le> 16 ^ Suc k" by (intro power_increasing) simp_all
    from this Suc.prems(1) have "16 ^ 1 \<le> n" by (rule order.trans)
    then show ?thesis by simp
  qed
  have "16 ^ k \<le> n div 16" "n div 16 < 16 ^ Suc k"
    using Suc.prems by (simp_all add: less_eq_div_iff_mult_less_eq less_mult_imp_div_less mult.commute)
  then have "length (hex (n div 16)) = Suc k" by (rule Suc.IH)
  with ge show ?case by (subst hex.simps) simp
qed

text \<open>Reading a hexadecimal text back, which shows that padding loses nothing.\<close>

definition digit_value :: "char \<Rightarrow> nat" where
  "digit_value c = length (takeWhile (\<lambda>d. d \<noteq> c) ''0123456789abcdef'')"

definition hex_value :: "string \<Rightarrow> nat" where
  "hex_value s = foldl (\<lambda>a c. 16 * a + digit_value c) 0 s"

lemma digit_value [simp]: "n < 16 \<Longrightarrow> digit_value (hex_digit n) = n"
  by (drule less_16_cases) (auto simp: digit_value_def hex_digit_def)

lemma hex_value_hex: "hex_value (hex n) = n"
proof (induction n rule: less_induct)
  case (less n)
  show ?case
  proof (cases "n < 16")
    case False
    then have "hex_value (hex (n div 16)) = n div 16" by (intro less.IH) simp
    with False show ?thesis by (subst hex.simps) (simp add: hex_value_def)
  qed (subst hex.simps, simp add: hex_value_def)
qed

lemma hex_value_zeros: "hex_value (replicate k (CHR ''0'') @ s) = hex_value s"
proof -
  have "foldl (\<lambda>a c. 16 * a + digit_value c) 0 (replicate k (CHR ''0'')) = 0"
    by (induction k) (simp_all add: digit_value_def)
  then show ?thesis by (simp add: hex_value_def)
qed

lemma hex_pad_inj: "hex_pad w m = hex_pad w n \<Longrightarrow> m = n"
  by (metis hex_pad_def hex_value_hex hex_value_zeros)

lemma hex_length_le: "n < 16 ^ Suc k \<Longrightarrow> length (hex n) \<le> Suc k"
proof (induction k arbitrary: n)
  case (Suc k)
  show ?case
  proof (cases "n < 16")
    case False
    have "n div 16 < 16 ^ Suc k" using Suc.prems by (simp add: less_mult_imp_div_less mult.commute)
    then have "length (hex (n div 16)) \<le> Suc k" by (rule Suc.IH)
    with False show ?thesis by (subst hex.simps) simp
  qed (subst hex.simps, simp)
qed (subst hex.simps, simp)

lemma hex_pad_length: "n < 16 ^ Suc k \<Longrightarrow> length (hex_pad (Suc k) n) = Suc k"
  using hex_length_le [of n k] by (simp add: hex_pad_def)

definition is_hex :: "char \<Rightarrow> bool" where
  "is_hex c \<longleftrightarrow> c \<in> set ''0123456789abcdef''"

lemma hex_is_hex: "list_all is_hex (hex n)"
proof (induction n rule: hex.induct)
  case (1 n)
  have "is_hex (hex_digit m)" if "m < 16" for m using less_16_cases [OF that] by (auto simp: is_hex_def hex_digit_def)
  with 1 show ?case by (subst hex.simps) simp
qed

lemma hex_pad_is_hex: "list_all is_hex (hex_pad n k)"
proof -
  have "is_hex (CHR ''0'')" by (simp add: is_hex_def)
  then show ?thesis using hex_is_hex [of k] by (auto simp: hex_pad_def list_all_iff)
qed

text \<open>\<^verbatim>\<open>strings.Split\<close> with a one-byte separator: the parts between the separators, at least one.\<close>

fun split_on :: "char \<Rightarrow> string \<Rightarrow> string list" where
  "split_on c [] = [[]]"
| "split_on c (x # xs) =
     (if x = c then [] # split_on c xs
      else case split_on c xs of p # ps \<Rightarrow> (x # p) # ps | [] \<Rightarrow> [[x]])"

definition trim_prefix :: "string \<Rightarrow> string \<Rightarrow> string" where
  "trim_prefix p s = (if take (length p) s = p then drop (length p) s else s)"

text \<open>Joining the parts again, and the parts of a text without the separator.\<close>

lemma split_on_ne [simp]: "split_on c s \<noteq> []"
  by (induction c s rule: split_on.induct) (auto split: list.split)

lemma split_on_plain: "c \<notin> set s \<Longrightarrow> split_on c s = [s]"
  by (induction s) auto

lemma split_on_Cons: "c \<notin> set p \<Longrightarrow> split_on c (p @ c # s) = p # split_on c s"
  by (induction p) auto

text \<open>
  Identifiers are a prefix, the clock and a counter, printed one after the other without padding.
  They are unambiguous while the clock has a fixed number of digits: \<open>clock_ms\<close> holds for every
  millisecond clock from November 2004 to the year 2527 (eleven hexadecimal digits).
\<close>

definition clock_ms :: "nat \<Rightarrow> bool" where
  "clock_ms ts \<longleftrightarrow> 16 ^ 10 \<le> ts \<and> ts < 16 ^ 11"

definition stamp_id :: "string \<Rightarrow> nat \<Rightarrow> nat \<Rightarrow> string" where
  "stamp_id prefix ts counter = prefix @ hex ts @ hex counter"

lemma stamp_id_inj:
  assumes "stamp_id p ts c = stamp_id p ts' c'" and "clock_ms ts" and "clock_ms ts'"
  shows "ts = ts' \<and> c = c'"
proof -
  have "length (hex ts) = length (hex ts')"
    using assms(2,3) hex_length [of 10 ts] hex_length [of 10 ts'] by (simp add: clock_ms_def)
  with assms(1) show ?thesis by (auto simp: stamp_id_def dest: hex_inj)
qed

lemma stamp_id_fresh:
  assumes "clock_ms ts" and "clock_ms ts'" and "c \<le> n"
  shows "stamp_id p ts c \<noteq> stamp_id p ts' (Suc n)"
  using assms stamp_id_inj [of p ts c ts' "Suc n"] by auto

section \<open>Sorting\<close>

text \<open>
  \<^verbatim>\<open>sort.Slice(xs, func(i, j int) bool { return key(xs[i]) > key(xs[j]) })\<close>: the result is a
  permutation of the slice in descending order of the key; elements with equal keys come in any order.
\<close>

definition slice_sorter :: "('a \<Rightarrow> int) \<Rightarrow> ('a list \<Rightarrow> 'a list) \<Rightarrow> bool" where
  "slice_sorter key srt \<longleftrightarrow>
     (\<forall>xs. mset (srt xs) = mset xs \<and> sorted_wrt (\<lambda>a b. key b \<le> key a) (srt xs))"

locale sort_slice =
  fixes key :: "'a \<Rightarrow> int" and srt :: "'a list \<Rightarrow> 'a list"
  assumes permutes: "mset (srt xs) = mset xs"
    and descending: "sorted_wrt (\<lambda>a b. key b \<le> key a) (srt xs)"
begin

lemma set_srt [simp]: "set (srt xs) = set xs"
  using permutes by (metis set_mset_mset)

lemma distinct_map_srt: "distinct (map f xs) \<Longrightarrow> distinct (map f (srt xs))"
  using permutes by (metis mset_eq_imp_distinct_iff mset_map)

lemma sum_srt: "sum_list (map f (srt xs)) = sum_list (map f xs)" for f :: "'a \<Rightarrow> int"
  using permutes by (metis mset_map sum_mset_sum_list)

lemma length_srt [simp]: "length (srt xs) = length xs"
  using permutes by (metis size_mset)

end

lemma sort_slice_iff: "sort_slice key srt \<longleftrightarrow> slice_sorter key srt"
  by (auto simp: sort_slice_def slice_sorter_def)

text \<open>Insertion sort, which the library uses on slices of at most twelve elements, meets the contract.\<close>

fun insert_desc :: "('a \<Rightarrow> int) \<Rightarrow> 'a \<Rightarrow> 'a list \<Rightarrow> 'a list" where
  "insert_desc key x [] = [x]"
| "insert_desc key x (y # ys) = (if key y < key x then x # y # ys else y # insert_desc key x ys)"

definition insertion_sort :: "('a \<Rightarrow> int) \<Rightarrow> 'a list \<Rightarrow> 'a list" where
  "insertion_sort key xs = fold (insert_desc key) xs []"

lemma mset_insert_desc [simp]: "mset (insert_desc key x ys) = add_mset x (mset ys)"
  by (induction ys) auto

lemma set_insert_desc [simp]: "set (insert_desc key x ys) = insert x (set ys)"
  by (induction ys) auto

lemma sorted_insert_desc: "sorted_wrt (\<lambda>a b. key b \<le> key a) ys \<Longrightarrow>
    sorted_wrt (\<lambda>a b. key b \<le> key a) (insert_desc key x ys)"
  by (induction ys) force+

lemma insertion_sort_correct:
  "mset (insertion_sort key xs) = mset xs \<and> sorted_wrt (\<lambda>a b. key b \<le> key a) (insertion_sort key xs)"
proof -
  have "mset (fold (insert_desc key) xs ys) = mset xs + mset ys
      \<and> (sorted_wrt (\<lambda>a b. key b \<le> key a) ys \<longrightarrow>
          sorted_wrt (\<lambda>a b. key b \<le> key a) (fold (insert_desc key) xs ys))" for ys
    by (induction xs arbitrary: ys) (auto simp: sorted_insert_desc)
  from this [of "[]"] show ?thesis by (simp add: insertion_sort_def)
qed

interpretation isort: sort_slice key "insertion_sort key" for key :: "'a \<Rightarrow> int"
  by unfold_locales (simp_all add: insertion_sort_correct)

lemma slice_sorter_insertion_sort: "slice_sorter key (insertion_sort key)"
  by (simp add: slice_sorter_def insertion_sort_correct)

section \<open>Runs\<close>

text \<open>A property that every step keeps holds after every run; a relation that every step is in and
  that is reflexive and transitive relates the two ends of every run.\<close>

locale kept_by_steps =
  fixes step :: "'s \<Rightarrow> 's \<Rightarrow> bool" and inv :: "'s \<Rightarrow> bool"
  assumes step_keeps: "inv s \<Longrightarrow> step s t \<Longrightarrow> inv t"
begin

lemma run_keeps: "step\<^sup>*\<^sup>* s t \<Longrightarrow> inv s \<Longrightarrow> inv t"
  by (induction rule: rtranclp_induct) (auto dest: step_keeps)

end

locale monotone_steps = kept_by_steps step inv
  for step :: "'s \<Rightarrow> 's \<Rightarrow> bool" and inv :: "'s \<Rightarrow> bool" +
  fixes rel :: "'s \<Rightarrow> 's \<Rightarrow> bool"
  assumes rel_refl: "rel s s"
    and rel_trans: "rel s t \<Longrightarrow> rel t u \<Longrightarrow> rel s u"
    and step_rel: "inv s \<Longrightarrow> step s t \<Longrightarrow> rel s t"
begin

lemma run_rel: "step\<^sup>*\<^sup>* s t \<Longrightarrow> inv s \<Longrightarrow> rel s t"
proof (induction rule: rtranclp_induct)
  case base
  show ?case by (rule rel_refl)
next
  case (step t u)
  from step.hyps(1) step.prems have "inv t" by (rule run_keeps)
  then show ?case using step by (blast intro: rel_trans step_rel)
qed

end

end
