(* ===== verification/Run_States.thy ===== *)
theory Run_States
  imports Go_Prelude
begin

text \<open>
  The life cycle of a run (\<^verbatim>\<open>internal/controlplane/runmanager/types.go\<close>, \<^verbatim>\<open>state_machine.go\<close>) and
  the errors of the run manager (\<^verbatim>\<open>errors.go\<close>).
\<close>

section \<open>States\<close>

datatype RunState = RunStateCreated | RunStatePreflightRunning | RunStatePreflightPassed
  | RunStatePreflightFailed | RunStateBaselineRunning | RunStateRampRunning | RunStateSoakRunning
  | RunStateStopping | RunStateAnalyzing | RunStateCompleted | RunStateFailed | RunStateAborted

fun run_state_name :: "RunState \<Rightarrow> string" where
  "run_state_name RunStateCreated = ''created''"
| "run_state_name RunStatePreflightRunning = ''preflight_running''"
| "run_state_name RunStatePreflightPassed = ''preflight_passed''"
| "run_state_name RunStatePreflightFailed = ''preflight_failed''"
| "run_state_name RunStateBaselineRunning = ''baseline_running''"
| "run_state_name RunStateRampRunning = ''ramp_running''"
| "run_state_name RunStateSoakRunning = ''soak_running''"
| "run_state_name RunStateStopping = ''stopping''"
| "run_state_name RunStateAnalyzing = ''analyzing''"
| "run_state_name RunStateCompleted = ''completed''"
| "run_state_name RunStateFailed = ''failed''"
| "run_state_name RunStateAborted = ''aborted''"

text \<open>The table: a state that is no key of the outer map has no entry.\<close>

fun allowedTransitions :: "RunState \<Rightarrow> RunState list option" where
  "allowedTransitions RunStateCreated = Some [RunStatePreflightRunning, RunStateFailed, RunStateAborted]"
| "allowedTransitions RunStatePreflightRunning =
     Some [RunStatePreflightPassed, RunStatePreflightFailed, RunStateStopping]"
| "allowedTransitions RunStatePreflightFailed = Some [RunStateStopping]"
| "allowedTransitions RunStatePreflightPassed = Some [RunStateBaselineRunning, RunStateStopping]"
| "allowedTransitions RunStateBaselineRunning = Some [RunStateRampRunning, RunStateStopping]"
| "allowedTransitions RunStateRampRunning = Some [RunStateSoakRunning, RunStateStopping]"
| "allowedTransitions RunStateSoakRunning = Some [RunStateStopping]"
| "allowedTransitions RunStateStopping = Some [RunStateAnalyzing, RunStateStopping]"
| "allowedTransitions RunStateAnalyzing = Some [RunStateCompleted, RunStateFailed, RunStateAborted]"
| "allowedTransitions _ = None"

definition CanTransition :: "RunState \<Rightarrow> RunState \<Rightarrow> bool" where
  "CanTransition from to =
     (case allowedTransitions from of None \<Rightarrow> False | Some allowed \<Rightarrow> to \<in> set allowed)"

text \<open>The three states the operations treat as terminal, and the states in which a stage runs
  (\<^verbatim>\<open>isRunningState\<close> of \<^verbatim>\<open>worker_failure.go\<close>).\<close>

fun terminal :: "RunState \<Rightarrow> bool" where
  "terminal RunStateCompleted = True"
| "terminal RunStateFailed = True"
| "terminal RunStateAborted = True"
| "terminal _ = False"

fun isRunningState :: "RunState \<Rightarrow> bool" where
  "isRunningState RunStatePreflightRunning = True"
| "isRunningState RunStateBaselineRunning = True"
| "isRunningState RunStateRampRunning = True"
| "isRunningState RunStateSoakRunning = True"
| "isRunningState _ = False"

lemma run_state_name_inj: "run_state_name s = run_state_name t \<Longrightarrow> s = t"
  by (cases s; cases t) simp_all

lemma run_state_name_ne: "run_state_name s \<noteq> []"
  by (cases s) simp_all

lemma terminal_stuck: "terminal s \<Longrightarrow> \<not> CanTransition s t"
  by (cases s) (simp_all add: CanTransition_def)

lemma stuck_terminal: "(\<And>t. \<not> CanTransition s t) \<Longrightarrow> terminal s"
  by (cases s) (auto simp: CanTransition_def)

lemma running_can_stop: "isRunningState s \<Longrightarrow> CanTransition s RunStateStopping"
  by (cases s) (simp_all add: CanTransition_def)

text \<open>A rank that every transition increases, except the loop at \<open>stopping\<close>.\<close>

fun state_rank :: "RunState \<Rightarrow> nat" where
  "state_rank RunStateCreated = 0"
| "state_rank RunStatePreflightRunning = 1"
| "state_rank RunStatePreflightPassed = 2"
| "state_rank RunStatePreflightFailed = 2"
| "state_rank RunStateBaselineRunning = 3"
| "state_rank RunStateRampRunning = 4"
| "state_rank RunStateSoakRunning = 5"
| "state_rank RunStateStopping = 6"
| "state_rank RunStateAnalyzing = 7"
| "state_rank RunStateCompleted = 8"
| "state_rank RunStateFailed = 8"
| "state_rank RunStateAborted = 8"

lemma transition_rank: "CanTransition s t \<Longrightarrow> s \<noteq> t \<Longrightarrow> state_rank s < state_rank t"
  by (cases s) (auto simp: CanTransition_def)

section \<open>Errors\<close>

datatype ErrorKind = ErrKindNotFound | ErrKindInvalidState | ErrKindTerminalState
  | ErrKindInvalidTransition | ErrKindConfigNotAvailable | ErrKindInternal

text \<open>
  The errors the operations return: the typed one (with no state where the code leaves the field
  empty), one that \<^verbatim>\<open>fmt.Errorf\<close> wraps with \<^verbatim>\<open>%w\<close>, one that it prints, a failed
  validation, a cancelled context.
\<close>

datatype run_error =
    RunManagerError (err_Kind: ErrorKind) (err_RunID: string) (err_State: "RunState option")
      (err_Message: string) (err_Cause: "run_error option")
  | WrappedError string run_error
  | PlainError string
  | ValidationError
  | ContextError

fun Error :: "run_error \<Rightarrow> string" where
  "Error (RunManagerError k rid st msg None) = msg"
| "Error (RunManagerError k rid st msg (Some cause)) = msg @ '': '' @ Error cause"
| "Error (WrappedError msg e) = msg @ '': '' @ Error e"
| "Error (PlainError msg) = msg"
| "Error ValidationError = ''validation failed''"
| "Error ContextError = ''context canceled''"

definition NewNotFoundError :: "string \<Rightarrow> run_error" where
  "NewNotFoundError runID = RunManagerError ErrKindNotFound runID None (''run not found: '' @ runID) None"

definition NewInvalidStateError :: "string \<Rightarrow> RunState \<Rightarrow> RunState \<Rightarrow> string \<Rightarrow> run_error" where
  "NewInvalidStateError runID currentState expectedState operation =
     RunManagerError ErrKindInvalidState runID (Some currentState)
       (''cannot '' @ operation @ '' run in state '' @ run_state_name currentState
         @ '': expected '' @ run_state_name expectedState) None"

definition NewTerminalStateError :: "string \<Rightarrow> RunState \<Rightarrow> string \<Rightarrow> run_error" where
  "NewTerminalStateError runID state operation =
     RunManagerError ErrKindTerminalState runID (Some state)
       (''cannot '' @ operation @ '' run in terminal state '' @ run_state_name state) None"

definition NewInvalidTransitionError :: "string \<Rightarrow> RunState \<Rightarrow> RunState \<Rightarrow> run_error" where
  "NewInvalidTransitionError runID from to =
     RunManagerError ErrKindInvalidTransition runID (Some from)
       (''invalid state transition from '' @ run_state_name from @ '' to '' @ run_state_name to) None"

definition NewConfigNotAvailableError :: "string \<Rightarrow> run_error" where
  "NewConfigNotAvailableError runID =
     RunManagerError ErrKindConfigNotAvailable runID None (''config not available for run '' @ runID) None"

definition NewInternalError :: "string \<Rightarrow> run_error \<Rightarrow> run_error" where
  "NewInternalError runID cause = RunManagerError ErrKindInternal runID None (Error cause) (Some cause)"

text \<open>\<^verbatim>\<open>errors.As\<close> follows the wrapped errors to the first typed one.\<close>

fun AsRunManagerError :: "run_error \<Rightarrow> run_error option" where
  "AsRunManagerError (RunManagerError k rid st msg cause) = Some (RunManagerError k rid st msg cause)"
| "AsRunManagerError (WrappedError msg e) = AsRunManagerError e"
| "AsRunManagerError _ = None"

definition IsNotFound :: "run_error \<Rightarrow> bool" where
  "IsNotFound err = (case AsRunManagerError err of None \<Rightarrow> False | Some e \<Rightarrow> err_Kind e = ErrKindNotFound)"

definition IsTerminalState :: "run_error \<Rightarrow> bool" where
  "IsTerminalState err = (case AsRunManagerError err of None \<Rightarrow> False | Some e \<Rightarrow> err_Kind e = ErrKindTerminalState)"

definition IsInvalidState :: "run_error \<Rightarrow> bool" where
  "IsInvalidState err = (case AsRunManagerError err of None \<Rightarrow> False
     | Some e \<Rightarrow> err_Kind e = ErrKindInvalidState \<or> err_Kind e = ErrKindInvalidTransition)"

lemmas run_error_defs = NewNotFoundError_def NewInvalidStateError_def NewTerminalStateError_def
  NewInvalidTransitionError_def NewConfigNotAvailableError_def NewInternalError_def
  IsNotFound_def IsTerminalState_def IsInvalidState_def

end
