(* ===== verification/Run_Events.thy ===== *)
theory Run_Events
  imports Complex_Main Run_States
begin

text \<open>
  The event log of a run (\<^verbatim>\<open>internal/controlplane/runmanager/event_log.go\<close>). Payloads are JSON values;
  \<^verbatim>\<open>json.Marshal\<close> writes the keys of a map in sorted order, and so do the payloads of the model. A nil
  slice or pointer is \<open>None\<close>. The counter of \<^verbatim>\<open>generateEventID\<close> is global, so \<open>Append\<close> takes it and
  returns it; \<open>ts\<close> is the clock in milliseconds.
\<close>

section \<open>Data\<close>

datatype json = JNull | JBool bool | JInt int | JNum real | JStr string
  | JArr "json list" | JObj "(string \<times> json) list"

type_synonym EventType = string
type_synonym ActorType = string
type_synonym StageName = string

abbreviation EventTypeRunCreated :: EventType where "EventTypeRunCreated \<equiv> ''RUN_CREATED''"
abbreviation EventTypeStateTransition :: EventType where "EventTypeStateTransition \<equiv> ''STATE_TRANSITION''"
abbreviation EventTypeAllocationFailed :: EventType where "EventTypeAllocationFailed \<equiv> ''ALLOCATION_FAILED''"
abbreviation EventTypeWorkerAssigned :: EventType where "EventTypeWorkerAssigned \<equiv> ''WORKER_ASSIGNED''"
abbreviation EventTypeWorkerCapacityLost :: EventType where "EventTypeWorkerCapacityLost \<equiv> ''WORKER_CAPACITY_LOST''"
abbreviation EventTypeWorkerReplaced :: EventType where "EventTypeWorkerReplaced \<equiv> ''WORKER_REPLACED''"
abbreviation EventTypeStopRequested :: EventType where "EventTypeStopRequested \<equiv> ''STOP_REQUESTED''"
abbreviation EventTypeEmergencyStop :: EventType where "EventTypeEmergencyStop \<equiv> ''EMERGENCY_STOP''"
abbreviation EventTypeStopConditionTriggered :: EventType where
  "EventTypeStopConditionTriggered \<equiv> ''STOP_CONDITION_TRIGGERED''"
abbreviation EventTypeStageTimeout :: EventType where "EventTypeStageTimeout \<equiv> ''STAGE_TIMEOUT''"
abbreviation EventTypeDecision :: EventType where "EventTypeDecision \<equiv> ''DECISION''"
abbreviation EventTypeAnalysisStarted :: EventType where "EventTypeAnalysisStarted \<equiv> ''ANALYSIS_STARTED''"
abbreviation EventTypeAnalysisCompleted :: EventType where "EventTypeAnalysisCompleted \<equiv> ''ANALYSIS_COMPLETED''"
abbreviation EventTypeReportGenerated :: EventType where "EventTypeReportGenerated \<equiv> ''REPORT_GENERATED''"
abbreviation EventTypeSystemWarning :: EventType where "EventTypeSystemWarning \<equiv> ''SYSTEM_WARNING''"

abbreviation ActorSystem :: ActorType where "ActorSystem \<equiv> ''system''"
abbreviation ActorScheduler :: ActorType where "ActorScheduler \<equiv> ''scheduler''"
abbreviation ActorAutoramp :: ActorType where "ActorAutoramp \<equiv> ''autoramp''"
abbreviation ActorAnalysis :: ActorType where "ActorAnalysis \<equiv> ''analysis''"

abbreviation StageNamePreflight :: StageName where "StageNamePreflight \<equiv> ''preflight''"
abbreviation StageNameBaseline :: StageName where "StageNameBaseline \<equiv> ''baseline''"
abbreviation StageNameRamp :: StageName where "StageNameRamp \<equiv> ''ramp''"
abbreviation StageNameSoak :: StageName where "StageNameSoak \<equiv> ''soak''"

record CorrelationContext =
  co_Stage :: "StageName option"
  co_StageID :: "string option"
  co_WorkerID :: "string option"
  co_VUID :: "string option"
  co_SessionID :: "string option"

definition no_correlation :: CorrelationContext where
  "no_correlation = \<lparr>co_Stage = None, co_StageID = None, co_WorkerID = None, co_VUID = None, co_SessionID = None\<rparr>"

record Evidence =
  evi_Kind :: string
  evi_Ref :: string
  evi_Note :: "string option"

record RunEvent =
  ev_SchemaVersion :: string
  ev_EventID :: string
  ev_TimestampMs :: int
  ev_RunID :: string
  ev_ExecutionID :: string
  ev_Type :: EventType
  ev_Actor :: ActorType
  ev_Correlation :: CorrelationContext
  ev_Payload :: "json option"
  ev_Evidence :: "Evidence list option"

text \<open>A composite literal of the code: the fields it does not name are zero.\<close>

definition mk_event :: "string \<Rightarrow> string \<Rightarrow> EventType \<Rightarrow> ActorType \<Rightarrow> CorrelationContext \<Rightarrow> (string \<times> json) list
    \<Rightarrow> Evidence list \<Rightarrow> RunEvent" where
  "mk_event runID executionID typ actor corr payload evidence =
     \<lparr>ev_SchemaVersion = [], ev_EventID = [], ev_TimestampMs = 0, ev_RunID = runID,
      ev_ExecutionID = executionID, ev_Type = typ, ev_Actor = actor, ev_Correlation = corr,
      ev_Payload = Some (JObj payload), ev_Evidence = Some evidence\<rparr>"

record EventLog =
  el_events :: "RunEvent list"
  el_maxEvents :: int
  el_truncated :: bool
  el_runID :: string

section \<open>Operations\<close>

definition DefaultMaxEventsPerLog :: int where "DefaultMaxEventsPerLog = 10000"

definition NewEventLogWithLimit :: "int \<Rightarrow> EventLog" where
  "NewEventLogWithLimit maxEvents =
     \<lparr>el_events = [], el_maxEvents = maxEvents, el_truncated = False, el_runID = []\<rparr>"

definition NewEventLog :: EventLog where
  "NewEventLog = NewEventLogWithLimit DefaultMaxEventsPerLog"

definition generateEventID :: "nat \<Rightarrow> nat \<Rightarrow> string \<times> nat" where
  "generateEventID ts counter = (stamp_id ''evt_'' ts (counter + 1), counter + 1)"

definition validate_event :: "RunEvent \<Rightarrow> string option" where
  "validate_event event =
     (if ev_RunID event = [] then Some ''event missing required field: run_id''
      else if ev_ExecutionID event = [] then Some ''event missing required field: execution_id''
      else if ev_Type event = [] then Some ''event missing required field: type''
      else if ev_Actor event = [] then Some ''event missing required field: actor''
      else if ev_Payload event = None then Some ''event missing required field: payload''
      else if ev_Evidence event = None then Some ''event missing required field: evidence''
      else None)"

definition stamp_event :: "nat \<Rightarrow> string \<Rightarrow> RunEvent \<Rightarrow> RunEvent" where
  "stamp_event ts eventID event =
     event\<lparr>ev_EventID := eventID, ev_SchemaVersion := ''event/v1'',
           ev_TimestampMs := (if ev_TimestampMs event = 0 then int ts else ev_TimestampMs event)\<rparr>"

definition store_event :: "RunEvent \<Rightarrow> EventLog \<Rightarrow> EventLog" where
  "store_event event el =
     (let el1 = (if el_runID el = [] then el\<lparr>el_runID := ev_RunID event\<rparr> else el)
      in if el_maxEvents el1 > 0 \<and> int (length (el_events el1)) \<ge> el_maxEvents el1
         then el1\<lparr>el_truncated := True\<rparr>
         else el1\<lparr>el_events := el_events el1 @ [event]\<rparr>)"

definition Append :: "nat \<Rightarrow> RunEvent \<Rightarrow> nat \<Rightarrow> EventLog \<Rightarrow> string option \<times> nat \<times> EventLog" where
  "Append ts event counter el =
     (case validate_event event of
        Some err \<Rightarrow> (Some err, counter, el)
      | None \<Rightarrow>
          let (eventID, counter1) = (if ev_EventID event = [] then generateEventID ts counter
                                     else (ev_EventID event, counter))
          in (None, counter1, store_event (stamp_event ts eventID event) el))"

text \<open>\<open>None\<close> is the panic of \<^verbatim>\<open>make\<close> on a negative length, which the sum of cursor and limit can cause
  by wrapping around.\<close>

definition Tail :: "int \<Rightarrow> int \<Rightarrow> EventLog \<Rightarrow> (string + RunEvent list) option" where
  "Tail cursor limit el =
     (if limit < 0 then Some (Inl ''limit must be non-negative'')
      else if cursor < 0 then Some (Inl ''cursor must be non-negative'')
      else if cursor \<ge> int (length (el_events el)) then Some (Inr [])
      else
        let end1 = wrap64 (cursor + limit);
            end2 = (if end1 > int (length (el_events el)) then int (length (el_events el)) else end1)
        in if end2 - cursor < 0 then None
           else Some (Inr (take (nat (end2 - cursor)) (drop (nat cursor) (el_events el)))))"

definition GetAll :: "EventLog \<Rightarrow> RunEvent list" where
  "GetAll el = el_events el"

definition Len :: "EventLog \<Rightarrow> nat" where
  "Len el = length (el_events el)"

definition IsTruncated :: "EventLog \<Rightarrow> bool" where
  "IsTruncated el = el_truncated el"

fun find_event :: "string \<Rightarrow> RunEvent list \<Rightarrow> int \<Rightarrow> int" where
  "find_event eventID [] i = -1"
| "find_event eventID (e # es) i = (if ev_EventID e = eventID then i else find_event eventID es (i + 1))"

definition FindEventIndex :: "string \<Rightarrow> EventLog \<Rightarrow> int" where
  "FindEventIndex eventID el = find_event eventID (el_events el) 0"

section \<open>The invariant of a log\<close>

text \<open>
  Every event is complete, carries the schema version and belongs to the run; identifiers come from
  the counter and are distinct; a bounded log never exceeds its bound.
\<close>

definition event_ok :: "nat \<Rightarrow> string \<Rightarrow> RunEvent \<Rightarrow> bool" where
  "event_ok n rid e \<longleftrightarrow> validate_event e = None \<and> ev_SchemaVersion e = ''event/v1'' \<and> ev_RunID e = rid
     \<and> (\<exists>ts c. clock_ms ts \<and> c \<le> n \<and> ev_EventID e = stamp_id ''evt_'' ts c)"

definition log_ok :: "nat \<Rightarrow> string \<Rightarrow> EventLog \<Rightarrow> bool" where
  "log_ok n rid el \<longleftrightarrow> (\<forall>e \<in> set (el_events el). event_ok n rid e) \<and> distinct (map ev_EventID (el_events el))
     \<and> (el_maxEvents el > 0 \<longrightarrow> int (length (el_events el)) \<le> el_maxEvents el)"

lemma event_ok_mono: "event_ok n rid e \<Longrightarrow> n \<le> m \<Longrightarrow> event_ok m rid e"
  unfolding event_ok_def using le_trans by blast

lemma log_ok_mono: "log_ok n rid el \<Longrightarrow> n \<le> m \<Longrightarrow> log_ok m rid el"
  by (auto simp: log_ok_def intro: event_ok_mono)

lemma log_ok_new: "log_ok n rid NewEventLog"
  by (simp add: log_ok_def NewEventLog_def NewEventLogWithLimit_def DefaultMaxEventsPerLog_def)

lemma event_id_fresh: "event_ok n rid e \<Longrightarrow> clock_ms ts \<Longrightarrow> ev_EventID e \<noteq> stamp_id ''evt_'' ts (Suc n)"
  by (metis event_ok_def stamp_id_fresh)

lemma stamp_event_valid: "validate_event (stamp_event ts i e) = validate_event e"
  by (simp add: validate_event_def stamp_event_def)

lemma stamp_event_ok: "validate_event e = None \<Longrightarrow> clock_ms ts \<Longrightarrow> c \<le> n \<Longrightarrow> ev_RunID e = rid \<Longrightarrow>
    event_ok n rid (stamp_event ts (stamp_id ''evt_'' ts c) e)"
  unfolding event_ok_def stamp_event_valid by (auto simp: stamp_event_def)

lemma store_event_events: "el_events (store_event e el) =
    (if el_maxEvents el > 0 \<and> int (length (el_events el)) \<ge> el_maxEvents el then el_events el else el_events el @ [e])"
  by (simp add: store_event_def Let_def)

lemma store_event_max [simp]: "el_maxEvents (store_event e el) = el_maxEvents el"
  by (simp add: store_event_def Let_def)

lemma store_event_ok: "log_ok n rid el \<Longrightarrow> event_ok n rid e \<Longrightarrow> (\<forall>x \<in> set (el_events el). ev_EventID x \<noteq> ev_EventID e)
    \<Longrightarrow> log_ok n rid (store_event e el)"
  by (auto simp: log_ok_def store_event_events)

lemma Append_ok:
  assumes "log_ok n rid el" and "clock_ms ts" and "ev_RunID e = rid" and "ev_EventID e = []"
    and "Append ts e n el = (err, n', el')"
  shows "log_ok n' rid el' \<and> n \<le> n'"
proof (cases "validate_event e")
  case (Some a)
  with assms show ?thesis by (simp add: Append_def)
next
  case None
  let ?id = "stamp_id ''evt_'' ts (Suc n)"
  from None assms(4,5) have eq: "n' = Suc n" "el' = store_event (stamp_event ts ?id e) el"
    by (auto simp: Append_def generateEventID_def Let_def)
  have id: "ev_EventID (stamp_event ts ?id e) = ?id" by (simp add: stamp_event_def)
  have "\<forall>x \<in> set (el_events el). ev_EventID x \<noteq> ?id"
    using assms(1,2) by (auto simp: log_ok_def dest: event_id_fresh)
  then have "log_ok (Suc n) rid (store_event (stamp_event ts ?id e) el)"
    using assms None by (intro store_event_ok) (auto simp: id log_ok_mono stamp_event_ok)
  with eq show ?thesis by simp
qed

section \<open>Reading\<close>

lemma Tail_slice:
  assumes "0 \<le> c" and "0 \<le> k" and "c + k < 2 ^ 63" and "int (length (el_events el)) < 2 ^ 63"
  shows "Tail c k el = Some (Inr (take (nat k) (drop (nat c) (el_events el))))"
proof (cases "c \<ge> int (length (el_events el))")
  case True
  with assms show ?thesis by (simp add: Tail_def)
next
  case False
  have w: "wrap64 (c + k) = c + k" using assms by (intro wrap64_id) (simp add: is_int64_def)
  show ?thesis
  proof (cases "c + k > int (length (el_events el))")
    case True
    moreover from True have "length (el_events el) - nat c \<le> nat k" by linarith
    ultimately show ?thesis using False assms w by (simp add: Tail_def nat_diff_distrib)
  next
    case le: False
    with False assms w show ?thesis by (simp add: Tail_def)
  qed
qed

lemma find_event_shift: "find_event i es k = (if i \<in> set (map ev_EventID es)
    then k + int (length (takeWhile (\<lambda>e. ev_EventID e \<noteq> i) es)) else -1)"
  by (induction es arbitrary: k) auto

lemma FindEventIndex_nth:
  assumes "distinct (map ev_EventID (el_events el))" and "n < length (el_events el)"
  shows "FindEventIndex (ev_EventID (el_events el ! n)) el = int n"
proof -
  let ?es = "el_events el"
  have "takeWhile (\<lambda>e. ev_EventID e \<noteq> ev_EventID (?es ! n)) ?es = take n ?es"
    by (rule takeWhile_eq_take_P_nth) (use assms in \<open>auto simp: distinct_conv_nth\<close>)
  with assms show ?thesis by (simp add: FindEventIndex_def find_event_shift)
qed

section \<open>Properties\<close>

text \<open>A sequence of appends to one log: each with its clock reading and its event.\<close>

fun append_all :: "(nat \<times> RunEvent) list \<Rightarrow> nat \<times> EventLog \<Rightarrow> nat \<times> EventLog" where
  "append_all [] s = s"
| "append_all ((ts, e) # es) (n, el) = append_all es (snd (Append ts e n el))"

lemma append_all_ok:
  assumes "log_ok n rid el" and "\<forall>(ts, e) \<in> set es. clock_ms ts \<and> ev_RunID e = rid \<and> ev_EventID e = []"
  shows "log_ok (fst (append_all es (n, el))) rid (snd (append_all es (n, el)))"
  using assms
proof (induction es arbitrary: n el)
  case (Cons x es)
  obtain ts e where x: "x = (ts, e)" by (cases x)
  obtain err n' el' where a: "Append ts e n el = (err, n', el')" by (cases "Append ts e n el")
  from Append_ok [OF Cons.prems(1) _ _ _ a] Cons.prems(2) x have "log_ok n' rid el'" by auto
  with Cons x a show ?case by auto
qed simp



end
