(* ===== verification/Run_Config.thy ===== *)
theory Run_Config
  imports Run_Events
begin

text \<open>
  Reading the configuration of a run (\<^verbatim>\<open>internal/controlplane/runmanager/config_parse.go\<close>) and the
  parts of an assignment built from it (\<^verbatim>\<open>internal/types/assignment.go\<close>). A configuration is a byte
  slice: nil, or its bytes with the JSON value the scanner of \<^verbatim>\<open>encoding/json\<close> reads in them
  (\<open>None\<close> when they are no JSON text). A decoder writes a JSON value into a destination as
  \<^verbatim>\<open>json.Unmarshal\<close> does: null leaves a scalar or a struct as it is and clears a pointer, slice or
  map, a member is matched to a field by name, exactly or else up to case, an unknown member is
  skipped, and a value of the wrong kind is an error. Nil and empty slices and maps are not told apart:
  the code only takes their length or iterates over them.
\<close>

section \<open>Decoding JSON\<close>

datatype raw_config = NilConfig | Config string "json option"

type_synonym 'a decoder = "json \<Rightarrow> 'a \<Rightarrow> 'a option"

fun dec_string :: "string decoder" where
  "dec_string (JStr s) old = Some s"
| "dec_string JNull old = Some old"
| "dec_string _ old = None"

fun dec_bool :: "bool decoder" where
  "dec_bool (JBool b) old = Some b"
| "dec_bool JNull old = Some old"
| "dec_bool _ old = None"

fun dec_int64 :: "int decoder" where
  "dec_int64 (JInt i) old = (if is_int64 i then Some i else None)"
| "dec_int64 JNull old = Some old"
| "dec_int64 _ old = None"

fun dec_float :: "real decoder" where
  "dec_float (JInt i) old = Some (real_of_int i)"
| "dec_float (JNum x) old = Some x"
| "dec_float JNull old = Some old"
| "dec_float _ old = None"

fun dec_ptr :: "'a \<Rightarrow> 'a decoder \<Rightarrow> 'a option decoder" where
  "dec_ptr zero d JNull old = Some None"
| "dec_ptr zero d j old = map_option Some (d j (case old of None \<Rightarrow> zero | Some x \<Rightarrow> x))"

fun dec_slice :: "'a \<Rightarrow> 'a decoder \<Rightarrow> 'a list decoder" where
  "dec_slice zero d JNull old = Some []"
| "dec_slice zero d (JArr js) old = those (map (\<lambda>j. d j zero) js)"
| "dec_slice zero d _ old = None"

fun put_members :: "'a \<Rightarrow> 'a decoder \<Rightarrow> (string \<times> json) list \<Rightarrow> (string, 'a) gomap \<Rightarrow> (string, 'a) gomap option" where
  "put_members zero d [] m = Some m"
| "put_members zero d ((k, j) # kvs) m =
     (case d j zero of None \<Rightarrow> None | Some v \<Rightarrow> put_members zero d kvs (map_put k v m))"

fun dec_map :: "'a \<Rightarrow> 'a decoder \<Rightarrow> (string, 'a) gomap decoder" where
  "dec_map zero d JNull old = Some []"
| "dec_map zero d (JObj kvs) old = put_members zero d kvs old"
| "dec_map zero d _ old = None"

text \<open>An \<^verbatim>\<open>interface{}\<close> takes any value.\<close>

definition dec_any :: "json decoder" where
  "dec_any j old = Some j"

definition lower :: "char \<Rightarrow> char" where
  "lower c = (let n = of_char c :: nat in if 65 \<le> n \<and> n \<le> 90 then char_of (n + 32) else c)"

definition fold_equal :: "string \<Rightarrow> string \<Rightarrow> bool" where
  "fold_equal s t \<longleftrightarrow> map lower s = map lower t"

definition field_of :: "(string \<times> 'r decoder) list \<Rightarrow> string \<Rightarrow> 'r decoder option" where
  "field_of fs k =
     (case map_of fs k of
        Some d \<Rightarrow> Some d
      | None \<Rightarrow> map_option snd (find (\<lambda>f. fold_equal (fst f) k) fs))"

fun dec_members :: "(string \<times> 'r decoder) list \<Rightarrow> (string \<times> json) list \<Rightarrow> 'r \<Rightarrow> 'r option" where
  "dec_members fs [] r = Some r"
| "dec_members fs ((k, j) # kvs) r =
     (case field_of fs k of
        None \<Rightarrow> dec_members fs kvs r
      | Some d \<Rightarrow> (case d j r of None \<Rightarrow> None | Some r' \<Rightarrow> dec_members fs kvs r'))"

fun dec_struct :: "(string \<times> 'r decoder) list \<Rightarrow> 'r decoder" where
  "dec_struct fs JNull r = Some r"
| "dec_struct fs (JObj kvs) r = dec_members fs kvs r"
| "dec_struct fs _ r = None"

definition fld :: "string \<Rightarrow> ('r \<Rightarrow> 'a) \<Rightarrow> (('a \<Rightarrow> 'a) \<Rightarrow> 'r \<Rightarrow> 'r) \<Rightarrow> 'a decoder \<Rightarrow> string \<times> 'r decoder" where
  "fld name get upd d = (name, \<lambda>j r. map_option (\<lambda>v. upd (\<lambda>_. v) r) (d j (get r)))"

text \<open>\<^verbatim>\<open>json.Unmarshal\<close> into a fresh struct: nil or malformed bytes are a syntax error.\<close>

definition Unmarshal :: "'r decoder \<Rightarrow> 'r \<Rightarrow> raw_config \<Rightarrow> 'r option" where
  "Unmarshal d zero config =
     (case config of Config bs (Some j) \<Rightarrow> d j zero | _ \<Rightarrow> None)"

section \<open>The parsed configuration\<close>

record parsedRedirectPolicy =
  rp_Mode :: string
  rp_MaxRedirects :: int
  rp_Allowlist :: "string list"

record parsedAuth =
  au_Type :: string
  au_Tokens :: "string list"

record parsedRunIDHeader =
  rh_Name :: string
  rh_ValueTemplate :: string

record parsedUserAgent =
  ua_Value :: string

record parsedIdentification =
  id_RunIDHeader :: "parsedRunIDHeader option"
  id_UserAgent :: "parsedUserAgent option"

record parsedTarget =
  tg_URL :: string
  tg_Transport :: string
  tg_Headers :: "(string, string) gomap"
  tg_Auth :: "parsedAuth option"
  tg_Identification :: "parsedIdentification option"
  tg_RedirectPolicy :: "parsedRedirectPolicy option"
  tg_ProtocolVersion :: string
  tg_ProtocolVersionPolicy :: string

record parsedStreamingConfig =
  sc_StreamStallSeconds :: int
  sc_MinEventsPerSecond :: real

record parsedStopCondition =
  pc_ID :: string
  pc_Metric :: string
  pc_Comparator :: string
  pc_Threshold :: real
  pc_WindowMs :: int
  pc_SustainWindows :: int
  pc_Scope :: "(string, string) gomap"

record parsedLoad =
  ld_TargetVUs :: int
  ld_StartVUs :: int
  ld_RampSteps :: int
  ld_StepHoldMs :: int

record parsedStage =
  st_StageID :: string
  st_Stage :: string
  st_Enabled :: bool
  st_DurationMs :: int
  st_MaxDurationMs :: int
  st_Load :: parsedLoad
  st_StopConditions :: "parsedStopCondition list"
  st_StreamingStopConfig :: "parsedStreamingConfig option"

record parsedToolSelection =
  sel_Mode :: string

record parsedToolTemplate =
  tt_TemplateID :: string
  tt_ToolName :: string
  tt_Weight :: int
  tt_Arguments :: "(string, json) gomap"

record parsedToolsConfig =
  tc_Selection :: parsedToolSelection
  tc_Templates :: "parsedToolTemplate list"

record parsedOpMixEntry =
  om_Operation :: string
  om_Weight :: int
  om_ToolName :: string
  om_Arguments :: "(string, json) gomap"
  om_URI :: string
  om_PromptName :: string

record parsedWorkload =
  wl_OpMix :: "parsedOpMixEntry list"
  wl_OperationMix :: "parsedOpMixEntry list"
  wl_Tools :: "parsedToolsConfig option"

record parsedSessionPolicy =
  sp_Mode :: string
  sp_PoolSize :: int
  sp_TTLMs :: int
  sp_MaxIdleMs :: int

record parsedStopPolicy =
  po_Mode :: string
  po_DrainTimeoutMs :: int

record parsedHardCaps =
  hc_MaxVUs :: int
  hc_MaxDurationMs :: int
  hc_MaxErrors :: int

record parsedSafety =
  sf_HardCaps :: parsedHardCaps
  sf_StopPolicy :: parsedStopPolicy
  sf_AnalysisTimeoutMs :: int

record parsedRunConfig =
  cf_Target :: parsedTarget
  cf_Stages :: "parsedStage list"
  cf_Workload :: parsedWorkload
  cf_SessionPolicy :: parsedSessionPolicy
  cf_Safety :: parsedSafety

section \<open>Zero values\<close>

definition zero_target :: parsedTarget where
  "zero_target = \<lparr>tg_URL = [], tg_Transport = [], tg_Headers = [], tg_Auth = None, tg_Identification = None,
     tg_RedirectPolicy = None, tg_ProtocolVersion = [], tg_ProtocolVersionPolicy = []\<rparr>"

definition zero_load :: parsedLoad where
  "zero_load = \<lparr>ld_TargetVUs = 0, ld_StartVUs = 0, ld_RampSteps = 0, ld_StepHoldMs = 0\<rparr>"

definition zero_condition :: parsedStopCondition where
  "zero_condition = \<lparr>pc_ID = [], pc_Metric = [], pc_Comparator = [], pc_Threshold = 0, pc_WindowMs = 0,
     pc_SustainWindows = 0, pc_Scope = []\<rparr>"

definition zero_stage :: parsedStage where
  "zero_stage = \<lparr>st_StageID = [], st_Stage = [], st_Enabled = False, st_DurationMs = 0, st_MaxDurationMs = 0,
     st_Load = zero_load, st_StopConditions = [], st_StreamingStopConfig = None\<rparr>"

definition zero_op :: parsedOpMixEntry where
  "zero_op = \<lparr>om_Operation = [], om_Weight = 0, om_ToolName = [], om_Arguments = [], om_URI = [], om_PromptName = []\<rparr>"

definition zero_template :: parsedToolTemplate where
  "zero_template = \<lparr>tt_TemplateID = [], tt_ToolName = [], tt_Weight = 0, tt_Arguments = []\<rparr>"

definition zero_config :: parsedRunConfig where
  "zero_config = \<lparr>cf_Target = zero_target, cf_Stages = [],
     cf_Workload = \<lparr>wl_OpMix = [], wl_OperationMix = [], wl_Tools = None\<rparr>,
     cf_SessionPolicy = \<lparr>sp_Mode = [], sp_PoolSize = 0, sp_TTLMs = 0, sp_MaxIdleMs = 0\<rparr>,
     cf_Safety = \<lparr>sf_HardCaps = \<lparr>hc_MaxVUs = 0, hc_MaxDurationMs = 0, hc_MaxErrors = 0\<rparr>,
        sf_StopPolicy = \<lparr>po_Mode = [], po_DrainTimeoutMs = 0\<rparr>, sf_AnalysisTimeoutMs = 0\<rparr>\<rparr>"

section \<open>Field tables\<close>

definition redirectPolicy_decoder :: "parsedRedirectPolicy decoder" where
  "redirectPolicy_decoder = dec_struct
     [fld ''mode'' rp_Mode rp_Mode_update dec_string,
      fld ''max_redirects'' rp_MaxRedirects rp_MaxRedirects_update dec_int64,
      fld ''allowlist'' rp_Allowlist rp_Allowlist_update (dec_slice [] dec_string)]"

definition auth_decoder :: "parsedAuth decoder" where
  "auth_decoder = dec_struct
     [fld ''type'' au_Type au_Type_update dec_string,
      fld ''tokens'' au_Tokens au_Tokens_update (dec_slice [] dec_string)]"

definition identification_decoder :: "parsedIdentification decoder" where
  "identification_decoder = dec_struct
     [fld ''run_id_header'' id_RunIDHeader id_RunIDHeader_update
        (dec_ptr \<lparr>rh_Name = [], rh_ValueTemplate = []\<rparr> (dec_struct
          [fld ''name'' rh_Name rh_Name_update dec_string,
           fld ''value_template'' rh_ValueTemplate rh_ValueTemplate_update dec_string])),
      fld ''user_agent'' id_UserAgent id_UserAgent_update
        (dec_ptr \<lparr>ua_Value = []\<rparr> (dec_struct [fld ''value'' ua_Value ua_Value_update dec_string]))]"

definition target_decoder :: "parsedTarget decoder" where
  "target_decoder = dec_struct
     [fld ''url'' tg_URL tg_URL_update dec_string,
      fld ''transport'' tg_Transport tg_Transport_update dec_string,
      fld ''headers'' tg_Headers tg_Headers_update (dec_map [] dec_string),
      fld ''auth'' tg_Auth tg_Auth_update (dec_ptr \<lparr>au_Type = [], au_Tokens = []\<rparr> auth_decoder),
      fld ''identification'' tg_Identification tg_Identification_update
        (dec_ptr \<lparr>id_RunIDHeader = None, id_UserAgent = None\<rparr> identification_decoder),
      fld ''redirect_policy'' tg_RedirectPolicy tg_RedirectPolicy_update
        (dec_ptr \<lparr>rp_Mode = [], rp_MaxRedirects = 0, rp_Allowlist = []\<rparr> redirectPolicy_decoder),
      fld ''protocol_version'' tg_ProtocolVersion tg_ProtocolVersion_update dec_string,
      fld ''protocol_version_policy'' tg_ProtocolVersionPolicy tg_ProtocolVersionPolicy_update dec_string]"

definition load_decoder :: "parsedLoad decoder" where
  "load_decoder = dec_struct
     [fld ''target_vus'' ld_TargetVUs ld_TargetVUs_update dec_int64,
      fld ''start_vus'' ld_StartVUs ld_StartVUs_update dec_int64,
      fld ''ramp_steps'' ld_RampSteps ld_RampSteps_update dec_int64,
      fld ''step_hold_ms'' ld_StepHoldMs ld_StepHoldMs_update dec_int64]"

definition stopCondition_decoder :: "parsedStopCondition decoder" where
  "stopCondition_decoder = dec_struct
     [fld ''id'' pc_ID pc_ID_update dec_string,
      fld ''metric'' pc_Metric pc_Metric_update dec_string,
      fld ''comparator'' pc_Comparator pc_Comparator_update dec_string,
      fld ''threshold'' pc_Threshold pc_Threshold_update dec_float,
      fld ''window_ms'' pc_WindowMs pc_WindowMs_update dec_int64,
      fld ''sustain_windows'' pc_SustainWindows pc_SustainWindows_update dec_int64,
      fld ''scope'' pc_Scope pc_Scope_update (dec_map [] dec_string)]"

definition stage_decoder :: "parsedStage decoder" where
  "stage_decoder = dec_struct
     [fld ''stage_id'' st_StageID st_StageID_update dec_string,
      fld ''stage'' st_Stage st_Stage_update dec_string,
      fld ''enabled'' st_Enabled st_Enabled_update dec_bool,
      fld ''duration_ms'' st_DurationMs st_DurationMs_update dec_int64,
      fld ''max_duration_ms'' st_MaxDurationMs st_MaxDurationMs_update dec_int64,
      fld ''load'' st_Load st_Load_update load_decoder,
      fld ''stop_conditions'' st_StopConditions st_StopConditions_update
        (dec_slice zero_condition stopCondition_decoder),
      fld ''streaming_stop_conditions'' st_StreamingStopConfig st_StreamingStopConfig_update
        (dec_ptr \<lparr>sc_StreamStallSeconds = 0, sc_MinEventsPerSecond = 0\<rparr> (dec_struct
          [fld ''stream_stall_seconds'' sc_StreamStallSeconds sc_StreamStallSeconds_update dec_int64,
           fld ''min_events_per_second'' sc_MinEventsPerSecond sc_MinEventsPerSecond_update dec_float]))]"

definition template_decoder :: "parsedToolTemplate decoder" where
  "template_decoder = dec_struct
     [fld ''template_id'' tt_TemplateID tt_TemplateID_update dec_string,
      fld ''tool_name'' tt_ToolName tt_ToolName_update dec_string,
      fld ''weight'' tt_Weight tt_Weight_update dec_int64,
      fld ''arguments'' tt_Arguments tt_Arguments_update (dec_map JNull dec_any)]"

definition tools_decoder :: "parsedToolsConfig decoder" where
  "tools_decoder = dec_struct
     [fld ''selection'' tc_Selection tc_Selection_update
        (dec_struct [fld ''mode'' sel_Mode sel_Mode_update dec_string]),
      fld ''templates'' tc_Templates tc_Templates_update (dec_slice zero_template template_decoder)]"

definition op_decoder :: "parsedOpMixEntry decoder" where
  "op_decoder = dec_struct
     [fld ''operation'' om_Operation om_Operation_update dec_string,
      fld ''weight'' om_Weight om_Weight_update dec_int64,
      fld ''tool_name'' om_ToolName om_ToolName_update dec_string,
      fld ''arguments'' om_Arguments om_Arguments_update (dec_map JNull dec_any),
      fld ''uri'' om_URI om_URI_update dec_string,
      fld ''prompt_name'' om_PromptName om_PromptName_update dec_string]"

definition workload_decoder :: "parsedWorkload decoder" where
  "workload_decoder = dec_struct
     [fld ''op_mix'' wl_OpMix wl_OpMix_update (dec_slice zero_op op_decoder),
      fld ''operation_mix'' wl_OperationMix wl_OperationMix_update (dec_slice zero_op op_decoder),
      fld ''tools'' wl_Tools wl_Tools_update
        (dec_ptr \<lparr>tc_Selection = \<lparr>sel_Mode = []\<rparr>, tc_Templates = []\<rparr> tools_decoder)]"

definition sessionPolicy_decoder :: "parsedSessionPolicy decoder" where
  "sessionPolicy_decoder = dec_struct
     [fld ''mode'' sp_Mode sp_Mode_update dec_string,
      fld ''pool_size'' sp_PoolSize sp_PoolSize_update dec_int64,
      fld ''ttl_ms'' sp_TTLMs sp_TTLMs_update dec_int64,
      fld ''max_idle_ms'' sp_MaxIdleMs sp_MaxIdleMs_update dec_int64]"

definition safety_decoder :: "parsedSafety decoder" where
  "safety_decoder = dec_struct
     [fld ''hard_caps'' sf_HardCaps sf_HardCaps_update (dec_struct
        [fld ''max_vus'' hc_MaxVUs hc_MaxVUs_update dec_int64,
         fld ''max_duration_ms'' hc_MaxDurationMs hc_MaxDurationMs_update dec_int64,
         fld ''max_errors'' hc_MaxErrors hc_MaxErrors_update dec_int64]),
      fld ''stop_policy'' sf_StopPolicy sf_StopPolicy_update (dec_struct
        [fld ''mode'' po_Mode po_Mode_update dec_string,
         fld ''drain_timeout_ms'' po_DrainTimeoutMs po_DrainTimeoutMs_update dec_int64]),
      fld ''analysis_timeout_ms'' sf_AnalysisTimeoutMs sf_AnalysisTimeoutMs_update dec_int64]"

definition config_decoder :: "parsedRunConfig decoder" where
  "config_decoder = dec_struct
     [fld ''target'' cf_Target cf_Target_update target_decoder,
      fld ''stages'' cf_Stages cf_Stages_update (dec_slice zero_stage stage_decoder),
      fld ''workload'' cf_Workload cf_Workload_update workload_decoder,
      fld ''session_policy'' cf_SessionPolicy cf_SessionPolicy_update sessionPolicy_decoder,
      fld ''safety'' cf_Safety cf_Safety_update safety_decoder]"

section \<open>Operations\<close>

definition normalizeOperationName :: "string \<Rightarrow> string" where
  "normalizeOperationName op =
     (if op = ''tools_list'' then ''tools/list''
      else if op = ''tools_call'' then ''tools/call''
      else if op = ''resources_list'' then ''resources/list''
      else if op = ''resources_read'' then ''resources/read''
      else if op = ''prompts_list'' then ''prompts/list''
      else if op = ''prompts_get'' then ''prompts/get''
      else op)"

definition expandToolsTemplates :: "parsedOpMixEntry list \<Rightarrow> parsedToolsConfig option \<Rightarrow> parsedOpMixEntry list" where
  "expandToolsTemplates opMix tools =
     (case tools of
        None \<Rightarrow> opMix
      | Some t \<Rightarrow>
          if tc_Templates t = [] then opMix
          else concat (map (\<lambda>op.
            if om_Operation op = ''tools/call'' \<and> om_ToolName op = []
            then map (\<lambda>tmpl. zero_op\<lparr>om_Operation := ''tools/call'', om_Weight := tt_Weight tmpl,
                        om_ToolName := tt_ToolName tmpl, om_Arguments := tt_Arguments tmpl\<rparr>) (tc_Templates t)
            else [op]) opMix))"

definition parseRunConfig :: "raw_config \<Rightarrow> parsedRunConfig option" where
  "parseRunConfig config =
     (case Unmarshal config_decoder zero_config config of
        None \<Rightarrow> None
      | Some parsed \<Rightarrow>
          let w = cf_Workload parsed;
              mix = (if wl_OpMix w = [] \<and> wl_OperationMix w \<noteq> [] then wl_OperationMix w else wl_OpMix w);
              mix1 = map (\<lambda>op. op\<lparr>om_Operation := normalizeOperationName (om_Operation op)\<rparr>) mix;
              mix2 = expandToolsTemplates mix1 (wl_Tools w);
              w1 = (if wl_OpMix w = [] \<and> wl_OperationMix w \<noteq> [] then w\<lparr>wl_OperationMix := mix1\<rparr> else w)
          in Some (parsed\<lparr>cf_Workload := w1\<lparr>wl_OpMix := mix2\<rparr>\<rparr>))"

text \<open>In the first branch the two slices share their array, so the normalised names show in both.\<close>

text \<open>\<^verbatim>\<open>strings.ReplaceAll\<close> with a non-empty old string: occurrences from left to right, no overlaps.\<close>

function ReplaceAll :: "string \<Rightarrow> string \<Rightarrow> string \<Rightarrow> string" where
  "ReplaceAll s old new =
     (if old = [] \<or> s = [] then s
      else if take (length old) s = old then new @ ReplaceAll (drop (length old) s) old new
      else hd s # ReplaceAll (tl s) old new)"
  by auto
termination by (relation "measure (\<lambda>(s, old, new). length s)") auto

declare ReplaceAll.simps [simp del]

definition buildTargetHeaders :: "string \<Rightarrow> parsedTarget \<Rightarrow> (string, string) gomap" where
  "buildTargetHeaders runID target =
     (let headers = fold (\<lambda>(k, v). map_put k v) (tg_Headers target) []
      in case tg_Identification target of
           None \<Rightarrow> headers
         | Some ident \<Rightarrow>
             let headers1 = (case id_RunIDHeader ident of
                   None \<Rightarrow> headers
                 | Some h \<Rightarrow>
                     let name = (if rh_Name h = [] then ''X-Test-Run-Id'' else rh_Name h)
                     in map_put name (ReplaceAll (rh_ValueTemplate h) ''${run_id}'' runID) headers)
             in case id_UserAgent ident of
                  None \<Rightarrow> headers1
                | Some ua \<Rightarrow> map_put ''User-Agent'' (ReplaceAll (ua_Value ua) ''${run_id}'' runID) headers1)"

record RedirectPolicyConfig =
  rpc_Mode :: string
  rpc_MaxRedirects :: int
  rpc_Allowlist :: "string list"

record AuthConfig =
  auc_Type :: string
  auc_Tokens :: "string list"

record TargetConfig =
  tgc_URL :: string
  tgc_Transport :: string
  tgc_Headers :: "(string, string) gomap"
  tgc_RedirectPolicy :: "RedirectPolicyConfig option"
  tgc_Auth :: "AuthConfig option"
  tgc_ProtocolVersion :: string
  tgc_ProtocolVersionPolicy :: string

record OpMixEntry =
  ome_Operation :: string
  ome_Weight :: int
  ome_ToolName :: string
  ome_Arguments :: "(string, json) gomap"
  ome_URI :: string
  ome_PromptName :: string

record WorkloadConfig =
  wlc_OpMix :: "OpMixEntry list"

record SessionPolicyConfig =
  spc_Mode :: string
  spc_PoolSize :: int
  spc_TTLMs :: int
  spc_MaxIdleMs :: int

record WorkerAssignment =
  wa_RunID :: string
  wa_ExecutionID :: string
  wa_Stage :: string
  wa_StageID :: string
  wa_LeaseID :: string
  wa_VUIDStart :: int
  wa_VUIDEnd :: int
  wa_DurationMs :: int
  wa_Target :: TargetConfig
  wa_Workload :: WorkloadConfig
  wa_SessionPolicy :: SessionPolicyConfig

definition GetHeadersWithAuth :: "TargetConfig \<Rightarrow> (string, string) gomap" where
  "GetHeadersWithAuth t =
     (let headers = fold (\<lambda>(k, v). map_put k v) (tgc_Headers t) []
      in case tgc_Auth t of
           None \<Rightarrow> headers
         | Some a \<Rightarrow>
             if auc_Type a = ''bearer_token'' \<and> auc_Tokens a \<noteq> []
             then map_put ''Authorization'' (''Bearer '' @ hd (auc_Tokens a)) headers
             else headers)"

definition buildRedirectPolicy :: "parsedRedirectPolicy option \<Rightarrow> RedirectPolicyConfig option" where
  "buildRedirectPolicy policy =
     (case policy of
        None \<Rightarrow> None
      | Some p \<Rightarrow> Some \<lparr>rpc_Mode = rp_Mode p, rpc_MaxRedirects = rp_MaxRedirects p, rpc_Allowlist = rp_Allowlist p\<rparr>)"

definition buildAuthConfig :: "parsedAuth option \<Rightarrow> AuthConfig option" where
  "buildAuthConfig auth =
     (case auth of
        None \<Rightarrow> None
      | Some a \<Rightarrow>
          if au_Type a = [] \<or> au_Type a = ''none'' then None
          else Some \<lparr>auc_Type = au_Type a, auc_Tokens = au_Tokens a\<rparr>)"

definition convertOpMix :: "parsedOpMixEntry list \<Rightarrow> OpMixEntry list" where
  "convertOpMix entries = map (\<lambda>e. \<lparr>ome_Operation = om_Operation e, ome_Weight = om_Weight e,
     ome_ToolName = om_ToolName e, ome_Arguments = om_Arguments e, ome_URI = om_URI e,
     ome_PromptName = om_PromptName e\<rparr>) entries"

definition findStageByName :: "parsedRunConfig \<Rightarrow> StageName \<Rightarrow> parsedStage option" where
  "findStageByName config stageName = find (\<lambda>s. st_Stage s = stageName \<and> st_Enabled s) (cf_Stages config)"

definition DefaultDrainTimeoutMs :: int where "DefaultDrainTimeoutMs = 30000"
definition DefaultAnalysisTimeoutMs :: int where "DefaultAnalysisTimeoutMs = 1800000"

text \<open>\<^verbatim>\<open>time.Duration(ms) * time.Millisecond\<close>, in nanoseconds at the width of \<open>int64\<close>.\<close>

definition millis :: "int \<Rightarrow> int" where
  "millis ms = wrap64 (ms * 1000000)"

definition getDrainTimeout :: "raw_config \<Rightarrow> int" where
  "getDrainTimeout config =
     (case parseRunConfig config of
        None \<Rightarrow> millis DefaultDrainTimeoutMs
      | Some parsed \<Rightarrow>
          if po_DrainTimeoutMs (sf_StopPolicy (cf_Safety parsed)) \<le> 0 then millis DefaultDrainTimeoutMs
          else millis (po_DrainTimeoutMs (sf_StopPolicy (cf_Safety parsed))))"

definition getAnalysisTimeout :: "raw_config \<Rightarrow> int" where
  "getAnalysisTimeout config =
     (case parseRunConfig config of
        None \<Rightarrow> millis DefaultAnalysisTimeoutMs
      | Some parsed \<Rightarrow>
          if sf_AnalysisTimeoutMs (cf_Safety parsed) \<le> 0 then millis DefaultAnalysisTimeoutMs
          else millis (sf_AnalysisTimeoutMs (cf_Safety parsed)))"

section \<open>Facts\<close>

lemma expand_named:
  assumes "tools = Some t" and "tc_Templates t \<noteq> []" and "\<forall>tmpl \<in> set (tc_Templates t). tt_ToolName tmpl \<noteq> []"
    and "op \<in> set (expandToolsTemplates mix tools)" and "om_Operation op = ''tools/call''"
  shows "om_ToolName op \<noteq> []"
  using assms by (auto simp: expandToolsTemplates_def split: if_splits)

lemma expand_operations: "op \<in> set (expandToolsTemplates mix tools) \<Longrightarrow>
    om_Operation op = ''tools/call'' \<or> op \<in> set mix"
  by (auto simp: expandToolsTemplates_def split: option.splits if_splits)

definition underscore_names :: "string set" where
  "underscore_names = {''tools_list'', ''tools_call'', ''resources_list'', ''resources_read'', ''prompts_list'', ''prompts_get''}"

lemma normalize_no_underscore: "normalizeOperationName op \<notin> underscore_names"
  by (simp add: normalizeOperationName_def underscore_names_def)

lemma get_fold_put: "map_get (fold (\<lambda>(k, v). map_put k v) ps m) k =
    (case map_of (rev ps) k of None \<Rightarrow> map_get m k | Some v \<Rightarrow> Some v)"
  by (induction ps arbitrary: m) (auto simp: map_add_def split: option.splits)

lemma map_of_rev: "keys_distinct ps \<Longrightarrow> map_of (rev ps) = map_of ps"
  by (simp add: keys_distinct_def map_of_inject_set rev_map [symmetric] distinct_rev)

lemma millis_exact: "0 \<le> ms \<Longrightarrow> ms \<le> 9223372036854 \<Longrightarrow> millis ms = ms * 1000000"
  unfolding millis_def by (intro wrap64_id) (simp add: is_int64_def)

section \<open>Properties\<close>


definition sample_doc :: json where
  "sample_doc = JObj
     [(''scenario_id'', JStr ''demo''),
      (''target'', JObj [(''url'', JStr ''http://t''), (''transport'', JStr ''streamable_http''),
         (''identification'', JObj [(''run_id_header'', JObj [(''name'', JStr ''X-Id''), (''value_template'', JStr ''${run_id}'')])])]),
      (''stages'', JArr
        [JObj [(''stage_id'', JStr ''p''), (''stage'', JStr ''preflight''), (''enabled'', JBool True),
           (''duration_ms'', JInt 1000), (''load'', JObj [(''target_vus'', JInt 2)])],
         JObj [(''stage_id'', JStr ''b''), (''stage'', JStr ''baseline''), (''enabled'', JBool True),
           (''duration_ms'', JInt 1000), (''load'', JObj [(''target_vus'', JInt 4)])],
         JObj [(''stage_id'', JStr ''q''), (''stage'', JStr ''ramp''), (''enabled'', JBool True),
           (''duration_ms'', JInt 5000), (''load'', JObj [(''target_vus'', JInt 10), (''start_vus'', JInt 1), (''ramp_steps'', JInt 5)])]]),
      (''workload'', JObj [(''op_mix'', JArr [JObj [(''operation'', JStr ''tools_call''), (''weight'', JInt 1)]]),
         (''tools'', JObj [(''templates'', JArr [JObj [(''tool_name'', JStr ''echo''), (''weight'', JInt 3)]])])]),
      (''safety'', JObj [(''worker_failure_policy'', JStr ''replace_if_possible''),
         (''stop_policy'', JObj [(''drain_timeout_ms'', JInt 200)])])]"

definition sample_config :: raw_config where
  "sample_config = Config ''{...}'' (Some sample_doc)"

definition sample_stage :: "string \<Rightarrow> string \<Rightarrow> int \<Rightarrow> parsedLoad \<Rightarrow> parsedStage" where
  "sample_stage sid name dur load = zero_stage\<lparr>st_StageID := sid, st_Stage := name, st_Enabled := True,
     st_DurationMs := dur, st_Load := load\<rparr>"

definition sample_parsed :: parsedRunConfig where
  "sample_parsed = zero_config\<lparr>
     cf_Target := zero_target\<lparr>tg_URL := ''http://t'', tg_Transport := ''streamable_http'',
       tg_Identification := Some \<lparr>id_RunIDHeader = Some \<lparr>rh_Name = ''X-Id'', rh_ValueTemplate = ''${run_id}''\<rparr>, id_UserAgent = None\<rparr>\<rparr>,
     cf_Stages := [sample_stage ''p'' ''preflight'' 1000 (zero_load\<lparr>ld_TargetVUs := 2\<rparr>),
       sample_stage ''b'' ''baseline'' 1000 (zero_load\<lparr>ld_TargetVUs := 4\<rparr>),
       sample_stage ''q'' ''ramp'' 5000 \<lparr>ld_TargetVUs = 10, ld_StartVUs = 1, ld_RampSteps = 5, ld_StepHoldMs = 0\<rparr>],
     cf_Workload := \<lparr>wl_OpMix = [zero_op\<lparr>om_Operation := ''tools/call'', om_Weight := 3, om_ToolName := ''echo''\<rparr>],
       wl_OperationMix = [], wl_Tools = Some \<lparr>tc_Selection = \<lparr>sel_Mode = []\<rparr>,
         tc_Templates = [zero_template\<lparr>tt_ToolName := ''echo'', tt_Weight := 3\<rparr>]\<rparr>\<rparr>,
     cf_Safety := \<lparr>sf_HardCaps = \<lparr>hc_MaxVUs = 0, hc_MaxDurationMs = 0, hc_MaxErrors = 0\<rparr>,
        sf_StopPolicy = \<lparr>po_Mode = [], po_DrainTimeoutMs = 200\<rparr>, sf_AnalysisTimeoutMs = 0\<rparr>\<rparr>"

lemmas decoder_defs = config_decoder_def target_decoder_def redirectPolicy_decoder_def auth_decoder_def
  identification_decoder_def load_decoder_def stopCondition_decoder_def stage_decoder_def template_decoder_def
  tools_decoder_def op_decoder_def workload_decoder_def sessionPolicy_decoder_def safety_decoder_def
  field_of_def fld_def

lemmas zero_defs = zero_config_def zero_target_def zero_load_def zero_condition_def zero_stage_def
  zero_op_def zero_template_def

lemma parse_sample: "parseRunConfig sample_config = Some sample_parsed"
  by (simp add: parseRunConfig_def Unmarshal_def sample_config_def sample_doc_def sample_parsed_def
      sample_stage_def decoder_defs zero_defs is_int64_def dec_any_def fold_equal_def lower_def
      normalizeOperationName_def expandToolsTemplates_def Let_def)


text \<open>The drain timeout of a run is positive and is the configured one, in nanoseconds, for every
  configured value that fits: a missing or non-positive value, or a configuration that does not parse,
  gives the default of thirty seconds. The bound is the largest number of milliseconds whose
  nanoseconds fit in 64 bits.\<close>

theorem drain_timeout_bounds:
  assumes "\<forall>p. parseRunConfig c = Some p \<longrightarrow> po_DrainTimeoutMs (sf_StopPolicy (cf_Safety p)) \<le> 9223372036854"
  shows "0 < getDrainTimeout c \<and> getDrainTimeout c =
    (case parseRunConfig c of
       None \<Rightarrow> 30000000000
     | Some p \<Rightarrow> (let ms = po_DrainTimeoutMs (sf_StopPolicy (cf_Safety p)) in if ms \<le> 0 then 30000000000 else ms * 1000000))"
  using assms
  by (auto simp: getDrainTimeout_def DefaultDrainTimeoutMs_def millis_exact Let_def split: option.split)

theorem drain_timeout_bounds_witness:
  "getDrainTimeout sample_config = 200000000 \<and> 0 < getDrainTimeout sample_config"
proof -
  have "\<forall>p. parseRunConfig sample_config = Some p \<longrightarrow> po_DrainTimeoutMs (sf_StopPolicy (cf_Safety p)) \<le> 9223372036854"
    by (simp add: parse_sample sample_parsed_def)
  from drain_timeout_bounds [OF this] show ?thesis by (simp add: parse_sample sample_parsed_def)
qed

text \<open>Every request of a run carries its identification: the configured headers, except that the
  run-id header (under its configured name, or the default one) and the user agent, where configured,
  have the value of their template with the run id filled in; the user agent wins when both have the
  same name.\<close>

theorem target_headers:
  assumes "keys_distinct (tg_Headers t)"
  shows "map_get (buildTargetHeaders rid t) k =
    (let ua = Option.bind (tg_Identification t) id_UserAgent; rh = Option.bind (tg_Identification t) id_RunIDHeader
     in if ua \<noteq> None \<and> k = ''User-Agent'' then Some (ReplaceAll (ua_Value (the ua)) ''${run_id}'' rid)
        else if rh \<noteq> None \<and> k = (if rh_Name (the rh) = [] then ''X-Test-Run-Id'' else rh_Name (the rh))
        then Some (ReplaceAll (rh_ValueTemplate (the rh)) ''${run_id}'' rid)
        else map_get (tg_Headers t) k)"
  using assms
  by (auto simp: buildTargetHeaders_def Let_def get_fold_put map_of_rev split: option.splits)

theorem target_headers_witness:
  "keys_distinct (tg_Headers (cf_Target sample_parsed))
   \<and> map_get (buildTargetHeaders ''run_1'' (cf_Target sample_parsed)) ''X-Id'' = Some ''run_1''"
proof -
  have "keys_distinct (tg_Headers (cf_Target sample_parsed))" by (simp add: sample_parsed_def zero_target_def)
  from target_headers [OF this, of "''run_1''" "''X-Id''"] this show ?thesis
    by (simp add: sample_parsed_def Let_def ReplaceAll.simps)
qed

end
