(* ===== verification/Sched_Registry.thy ===== *)
theory Sched_Registry
  imports Complex_Main Go_Prelude
begin

text \<open>
  The worker registry of the control plane (\<^verbatim>\<open>internal/controlplane/scheduler/registry.go\<close>, with the
  data of \<^verbatim>\<open>types.go\<close> and \<^verbatim>\<open>internal/types/worker.go\<close>): registration, heartbeats with the
  saturation hysteresis, lookup, removal, close. A \<open>float64\<close> is a real number here: the code only
  compares the CPU load with two constants. Every operation takes the clock readings it makes.
\<close>

section \<open>Data\<close>

type_synonym WorkerID = string

record HostInfo =
  Hostname :: string
  IPAddr :: string
  Platform :: string

record WorkerCapacity =
  MaxVUs :: int
  MaxConcurrentOps :: int
  MaxRPS :: real

record WorkerHealth =
  CPUPercent :: real
  MemBytes :: int
  ActiveVUs :: int
  ActiveSessions :: int
  InFlightOps :: int
  QueueDepth :: int

record WorkerInfo =
  wi_WorkerID :: WorkerID
  wi_HostInfo :: HostInfo
  wi_Capacity :: WorkerCapacity
  wi_EffectiveCapacity :: WorkerCapacity
  wi_Saturated :: bool
  wi_RegisteredAt :: int
  wi_LastHeartbeat :: int
  wi_Health :: "WorkerHealth option"

datatype registry_error = ErrWorkerNotFound | ErrRegistryClosed

record registry =
  workers :: "(WorkerID, WorkerInfo) gomap"
  reg_counter :: nat
  reg_closed :: bool

section \<open>Operations\<close>

definition NewRegistry :: registry where
  "NewRegistry = \<lparr>workers = [], reg_counter = 0, reg_closed = False\<rparr>"

definition zero_capacity :: WorkerCapacity where
  "zero_capacity = \<lparr>MaxVUs = 0, MaxConcurrentOps = 0, MaxRPS = 0\<rparr>"

text \<open>\<open>ts\<close> is the clock reading of \<^verbatim>\<open>generateWorkerID\<close>.\<close>

definition generateWorkerID :: "nat \<Rightarrow> registry \<Rightarrow> WorkerID \<times> registry" where
  "generateWorkerID ts r =
     (let c = reg_counter r + 1 in (stamp_id ''wkr_'' ts c, r\<lparr>reg_counter := c\<rparr>))"

definition RegisterWorker ::
  "nat \<Rightarrow> int \<Rightarrow> HostInfo \<Rightarrow> WorkerCapacity \<Rightarrow> registry \<Rightarrow> (registry_error + WorkerID) \<times> registry" where
  "RegisterWorker ts nowMs hostInfo capacity r =
     (if reg_closed r then (Inl ErrRegistryClosed, r)
      else
        let (workerID, r1) = generateWorkerID ts r;
            worker = \<lparr>wi_WorkerID = workerID, wi_HostInfo = hostInfo, wi_Capacity = capacity,
                      wi_EffectiveCapacity = capacity, wi_Saturated = False,
                      wi_RegisteredAt = nowMs, wi_LastHeartbeat = nowMs, wi_Health = None\<rparr>
        in (Inr workerID, r1\<lparr>workers := map_put workerID worker (workers r1)\<rparr>))"

definition saturateThreshold :: real where "saturateThreshold = 90"
definition unsaturateThreshold :: real where "unsaturateThreshold = 80"

definition updateEffectiveCapacity :: "WorkerInfo \<Rightarrow> WorkerInfo" where
  "updateEffectiveCapacity w =
     (case wi_Health w of
        None \<Rightarrow> w\<lparr>wi_Saturated := False, wi_EffectiveCapacity := wi_Capacity w\<rparr>
      | Some h \<Rightarrow>
          if wi_Saturated w then
            if CPUPercent h < unsaturateThreshold \<and> ActiveVUs h < MaxVUs (wi_Capacity w)
            then w\<lparr>wi_Saturated := False, wi_EffectiveCapacity := wi_Capacity w\<rparr>
            else w\<lparr>wi_EffectiveCapacity := zero_capacity\<rparr>
          else
            if CPUPercent h > saturateThreshold \<or> ActiveVUs h \<ge> MaxVUs (wi_Capacity w)
            then w\<lparr>wi_Saturated := True, wi_EffectiveCapacity := zero_capacity\<rparr>
            else w\<lparr>wi_EffectiveCapacity := wi_Capacity w\<rparr>)"

definition Heartbeat ::
  "int \<Rightarrow> WorkerID \<Rightarrow> WorkerHealth option \<Rightarrow> registry \<Rightarrow> registry_error option \<times> registry" where
  "Heartbeat nowMs workerID health r =
     (if reg_closed r then (Some ErrRegistryClosed, r)
      else case map_get (workers r) workerID of
        None \<Rightarrow> (Some ErrWorkerNotFound, r)
      | Some _ \<Rightarrow>
          (None, r\<lparr>workers := map_upd workerID
             (\<lambda>w. let w1 = w\<lparr>wi_LastHeartbeat := nowMs\<rparr>;
                      w2 = (case health of None \<Rightarrow> w1 | Some h \<Rightarrow> w1\<lparr>wi_Health := Some h\<rparr>)
                  in updateEffectiveCapacity w2) (workers r)\<rparr>))"

definition GetWorker :: "WorkerID \<Rightarrow> registry \<Rightarrow> registry_error + WorkerInfo" where
  "GetWorker workerID r =
     (if reg_closed r then Inl ErrRegistryClosed
      else case map_get (workers r) workerID of None \<Rightarrow> Inl ErrWorkerNotFound | Some w \<Rightarrow> Inr w)"

definition ListWorkers :: "registry \<Rightarrow> WorkerInfo list" where
  "ListWorkers r = map snd (workers r)"

definition RemoveWorker :: "WorkerID \<Rightarrow> registry \<Rightarrow> registry_error option \<times> registry" where
  "RemoveWorker workerID r =
     (if reg_closed r then (Some ErrRegistryClosed, r)
      else case map_get (workers r) workerID of
        None \<Rightarrow> (Some ErrWorkerNotFound, r)
      | Some _ \<Rightarrow> (None, r\<lparr>workers := map_del workerID (workers r)\<rparr>))"

definition WorkerCount :: "registry \<Rightarrow> nat" where
  "WorkerCount r = length (workers r)"

definition CloseRegistry :: "registry \<Rightarrow> registry" where
  "CloseRegistry r = (if reg_closed r then r else r\<lparr>reg_closed := True, workers := []\<rparr>)"

lemmas registry_defs = RegisterWorker_def generateWorkerID_def Heartbeat_def GetWorker_def
  RemoveWorker_def CloseRegistry_def Let_def

section \<open>The invariant\<close>

text \<open>
  Keys are distinct and name their worker, identifiers come from counters already used, and the
  effective capacity is the full one exactly while the worker is not saturated.
\<close>

definition capacity_ok :: "WorkerInfo \<Rightarrow> bool" where
  "capacity_ok w \<longleftrightarrow>
     wi_EffectiveCapacity w = (if wi_Saturated w then zero_capacity else wi_Capacity w)"

definition entry_ok :: "nat \<Rightarrow> WorkerID \<Rightarrow> WorkerInfo \<Rightarrow> bool" where
  "entry_ok n k w \<longleftrightarrow> wi_WorkerID w = k \<and> capacity_ok w
     \<and> (\<exists>ts c. clock_ms ts \<and> c \<le> n \<and> k = stamp_id ''wkr_'' ts c)"

definition registry_inv :: "registry \<Rightarrow> bool" where
  "registry_inv r \<longleftrightarrow> keys_distinct (workers r)
     \<and> (\<forall>k w. map_get (workers r) k = Some w \<longrightarrow> entry_ok (reg_counter r) k w)"

inductive registry_step :: "registry \<Rightarrow> registry \<Rightarrow> bool" where
  register: "clock_ms ts \<Longrightarrow> registry_step r (snd (RegisterWorker ts now h c r))"
| heartbeat: "registry_step r (snd (Heartbeat now wid health r))"
| remove: "registry_step r (snd (RemoveWorker wid r))"
| close: "registry_step r (CloseRegistry r)"

lemma updateEffectiveCapacity_fields [simp]:
  "wi_WorkerID (updateEffectiveCapacity w) = wi_WorkerID w"
  "wi_Capacity (updateEffectiveCapacity w) = wi_Capacity w"
  "wi_Health (updateEffectiveCapacity w) = wi_Health w"
  "wi_LastHeartbeat (updateEffectiveCapacity w) = wi_LastHeartbeat w"
  by (auto simp: updateEffectiveCapacity_def split: option.splits)

lemma updateEffectiveCapacity_ok: "capacity_ok (updateEffectiveCapacity w)"
  by (auto simp: updateEffectiveCapacity_def capacity_ok_def split: option.splits)

lemma registry_inv_new: "registry_inv NewRegistry"
  by (simp add: registry_inv_def NewRegistry_def)

lemma entry_ok_Suc: "entry_ok n k w \<Longrightarrow> entry_ok (Suc n) k w"
  by (auto simp: entry_ok_def intro: le_SucI)

lemma entry_ok_fresh: "entry_ok n k w \<Longrightarrow> clock_ms ts \<Longrightarrow> k \<noteq> stamp_id ''wkr_'' ts (Suc n)"
  by (metis entry_ok_def stamp_id_fresh)

lemma registry_inv_register: "registry_inv r \<Longrightarrow> clock_ms ts \<Longrightarrow> registry_inv (snd (RegisterWorker ts now h c r))"
  by (auto simp: registry_inv_def registry_defs keys_distinct_put intro: entry_ok_Suc)
    (auto simp: entry_ok_def capacity_ok_def)

lemma registry_inv_heartbeat: "registry_inv r \<Longrightarrow> registry_inv (snd (Heartbeat now wid health r))"
  by (auto simp: registry_inv_def registry_defs entry_ok_def updateEffectiveCapacity_ok split: option.splits)

lemma registry_inv_remove: "registry_inv r \<Longrightarrow> registry_inv (snd (RemoveWorker wid r))"
  by (auto simp: registry_inv_def registry_defs keys_distinct_del split: option.splits)

lemma registry_inv_close: "registry_inv r \<Longrightarrow> registry_inv (CloseRegistry r)"
  by (auto simp: registry_inv_def registry_defs)

lemma registry_step_inv: "registry_inv r \<Longrightarrow> registry_step r r' \<Longrightarrow> registry_inv r'"
  by (erule registry_step.cases)
    (auto intro: registry_inv_register registry_inv_heartbeat registry_inv_remove registry_inv_close)

interpretation reg: kept_by_steps registry_step registry_inv
  by unfold_locales (rule registry_step_inv)

section \<open>What the clients rely on\<close>

lemma registry_inv_id: "registry_inv r \<Longrightarrow> (k, w) \<in> set (workers r) \<Longrightarrow> wi_WorkerID w = k"
  by (simp add: registry_inv_def entry_ok_def get_iff_mem)

lemma ListWorkers_ids: "registry_inv r \<Longrightarrow> map wi_WorkerID (ListWorkers r) = map fst (workers r)"
  by (auto simp: ListWorkers_def dest: registry_inv_id)

lemma ListWorkers_distinct: "registry_inv r \<Longrightarrow> distinct (map wi_WorkerID (ListWorkers r))"
  by (simp add: ListWorkers_ids) (simp add: registry_inv_def keys_distinct_def)

lemma mem_ListWorkers:
  assumes "registry_inv r"
  shows "w \<in> set (ListWorkers r) \<longleftrightarrow> map_get (workers r) (wi_WorkerID w) = Some w"
proof -
  from assms have "keys_distinct (workers r)" by (simp add: registry_inv_def)
  with assms show ?thesis by (force simp: ListWorkers_def get_iff_mem dest: registry_inv_id)
qed

lemma GetWorker_ListWorkers: "registry_inv r \<Longrightarrow> \<not> reg_closed r \<Longrightarrow> w \<in> set (ListWorkers r)
    \<Longrightarrow> GetWorker (wi_WorkerID w) r = Inr w"
  by (simp add: GetWorker_def mem_ListWorkers)

lemma register_fresh: "registry_inv r \<Longrightarrow> clock_ms ts \<Longrightarrow> fst (RegisterWorker ts now h c r) = Inr wid
    \<Longrightarrow> map_get (workers r) wid = None"
  by (cases "map_get (workers r) wid")
    (auto simp: registry_inv_def registry_defs dest: entry_ok_fresh split: if_splits)

section \<open>Saturation\<close>

text \<open>A sequence of heartbeats of one worker, with their health samples.\<close>

definition heartbeats :: "(int \<times> WorkerHealth) list \<Rightarrow> WorkerID \<Rightarrow> registry \<Rightarrow> registry" where
  "heartbeats hs workerID = fold (\<lambda>(now, h) r. snd (Heartbeat now workerID (Some h) r)) hs"

text \<open>A sample that neither saturates a worker nor releases a saturated one.\<close>

definition in_band :: "WorkerInfo \<Rightarrow> WorkerHealth \<Rightarrow> bool" where
  "in_band w h \<longleftrightarrow> unsaturateThreshold \<le> CPUPercent h \<and> CPUPercent h \<le> saturateThreshold
     \<and> ActiveVUs h < MaxVUs (wi_Capacity w)"

definition same_saturation :: "WorkerInfo \<Rightarrow> WorkerInfo \<Rightarrow> bool" where
  "same_saturation w w' \<longleftrightarrow> wi_WorkerID w' = wi_WorkerID w \<and> wi_Capacity w' = wi_Capacity w
     \<and> wi_Saturated w' = wi_Saturated w"

lemma heartbeat_in_band:
  assumes "\<not> reg_closed r" and "map_get (workers r) wid = Some w" and "in_band w h"
  shows "\<exists>w'. map_get (workers (snd (Heartbeat now wid (Some h) r))) wid = Some w' \<and> same_saturation w w'
     \<and> reg_closed (snd (Heartbeat now wid (Some h) r)) = reg_closed r"
  using assms by (simp add: Heartbeat_def Let_def)
    (auto simp: same_saturation_def updateEffectiveCapacity_def in_band_def not_less not_le)

lemma heartbeats_in_band:
  assumes "\<not> reg_closed r" and "map_get (workers r) wid = Some w" and "\<forall>(now, h) \<in> set hs. in_band w h"
  shows "\<exists>w'. map_get (workers (heartbeats hs wid r)) wid = Some w' \<and> same_saturation w w'"
  using assms
proof (induction hs arbitrary: r w)
  case Nil
  then show ?case by (simp add: heartbeats_def same_saturation_def)
next
  case (Cons x hs)
  obtain now h where x: "x = (now, h)" by (cases x)
  with Cons.prems heartbeat_in_band [of r wid w h now] obtain w' where
    w': "map_get (workers (snd (Heartbeat now wid (Some h) r))) wid = Some w'" "same_saturation w w'"
      "\<not> reg_closed (snd (Heartbeat now wid (Some h) r))" by auto
  from Cons.prems(3) x w'(2) have "\<forall>(now, h) \<in> set hs. in_band w' h"
    by (auto simp: in_band_def same_saturation_def)
  from Cons.IH [OF w'(3,1) this] w'(2) x show ?case by (auto simp: heartbeats_def same_saturation_def)
qed

lemma heartbeats_steps: "registry_step\<^sup>*\<^sup>* r (heartbeats hs wid r)"
proof (induction hs arbitrary: r)
  case (Cons x hs)
  obtain now h where x: "x = (now, h)" by (cases x)
  have "registry_step r (snd (Heartbeat now wid (Some h) r))" by (rule registry_step.heartbeat)
  with Cons.IH show ?case by (auto simp: heartbeats_def x intro: converse_rtranclp_into_rtranclp)
qed (simp add: heartbeats_def)

section \<open>Properties\<close>

text \<open>C5: in every reachable registry the keys name their workers and a worker offers its full
  capacity exactly while it is not saturated, and none at all while it is.\<close>

theorem registry_capacity:
  assumes "registry_step\<^sup>*\<^sup>* NewRegistry r" and "map_get (workers r) wid = Some w"
  shows "wi_WorkerID w = wid \<and> wi_EffectiveCapacity w = (if wi_Saturated w then zero_capacity else wi_Capacity w)"
  using reg.run_keeps [OF assms(1) registry_inv_new] assms(2)
  by (simp add: registry_inv_def entry_ok_def capacity_ok_def)

theorem registry_capacity_witness:
  "let host = \<lparr>Hostname = ''h'', IPAddr = [], Platform = []\<rparr>;
       cap = \<lparr>MaxVUs = 10, MaxConcurrentOps = 5, MaxRPS = 100\<rparr>;
       r = snd (RegisterWorker (16 ^ 10) 7 host cap NewRegistry)
   in \<exists>wid w. map_get (workers r) wid = Some w \<and> wi_EffectiveCapacity w = cap"
proof -
  let ?cap = "\<lparr>MaxVUs = 10, MaxConcurrentOps = 5, MaxRPS = 100\<rparr>"
  let ?r = "snd (RegisterWorker (16 ^ 10) 7 \<lparr>Hostname = ''h'', IPAddr = [], Platform = []\<rparr> ?cap NewRegistry)"
  let ?wid = "stamp_id ''wkr_'' (16 ^ 10) 1"
  have s: "registry_step\<^sup>*\<^sup>* NewRegistry ?r"
    by (intro r_into_rtranclp registry_step.register) (simp add: clock_ms_def)
  have g: "\<exists>w. map_get (workers ?r) ?wid = Some w \<and> wi_Saturated w = False \<and> wi_Capacity w = ?cap"
    by (simp add: registry_defs NewRegistry_def)
  then show ?thesis using registry_capacity [OF s, of ?wid] by (auto simp: Let_def intro!: exI [of _ ?wid])
qed

text \<open>Hysteresis. Heartbeats whose load stays between the two thresholds, and whose active virtual
  users stay below the maximum, never change whether a worker is saturated, so the capacity it offers
  does not flap.\<close>

theorem saturation_hysteresis:
  assumes "registry_step\<^sup>*\<^sup>* NewRegistry r" and "\<not> reg_closed r" and "map_get (workers r) wid = Some w"
    and "\<forall>(now, h) \<in> set hs. in_band w h"
  shows "\<exists>w'. map_get (workers (heartbeats hs wid r)) wid = Some w' \<and> wi_Saturated w' = wi_Saturated w
     \<and> wi_EffectiveCapacity w' = wi_EffectiveCapacity w"
proof -
  have inv: "registry_inv r" by (rule reg.run_keeps [OF assms(1) registry_inv_new])
  from heartbeats_in_band [OF assms(2-4)] obtain w' where
    w': "map_get (workers (heartbeats hs wid r)) wid = Some w'" "same_saturation w w'" by blast
  have "registry_inv (heartbeats hs wid r)" by (rule reg.run_keeps [OF heartbeats_steps inv])
  with w' inv assms(3) have "capacity_ok w" "capacity_ok w'" by (auto simp: registry_inv_def entry_ok_def)
  with w' show ?thesis by (auto simp: capacity_ok_def same_saturation_def)
qed

theorem saturation_hysteresis_witness:
  "let host = \<lparr>Hostname = ''h'', IPAddr = [], Platform = []\<rparr>;
       cap = \<lparr>MaxVUs = 10, MaxConcurrentOps = 5, MaxRPS = 100\<rparr>;
       r = snd (RegisterWorker (16 ^ 10) 7 host cap NewRegistry);
       h = \<lparr>CPUPercent = 85, MemBytes = 0, ActiveVUs = 3, ActiveSessions = 0, InFlightOps = 0, QueueDepth = 0\<rparr>;
       wid = stamp_id ''wkr_'' (16 ^ 10) 1
   in \<exists>w'. map_get (workers (heartbeats [(8, h), (9, h)] wid r)) wid = Some w' \<and> wi_EffectiveCapacity w' = cap"
proof -
  let ?cap = "\<lparr>MaxVUs = 10, MaxConcurrentOps = 5, MaxRPS = 100\<rparr>"
  let ?r = "snd (RegisterWorker (16 ^ 10) 7 \<lparr>Hostname = ''h'', IPAddr = [], Platform = []\<rparr> ?cap NewRegistry)"
  let ?h = "\<lparr>CPUPercent = 85, MemBytes = 0, ActiveVUs = 3, ActiveSessions = 0, InFlightOps = 0, QueueDepth = 0\<rparr>"
  let ?wid = "stamp_id ''wkr_'' (16 ^ 10) 1"
  have s: "registry_step\<^sup>*\<^sup>* NewRegistry ?r"
    by (intro r_into_rtranclp registry_step.register) (simp add: clock_ms_def)
  have o: "\<not> reg_closed ?r" by (simp add: registry_defs NewRegistry_def)
  have "\<exists>w. map_get (workers ?r) ?wid = Some w \<and> wi_EffectiveCapacity w = ?cap \<and> wi_Capacity w = ?cap"
    by (simp add: registry_defs NewRegistry_def)
  then obtain w where w: "map_get (workers ?r) ?wid = Some w" "wi_EffectiveCapacity w = ?cap" "wi_Capacity w = ?cap" by blast
  have "\<forall>(now, h) \<in> set [(8, ?h), (9, ?h)]. in_band w h"
    by (simp add: in_band_def w(3) saturateThreshold_def unsaturateThreshold_def)
  from saturation_hysteresis [OF s o w(1) this] w(2) show ?thesis by (auto simp: Let_def)
qed

end
