(* ===== verification/Sched_Leases.thy ===== *)
theory Sched_Leases
  imports Sched_Registry
begin

text \<open>
  The lease manager (\<^verbatim>\<open>internal/controlplane/scheduler/lease_manager.go\<close>, data in \<^verbatim>\<open>types.go\<close>).
  A lease gives one worker the half-open range of virtual-user ids of one stage of one run. Every
  operation first reads the closed flag and then takes the lock, so the flag may be set in between:
  the body under the lock is a definition of its own (\<open>\<dots>_locked\<close>), and the step relation runs the
  bodies in any state, closed or not.
\<close>

section \<open>Data\<close>

type_synonym LeaseID = string

datatype LeaseState = LeaseStateActive | LeaseStateRevoked | LeaseStateExpired

record VUIDRange =
  Start :: int
  End :: int

definition Overlaps :: "VUIDRange \<Rightarrow> VUIDRange \<Rightarrow> bool" where
  "Overlaps r other =
     (if Start r \<ge> End r \<or> Start other \<ge> End other then False
      else Start r < End other \<and> Start other < End r)"

record Assignment =
  as_RunID :: string
  as_StageID :: string
  as_VUIDRange :: VUIDRange

record Lease =
  l_LeaseID :: LeaseID
  l_WorkerID :: WorkerID
  l_Assignment :: Assignment
  l_State :: LeaseState
  l_IssuedAt :: int
  l_ExpiresAt :: int
  l_RevokedAt :: "int option"

datatype lease_error = ErrLeaseNotFound | ErrLeaseRevoked | ErrLeaseExpired
  | ErrVUIDRangeOverlap | ErrLeaseManagerClosed

record lease_manager =
  leases :: "(LeaseID, Lease) gomap"
  lm_counter :: nat
  lm_ttlMs :: int
  lm_closed :: bool

section \<open>Operations\<close>

definition DefaultLeaseTTLMs :: int where "DefaultLeaseTTLMs = 60000"

definition NewLeaseManager :: "int \<Rightarrow> lease_manager" where
  "NewLeaseManager ttlMs =
     \<lparr>leases = [], lm_counter = 0,
      lm_ttlMs = (if ttlMs \<le> 0 then DefaultLeaseTTLMs else ttlMs), lm_closed = False\<rparr>"

definition generateLeaseID :: "nat \<Rightarrow> lease_manager \<Rightarrow> LeaseID \<times> lease_manager" where
  "generateLeaseID ts lm =
     (let c = lm_counter lm + 1 in (stamp_id ''lse_'' ts c, lm\<lparr>lm_counter := c\<rparr>))"

text \<open>The test of one iteration of the loop of \<^verbatim>\<open>IssueLease\<close>, and the loop.\<close>

definition conflicts :: "Assignment \<Rightarrow> Lease \<Rightarrow> bool" where
  "conflicts a l \<longleftrightarrow>
     (if l_State l \<noteq> LeaseStateActive then False
      else if as_RunID (l_Assignment l) \<noteq> as_RunID a then False
      else if as_StageID (l_Assignment l) \<noteq> as_StageID a then False
      else Overlaps (as_VUIDRange (l_Assignment l)) (as_VUIDRange a))"

definition IssueLease_locked ::
  "nat \<Rightarrow> int \<Rightarrow> WorkerID \<Rightarrow> Assignment \<Rightarrow> lease_manager \<Rightarrow> (lease_error + LeaseID) \<times> lease_manager" where
  "IssueLease_locked ts nowMs workerID assignment lm =
     (if \<exists>l \<in> set (map snd (leases lm)). conflicts assignment l then (Inl ErrVUIDRangeOverlap, lm)
      else
        let (leaseID, lm1) = generateLeaseID ts lm;
            lease = \<lparr>l_LeaseID = leaseID, l_WorkerID = workerID, l_Assignment = assignment,
                     l_State = LeaseStateActive, l_IssuedAt = nowMs,
                     l_ExpiresAt = nowMs + lm_ttlMs lm1, l_RevokedAt = None\<rparr>
        in (Inr leaseID, lm1\<lparr>leases := map_put leaseID lease (leases lm1)\<rparr>))"

definition IssueLease ::
  "nat \<Rightarrow> int \<Rightarrow> WorkerID \<Rightarrow> Assignment \<Rightarrow> lease_manager \<Rightarrow> (lease_error + LeaseID) \<times> lease_manager" where
  "IssueLease ts nowMs workerID assignment lm =
     (if lm_closed lm then (Inl ErrLeaseManagerClosed, lm)
      else IssueLease_locked ts nowMs workerID assignment lm)"

definition RenewLease_locked :: "int \<Rightarrow> LeaseID \<Rightarrow> lease_manager \<Rightarrow> lease_error option \<times> lease_manager" where
  "RenewLease_locked nowMs leaseID lm =
     (case map_get (leases lm) leaseID of
        None \<Rightarrow> (Some ErrLeaseNotFound, lm)
      | Some l \<Rightarrow>
          if l_State l = LeaseStateRevoked then (Some ErrLeaseRevoked, lm)
          else if l_State l = LeaseStateExpired then (Some ErrLeaseExpired, lm)
          else (None, lm\<lparr>leases := map_upd leaseID (l_ExpiresAt_update (\<lambda>_. nowMs + lm_ttlMs lm)) (leases lm)\<rparr>))"

definition RenewLease :: "int \<Rightarrow> LeaseID \<Rightarrow> lease_manager \<Rightarrow> lease_error option \<times> lease_manager" where
  "RenewLease nowMs leaseID lm =
     (if lm_closed lm then (Some ErrLeaseManagerClosed, lm) else RenewLease_locked nowMs leaseID lm)"

definition revoke_at :: "int \<Rightarrow> Lease \<Rightarrow> Lease" where
  "revoke_at nowMs l = l\<lparr>l_State := LeaseStateRevoked, l_RevokedAt := Some nowMs\<rparr>"

definition RevokeLease_locked :: "int \<Rightarrow> LeaseID \<Rightarrow> lease_manager \<Rightarrow> lease_error option \<times> lease_manager" where
  "RevokeLease_locked nowMs leaseID lm =
     (case map_get (leases lm) leaseID of
        None \<Rightarrow> (Some ErrLeaseNotFound, lm)
      | Some l \<Rightarrow>
          if l_State l = LeaseStateRevoked then (None, lm)
          else (None, lm\<lparr>leases := map_upd leaseID (revoke_at nowMs) (leases lm)\<rparr>))"

definition RevokeLease :: "int \<Rightarrow> LeaseID \<Rightarrow> lease_manager \<Rightarrow> lease_error option \<times> lease_manager" where
  "RevokeLease nowMs leaseID lm =
     (if lm_closed lm then (Some ErrLeaseManagerClosed, lm) else RevokeLease_locked nowMs leaseID lm)"

text \<open>The bulk operations visit every lease and write through the pointers of those they select.\<close>

definition on_leases :: "(Lease \<Rightarrow> bool) \<Rightarrow> (Lease \<Rightarrow> Lease) \<Rightarrow> lease_manager \<Rightarrow> lease_manager" where
  "on_leases sel f lm = lm\<lparr>leases := map_vals (\<lambda>l. if sel l then f l else l) (leases lm)\<rparr>"

definition RevokeWorkerLeases_locked :: "int \<Rightarrow> WorkerID \<Rightarrow> lease_manager \<Rightarrow> lease_manager" where
  "RevokeWorkerLeases_locked nowMs workerID =
     on_leases (\<lambda>l. l_WorkerID l = workerID \<and> l_State l = LeaseStateActive) (revoke_at nowMs)"

definition RevokeWorkerLeases :: "int \<Rightarrow> WorkerID \<Rightarrow> lease_manager \<Rightarrow> lease_error option \<times> lease_manager" where
  "RevokeWorkerLeases nowMs workerID lm =
     (if lm_closed lm then (Some ErrLeaseManagerClosed, lm)
      else (None, RevokeWorkerLeases_locked nowMs workerID lm))"

definition RenewWorkerLeases_locked :: "int \<Rightarrow> WorkerID \<Rightarrow> lease_manager \<Rightarrow> lease_manager" where
  "RenewWorkerLeases_locked nowMs workerID lm =
     on_leases (\<lambda>l. l_WorkerID l = workerID \<and> l_State l = LeaseStateActive)
       (l_ExpiresAt_update (\<lambda>_. nowMs + lm_ttlMs lm)) lm"

definition RenewWorkerLeases :: "int \<Rightarrow> WorkerID \<Rightarrow> lease_manager \<Rightarrow> lease_error option \<times> lease_manager" where
  "RenewWorkerLeases nowMs workerID lm =
     (if lm_closed lm then (Some ErrLeaseManagerClosed, lm)
      else (None, RenewWorkerLeases_locked nowMs workerID lm))"

definition RevokeLeasesByRunAndStage_locked :: "int \<Rightarrow> string \<Rightarrow> string \<Rightarrow> lease_manager \<Rightarrow> lease_manager" where
  "RevokeLeasesByRunAndStage_locked nowMs runID stageID =
     on_leases (\<lambda>l. as_RunID (l_Assignment l) = runID \<and> as_StageID (l_Assignment l) = stageID
                  \<and> l_State l = LeaseStateActive) (revoke_at nowMs)"

definition RevokeLeasesByRunAndStage ::
  "int \<Rightarrow> string \<Rightarrow> string \<Rightarrow> lease_manager \<Rightarrow> lease_error option \<times> lease_manager" where
  "RevokeLeasesByRunAndStage nowMs runID stageID lm =
     (if lm_closed lm then (Some ErrLeaseManagerClosed, lm)
      else (None, RevokeLeasesByRunAndStage_locked nowMs runID stageID lm))"

definition RevokeLeasesByRun_locked :: "int \<Rightarrow> string \<Rightarrow> lease_manager \<Rightarrow> lease_manager" where
  "RevokeLeasesByRun_locked nowMs runID =
     on_leases (\<lambda>l. as_RunID (l_Assignment l) = runID \<and> l_State l = LeaseStateActive) (revoke_at nowMs)"

definition RevokeLeasesByRun :: "int \<Rightarrow> string \<Rightarrow> lease_manager \<Rightarrow> lease_error option \<times> lease_manager" where
  "RevokeLeasesByRun nowMs runID lm =
     (if lm_closed lm then (Some ErrLeaseManagerClosed, lm)
      else (None, RevokeLeasesByRun_locked nowMs runID lm))"

definition stale :: "int \<Rightarrow> Lease \<Rightarrow> bool" where
  "stale nowMs l \<longleftrightarrow> l_State l = LeaseStateActive \<and> nowMs > l_ExpiresAt l"

definition ExpireLeases :: "int \<Rightarrow> lease_manager \<Rightarrow> LeaseID list \<times> lease_manager" where
  "ExpireLeases nowMs lm =
     (map l_LeaseID (filter (stale nowMs) (map snd (leases lm))),
      on_leases (stale nowMs) (l_State_update (\<lambda>_. LeaseStateExpired)) lm)"

definition GetLease :: "LeaseID \<Rightarrow> lease_manager \<Rightarrow> lease_error + Lease" where
  "GetLease leaseID lm =
     (if lm_closed lm then Inl ErrLeaseManagerClosed
      else case map_get (leases lm) leaseID of None \<Rightarrow> Inl ErrLeaseNotFound | Some l \<Rightarrow> Inr l)"

definition ListLeases :: "string \<Rightarrow> lease_manager \<Rightarrow> Lease list" where
  "ListLeases runID lm = filter (\<lambda>l. as_RunID (l_Assignment l) = runID) (map snd (leases lm))"

definition ListWorkerRunIDs :: "WorkerID \<Rightarrow> lease_manager \<Rightarrow> string list" where
  "ListWorkerRunIDs workerID lm =
     remdups (map (as_RunID \<circ> l_Assignment)
       (filter (\<lambda>l. l_WorkerID l = workerID \<and> l_State l = LeaseStateActive) (map snd (leases lm))))"

definition LeaseCount :: "lease_manager \<Rightarrow> nat" where
  "LeaseCount lm = length (leases lm)"

definition ActiveLeaseCount :: "lease_manager \<Rightarrow> nat" where
  "ActiveLeaseCount lm = length (filter (\<lambda>l. l_State l = LeaseStateActive) (map snd (leases lm)))"

definition CloseLeases :: "lease_manager \<Rightarrow> lease_manager" where
  "CloseLeases lm = (if lm_closed lm then lm else lm\<lparr>lm_closed := True, leases := []\<rparr>)"

lemmas bulk_defs = RevokeWorkerLeases_locked_def RenewWorkerLeases_locked_def
  RevokeLeasesByRunAndStage_locked_def RevokeLeasesByRun_locked_def

section \<open>The invariant: no virtual user has two owners\<close>

definition clash :: "Lease \<Rightarrow> Lease \<Rightarrow> bool" where
  "clash l l' \<longleftrightarrow> l_State l = LeaseStateActive \<and> conflicts (l_Assignment l) l'"

definition lease_entry_ok :: "nat \<Rightarrow> LeaseID \<Rightarrow> Lease \<Rightarrow> bool" where
  "lease_entry_ok n k l \<longleftrightarrow>
     l_LeaseID l = k \<and> (\<exists>ts c. clock_ms ts \<and> c \<le> n \<and> k = stamp_id ''lse_'' ts c)"

definition lease_inv :: "lease_manager \<Rightarrow> bool" where
  "lease_inv lm \<longleftrightarrow> keys_distinct (leases lm)
     \<and> (\<forall>k l. map_get (leases lm) k = Some l \<longrightarrow> lease_entry_ok (lm_counter lm) k l)
     \<and> (\<forall>k l k' l'. map_get (leases lm) k = Some l \<longrightarrow> map_get (leases lm) k' = Some l' \<longrightarrow>
           k \<noteq> k' \<longrightarrow> \<not> clash l l')"

inductive lease_step :: "lease_manager \<Rightarrow> lease_manager \<Rightarrow> bool" where
  issue: "clock_ms ts \<Longrightarrow> lease_step lm (snd (IssueLease_locked ts now w a lm))"
| renew: "lease_step lm (snd (RenewLease_locked now k lm))"
| revoke: "lease_step lm (snd (RevokeLease_locked now k lm))"
| revoke_worker: "lease_step lm (RevokeWorkerLeases_locked now w lm)"
| renew_worker: "lease_step lm (RenewWorkerLeases_locked now w lm)"
| revoke_stage: "lease_step lm (RevokeLeasesByRunAndStage_locked now rid sid lm)"
| revoke_run: "lease_step lm (RevokeLeasesByRun_locked now rid lm)"
| expire: "lease_step lm (snd (ExpireLeases now lm))"
| close: "lease_step lm (CloseLeases lm)"

text \<open>Overlapping is symmetric, so a clash is.\<close>

lemma Overlaps_sym: "Overlaps r s = Overlaps s r"
  by (auto simp: Overlaps_def)

lemma Overlaps_iff: "Overlaps r s \<longleftrightarrow> (\<exists>v. Start r \<le> v \<and> v < End r \<and> Start s \<le> v \<and> v < End s)"
proof
  assume "Overlaps r s"
  then show "\<exists>v. Start r \<le> v \<and> v < End r \<and> Start s \<le> v \<and> v < End s"
    by (intro exI [of _ "max (Start r) (Start s)"]) (auto simp: Overlaps_def split: if_splits)
qed (auto simp: Overlaps_def)

lemma clash_sym: "clash l l' = clash l' l"
  using Overlaps_sym by (auto simp: clash_def conflicts_def)

lemma lease_entry_ok_Suc: "lease_entry_ok n k l \<Longrightarrow> lease_entry_ok (Suc n) k l"
  by (auto simp: lease_entry_ok_def intro: le_SucI)

lemma lease_entry_fresh: "lease_entry_ok n k l \<Longrightarrow> clock_ms ts \<Longrightarrow> k \<noteq> stamp_id ''lse_'' ts (Suc n)"
  by (metis lease_entry_ok_def stamp_id_fresh)

lemma lease_inv_new: "lease_inv (NewLeaseManager ttl)"
  by (simp add: lease_inv_def NewLeaseManager_def)

lemma lease_inv_issue:
  assumes inv: "lease_inv lm" and ts: "clock_ms ts"
  shows "lease_inv (snd (IssueLease_locked ts now w a lm))"
proof (cases "\<exists>l \<in> set (map snd (leases lm)). conflicts a l")
  case True
  with inv show ?thesis by (auto simp: IssueLease_locked_def)
next
  case False
  have keys: "keys_distinct (leases lm)" using inv by (simp add: lease_inv_def)
  with False have free: "map_get (leases lm) k = Some l \<Longrightarrow> \<not> conflicts a l" for k l
    by (force simp: get_iff_mem)
  let ?id = "stamp_id ''lse_'' ts (Suc (lm_counter lm))"
  let ?l = "\<lparr>l_LeaseID = ?id, l_WorkerID = w, l_Assignment = a, l_State = LeaseStateActive,
    l_IssuedAt = now, l_ExpiresAt = now + lm_ttlMs lm, l_RevokedAt = None\<rparr>"
  have new: "clash ?l l = conflicts a l" "clash l ?l = conflicts a l" for l
    using clash_sym [of l ?l] by (simp_all add: clash_def)
  have "snd (IssueLease_locked ts now w a lm) =
      lm\<lparr>lm_counter := Suc (lm_counter lm), leases := map_put ?id ?l (leases lm)\<rparr>"
    using False by (simp add: IssueLease_locked_def generateLeaseID_def Let_def)
  moreover have "lease_inv \<dots>"
    using inv keys free ts new
    by (simp add: lease_inv_def keys_distinct_put lease_entry_ok_Suc) (auto simp: lease_entry_ok_def)
  ultimately show ?thesis by simp
qed

text \<open>The other operations rewrite leases one by one, never reactivate one and never move one.\<close>

definition lease_le :: "Lease \<Rightarrow> Lease \<Rightarrow> bool" where
  "lease_le l l' \<longleftrightarrow> l_LeaseID l' = l_LeaseID l \<and> l_WorkerID l' = l_WorkerID l
     \<and> l_Assignment l' = l_Assignment l \<and> l_IssuedAt l' = l_IssuedAt l
     \<and> (l_State l \<noteq> LeaseStateActive \<longrightarrow> l_State l' \<noteq> LeaseStateActive)
     \<and> (l_State l = LeaseStateRevoked \<longrightarrow> l' = l)"

lemma lease_le_refl [simp]: "lease_le l l"
  by (simp add: lease_le_def)

lemma lease_le_trans: "lease_le l l' \<Longrightarrow> lease_le l' l'' \<Longrightarrow> lease_le l l''"
  by (auto simp: lease_le_def)

lemma clash_le: "lease_le l m \<Longrightarrow> lease_le l' m' \<Longrightarrow> clash m m' \<Longrightarrow> clash l l'"
  by (auto simp: clash_def conflicts_def lease_le_def split: if_splits)

definition lower_to :: "lease_manager \<Rightarrow> lease_manager \<Rightarrow> bool" where
  "lower_to lm lm' \<longleftrightarrow> lm_counter lm' = lm_counter lm \<and> map fst (leases lm') = map fst (leases lm)
     \<and> (\<forall>k l'. map_get (leases lm') k = Some l' \<longrightarrow> (\<exists>l. map_get (leases lm) k = Some l \<and> lease_le l l'))"

lemma lower_toD: "lower_to lm lm' \<Longrightarrow> map_get (leases lm') k = Some l' \<Longrightarrow>
    \<exists>l. map_get (leases lm) k = Some l \<and> lease_le l l'"
  by (simp add: lower_to_def)

lemma lease_inv_lower:
  assumes inv: "lease_inv lm" and low: "lower_to lm lm'"
  shows "lease_inv lm'"
  unfolding lease_inv_def
proof (intro conjI allI impI)
  show "keys_distinct (leases lm')" using inv low by (simp add: lease_inv_def lower_to_def keys_distinct_def)
next
  fix k l' assume "map_get (leases lm') k = Some l'"
  with low obtain l where "map_get (leases lm) k = Some l" "lease_le l l'" by (blast dest: lower_toD)
  with inv low show "lease_entry_ok (lm_counter lm') k l'"
    by (simp add: lease_inv_def lower_to_def lease_entry_ok_def lease_le_def)
next
  fix k m k' m' assume "map_get (leases lm') k = Some m" "map_get (leases lm') k' = Some m'" and ne: "k \<noteq> k'"
  with low obtain l l' where "map_get (leases lm) k = Some l" "lease_le l m"
      "map_get (leases lm) k' = Some l'" "lease_le l' m'" by (blast dest: lower_toD)
  with inv ne show "\<not> clash m m'" unfolding lease_inv_def by (blast dest: clash_le)
qed

lemma lower_to_refl [simp]: "lower_to lm lm"
  by (simp add: lower_to_def)

lemma lower_to_on_leases: "(\<And>l. sel l \<Longrightarrow> lease_le l (f l)) \<Longrightarrow> lower_to lm (on_leases sel f lm)"
  by (auto simp: lower_to_def on_leases_def)

lemma lower_to_upd: "(\<And>l. map_get (leases lm) k = Some l \<Longrightarrow> lease_le l (f l)) \<Longrightarrow>
    lower_to lm (lm\<lparr>leases := map_upd k f (leases lm)\<rparr>)"
  by (auto simp: lower_to_def)

lemma lease_le_intros [intro]:
  "l_State l \<noteq> LeaseStateRevoked \<Longrightarrow> lease_le l (revoke_at now l)"
  "l_State l = LeaseStateActive \<Longrightarrow> lease_le l (l_ExpiresAt_update f l)"
  "l_State l = LeaseStateActive \<Longrightarrow> lease_le l (l_State_update g l)"
  by (auto simp: lease_le_def revoke_at_def)

lemmas lower_intros = lower_to_refl lower_to_on_leases lower_to_upd

lemma lower_to_step:
  "lower_to lm (snd (RenewLease_locked now k lm))"
  "lower_to lm (snd (RevokeLease_locked now k lm))"
  "lower_to lm (RevokeWorkerLeases_locked now w lm)"
  "lower_to lm (RenewWorkerLeases_locked now w lm)"
  "lower_to lm (RevokeLeasesByRunAndStage_locked now rid sid lm)"
  "lower_to lm (RevokeLeasesByRun_locked now rid lm)"
  "lower_to lm (snd (ExpireLeases now lm))"
  by (auto simp: bulk_defs RenewLease_locked_def RevokeLease_locked_def ExpireLeases_def stale_def
      split: option.split intro!: lower_intros) (metis LeaseState.exhaust lease_le_intros(2))

lemma lease_inv_close: "lease_inv lm \<Longrightarrow> lease_inv (CloseLeases lm)"
  by (simp add: lease_inv_def CloseLeases_def)

lemma lease_step_inv: "lease_inv lm \<Longrightarrow> lease_step lm lm' \<Longrightarrow> lease_inv lm'"
  by (erule lease_step.cases) (auto intro: lease_inv_issue lease_inv_close lease_inv_lower lower_to_step)

interpretation ls: kept_by_steps lease_step lease_inv
  by unfold_locales (rule lease_step_inv)

section \<open>Leases are never reactivated and never move\<close>

text \<open>Identifiers whose counter has been used are compared; the others do not exist yet.\<close>

fun lease_opt_le :: "Lease option \<Rightarrow> Lease option \<Rightarrow> bool" where
  "lease_opt_le None y = (y = None)"
| "lease_opt_le (Some l) None = True"
| "lease_opt_le (Some l) (Some l') = lease_le l l'"

definition lease_history :: "lease_manager \<Rightarrow> lease_manager \<Rightarrow> bool" where
  "lease_history lm lm' \<longleftrightarrow> lm_counter lm \<le> lm_counter lm'
     \<and> (\<forall>ts c. clock_ms ts \<longrightarrow> c \<le> lm_counter lm \<longrightarrow>
           lease_opt_le (map_get (leases lm) (stamp_id ''lse_'' ts c))
             (map_get (leases lm') (stamp_id ''lse_'' ts c)))"

lemma lease_opt_le_refl: "lease_opt_le x x"
  by (cases x) auto

lemma lease_opt_le_trans: "lease_opt_le x y \<Longrightarrow> lease_opt_le y z \<Longrightarrow> lease_opt_le x z"
  by (cases "(x, y)" rule: lease_opt_le.cases; cases z) (auto intro: lease_le_trans)

lemma lease_history_lower: "lease_inv lm \<Longrightarrow> lower_to lm lm' \<Longrightarrow> lease_history lm lm'"
proof -
  assume "lease_inv lm" and low: "lower_to lm lm'"
  have "lease_opt_le (map_get (leases lm) k) (map_get (leases lm') k)" for k
  proof (cases "map_get (leases lm') k")
    case None
    with low have "map_get (leases lm) k = None"
      unfolding lower_to_def map_of_eq_None_iff by (metis list.set_map)
    with None show ?thesis by simp
  next
    case (Some l')
    with low show ?thesis by (auto dest: lower_toD)
  qed
  with low show ?thesis by (simp add: lease_history_def lower_to_def)
qed

lemma lease_history_issue: "clock_ms ts \<Longrightarrow> lease_history lm (snd (IssueLease_locked ts now w a lm))"
  using stamp_id_fresh [of _ ts]
  by (auto simp: lease_history_def IssueLease_locked_def generateLeaseID_def Let_def lease_opt_le_refl)

lemma lease_history_close: "lease_history lm (CloseLeases lm)"
proof -
  have "lease_opt_le x (if b then x else None)" for x b by (cases x) auto
  from this [of _ True] this [of _ False] show ?thesis
    by (auto simp: lease_history_def CloseLeases_def)
qed

interpretation lh: monotone_steps lease_step lease_inv lease_history
proof unfold_locales
  fix s t assume "lease_inv s" "lease_step s t"
  then show "lease_history s t"
    by (auto elim!: lease_step.cases intro: lease_history_issue lease_history_close
        lease_history_lower lower_to_step)
next
  fix s t u assume st: "lease_history s t" and tu: "lease_history t u"
  then show "lease_history s u"
    unfolding lease_history_def by (meson le_trans lease_opt_le_trans)
qed (simp add: lease_history_def lease_opt_le_refl)

lemma lease_kept:
  assumes "lease_inv lm" and "lease_step\<^sup>*\<^sup>* lm lm'"
    and "map_get (leases lm) k = Some l" and "map_get (leases lm') k = Some l'"
  shows "lease_le l l'"
proof -
  from assms(1,3) obtain ts c where "clock_ms ts" "c \<le> lm_counter lm" "k = stamp_id ''lse_'' ts c"
    unfolding lease_inv_def lease_entry_ok_def by blast
  with lh.run_rel [OF assms(2,1)] have "lease_opt_le (map_get (leases lm) k) (map_get (leases lm') k)"
    by (simp add: lease_history_def)
  with assms(3,4) show ?thesis by simp
qed

section \<open>Ownership: what a lease manager promises\<close>

text \<open>
  The abstract view of a lease manager is who owns a virtual user of a stage: the workers of the
  active leases whose range holds it.
\<close>

definition covers :: "Lease \<Rightarrow> string \<Rightarrow> string \<Rightarrow> int \<Rightarrow> bool" where
  "covers l rid sid v \<longleftrightarrow> l_State l = LeaseStateActive \<and> as_RunID (l_Assignment l) = rid
     \<and> as_StageID (l_Assignment l) = sid
     \<and> Start (as_VUIDRange (l_Assignment l)) \<le> v \<and> v < End (as_VUIDRange (l_Assignment l))"

definition owners :: "lease_manager \<Rightarrow> string \<Rightarrow> string \<Rightarrow> int \<Rightarrow> WorkerID list" where
  "owners lm rid sid v = map l_WorkerID (filter (\<lambda>l. covers l rid sid v) (map snd (leases lm)))"

definition owner :: "lease_manager \<Rightarrow> string \<Rightarrow> string \<Rightarrow> int \<Rightarrow> WorkerID option" where
  "owner lm rid sid v = (case owners lm rid sid v of [] \<Rightarrow> None | w # _ \<Rightarrow> Some w)"

text \<open>The effect of a granted assignment on ownership.\<close>

definition own_add :: "WorkerID \<Rightarrow> Assignment \<Rightarrow> (string \<Rightarrow> string \<Rightarrow> int \<Rightarrow> WorkerID option)
    \<Rightarrow> string \<Rightarrow> string \<Rightarrow> int \<Rightarrow> WorkerID option" where
  "own_add w a f rid sid v =
     (if as_RunID a = rid \<and> as_StageID a = sid \<and> Start (as_VUIDRange a) \<le> v \<and> v < End (as_VUIDRange a)
      then Some w else f rid sid v)"

definition range_free :: "Assignment \<Rightarrow> (string \<Rightarrow> string \<Rightarrow> int \<Rightarrow> WorkerID option) \<Rightarrow> bool" where
  "range_free a f \<longleftrightarrow> (\<forall>v. Start (as_VUIDRange a) \<le> v \<longrightarrow> v < End (as_VUIDRange a) \<longrightarrow>
      f (as_RunID a) (as_StageID a) v = None)"

lemma clash_covers: "clash l l' \<longleftrightarrow> (\<exists>rid sid v. covers l rid sid v \<and> covers l' rid sid v)"
  by (auto simp: clash_def conflicts_def covers_def Overlaps_iff)

lemma conflicts_covers: "conflicts a l \<longleftrightarrow>
    (\<exists>v. Start (as_VUIDRange a) \<le> v \<and> v < End (as_VUIDRange a) \<and> covers l (as_RunID a) (as_StageID a) v)"
  by (auto simp: conflicts_def covers_def Overlaps_iff)

lemma distinct_filter_le_1: "distinct (map fst m) \<Longrightarrow>
    (\<And>k v k' v'. (k, v) \<in> set m \<Longrightarrow> (k', v') \<in> set m \<Longrightarrow> P v \<Longrightarrow> P v' \<Longrightarrow> k = k') \<Longrightarrow>
    length (filter P (map snd m)) \<le> 1"
proof (induction m)
  case (Cons kv m)
  obtain k v where kv: "kv = (k, v)" by (cases kv)
  show ?case
  proof (cases "P v")
    case True
    have "\<not> P v'" if "(k', v') \<in> set m" for k' v'
      using Cons.prems(1) Cons.prems(2) [of k v k' v'] True that kv by force
    then have "filter P (map snd m) = []" by (auto simp: filter_empty_conv)
    with True kv show ?thesis by simp
  next
    case False
    have "length (filter P (map snd m)) \<le> 1"
      using Cons.prems(1) by (intro Cons.IH) (auto intro: Cons.prems(2))
    with False kv show ?thesis by simp
  qed
qed simp

lemma owners_le_1: "lease_inv lm \<Longrightarrow> length (owners lm rid sid v) \<le> 1"
  unfolding owners_def length_map
  by (intro distinct_filter_le_1) (auto simp: lease_inv_def keys_distinct_def clash_covers, metis)

lemma owner_None: "owner lm rid sid v = None \<longleftrightarrow> (\<forall>l \<in> set (map snd (leases lm)). \<not> covers l rid sid v)"
proof -
  have "owner lm rid sid v = None \<longleftrightarrow> owners lm rid sid v = []"
    by (simp add: owner_def split: list.split)
  then show ?thesis by (simp add: owners_def filter_empty_conv)
qed

lemma issue_refused_iff: "fst (IssueLease_locked ts now w a lm) = Inl ErrVUIDRangeOverlap
    \<longleftrightarrow> \<not> range_free a (owner lm)"
  by (simp add: IssueLease_locked_def generateLeaseID_def Let_def range_free_def owner_None conflicts_covers) blast

lemma issue_free_granted: "range_free a (owner lm) \<Longrightarrow> \<exists>k. fst (IssueLease_locked ts now w a lm) = Inr k"
  using issue_refused_iff [of ts now w a lm]
  by (auto simp: IssueLease_locked_def generateLeaseID_def Let_def split: if_splits)

lemma put_fresh: "map_get m k = None \<Longrightarrow> map_put k v m = m @ [(k, v)]"
  by (induction m) (auto split: if_splits)

lemma owner_issue:
  assumes inv: "lease_inv lm" and ts: "clock_ms ts" and ok: "fst (IssueLease_locked ts now w a lm) = Inr k"
  shows "owner (snd (IssueLease_locked ts now w a lm)) = own_add w a (owner lm)"
proof (intro ext)
  fix rid sid v
  let ?id = "stamp_id ''lse_'' ts (Suc (lm_counter lm))"
  from inv ts have fresh: "map_get (leases lm) ?id = None"
    by (cases "map_get (leases lm) ?id") (auto simp: lease_inv_def dest: lease_entry_fresh)
  from ok issue_refused_iff [of ts now w a lm] have free: "range_free a (owner lm)" by auto
  from ok obtain l where l: "snd (IssueLease_locked ts now w a lm) =
      lm\<lparr>lm_counter := Suc (lm_counter lm), leases := leases lm @ [(?id, l)]\<rparr>"
    and lw: "l_WorkerID l = w" "l_Assignment l = a" "l_State l = LeaseStateActive"
    using fresh by (auto simp: IssueLease_locked_def generateLeaseID_def Let_def put_fresh split: if_splits)
  have own: "owners (snd (IssueLease_locked ts now w a lm)) rid sid v =
      owners lm rid sid v @ (if covers l rid sid v then [w] else [])"
    by (simp add: l lw owners_def)
  show "owner (snd (IssueLease_locked ts now w a lm)) rid sid v = own_add w a (owner lm) rid sid v"
  proof (cases "covers l rid sid v")
    case True
    with free lw have "owner lm rid sid v = None" by (auto simp: range_free_def covers_def)
    then have "owners lm rid sid v = []" by (simp add: owner_def split: list.splits)
    with own True lw show ?thesis by (simp add: owner_def own_add_def covers_def)
  next
    case False
    with own lw show ?thesis by (auto simp: owner_def own_add_def covers_def)
  qed
qed

section \<open>The contract of lease issuing\<close>

text \<open>
  The loops of the run manager issue one lease per worker and go on when one is refused. What they
  need of the lease manager is this contract; \<open>issue_each\<close> is their common shape, with the clock
  readings of each call.
\<close>

fun issue_each :: "('c \<Rightarrow> WorkerID \<Rightarrow> Assignment \<Rightarrow> 's \<Rightarrow> ('e + LeaseID) \<times> 's)
    \<Rightarrow> ('c \<times> WorkerID \<times> Assignment) list \<Rightarrow> 's \<Rightarrow> ('e + LeaseID) list \<times> 's" where
  "issue_each issue [] s = ([], s)"
| "issue_each issue ((c, w, a) # xs) s =
     (let (r, s1) = issue c w a s; (rs, s2) = issue_each issue xs s1 in (r # rs, s2))"

fun own_add_all :: "('c \<times> WorkerID \<times> Assignment) list \<Rightarrow> (string \<Rightarrow> string \<Rightarrow> int \<Rightarrow> WorkerID option)
    \<Rightarrow> string \<Rightarrow> string \<Rightarrow> int \<Rightarrow> WorkerID option" where
  "own_add_all [] f = f"
| "own_add_all ((c, w, a) # xs) f = own_add_all xs (own_add w a f)"

definition apart :: "Assignment \<Rightarrow> Assignment \<Rightarrow> bool" where
  "apart a b \<longleftrightarrow> as_RunID a \<noteq> as_RunID b \<or> as_StageID a \<noteq> as_StageID b
     \<or> \<not> Overlaps (as_VUIDRange a) (as_VUIDRange b)"

lemma range_free_own_add: "apart a b \<Longrightarrow> range_free b f \<Longrightarrow> range_free b (own_add w a f)"
  by (auto simp: range_free_def own_add_def apart_def Overlaps_iff)

locale lease_service =
  fixes issue :: "'c \<Rightarrow> WorkerID \<Rightarrow> Assignment \<Rightarrow> 's \<Rightarrow> ('e + LeaseID) \<times> 's"
    and own :: "'s \<Rightarrow> string \<Rightarrow> string \<Rightarrow> int \<Rightarrow> WorkerID option"
    and good :: "'s \<Rightarrow> bool"
    and clock_ok :: "'c \<Rightarrow> bool"
  assumes issue_good: "good s \<Longrightarrow> clock_ok c \<Longrightarrow> good (snd (issue c w a s))"
    and issue_granted: "good s \<Longrightarrow> clock_ok c \<Longrightarrow> fst (issue c w a s) = Inr k \<Longrightarrow>
          own (snd (issue c w a s)) = own_add w a (own s)"
    and issue_refused: "good s \<Longrightarrow> fst (issue c w a s) = Inl e \<Longrightarrow> own (snd (issue c w a s)) = own s"
    and issue_free: "good s \<Longrightarrow> range_free a (own s) \<Longrightarrow> \<exists>k. fst (issue c w a s) = Inr k"
begin

lemma issue_each_good: "good s \<Longrightarrow> (\<forall>x \<in> set xs. clock_ok (fst x)) \<Longrightarrow> good (snd (issue_each issue xs s))"
proof (induction xs arbitrary: s)
  case (Cons x xs)
  obtain c w a where x: "x = (c, w, a)" by (cases x)
  with Cons.prems have "good (snd (issue c w a s))" by (auto intro: issue_good)
  with Cons x show ?case by (simp add: case_prod_unfold Let_def)
qed simp

lemma issue_each_all_granted:
  assumes "good s" and "\<forall>x \<in> set xs. clock_ok (fst x)"
    and "pairwise apart (set (map (\<lambda>x. snd (snd x)) xs))" and "distinct (map (\<lambda>x. snd (snd x)) xs)"
    and "\<forall>x \<in> set xs. range_free (snd (snd x)) (own s)"
  shows "(\<forall>r \<in> set (fst (issue_each issue xs s)). \<exists>k. r = Inr k)
     \<and> own (snd (issue_each issue xs s)) = own_add_all xs (own s)"
  using assms
proof (induction xs arbitrary: s)
  case (Cons x xs)
  obtain c w a where x: "x = (c, w, a)" by (cases x)
  from Cons.prems x have good: "good (snd (issue c w a s))" by (auto intro: issue_good)
  from Cons.prems x obtain k where k: "fst (issue c w a s) = Inr k" using issue_free by fastforce
  with Cons.prems x have own: "own (snd (issue c w a s)) = own_add w a (own s)" by (auto intro: issue_granted)
  have ap: "apart a (snd (snd y))" if "y \<in> set xs" for y
  proof -
    from that Cons.prems(4) x have "a \<noteq> snd (snd y)" by force
    with that Cons.prems(3) x show ?thesis unfolding pairwise_def by force
  qed
  have "\<forall>y \<in> set xs. range_free (snd (snd y)) (own (snd (issue c w a s)))"
    using Cons.prems(5) ap by (auto simp: own range_free_own_add)
  moreover have "pairwise apart (set (map (\<lambda>x. snd (snd x)) xs))"
    using Cons.prems(3) by (rule pairwise_subset) auto
  moreover have "distinct (map (\<lambda>x. snd (snd x)) xs)" "\<forall>y \<in> set xs. clock_ok (fst y)"
    using Cons.prems(2,4) by simp_all
  ultimately have "(\<forall>r \<in> set (fst (issue_each issue xs (snd (issue c w a s)))). \<exists>k. r = Inr k)
     \<and> own (snd (issue_each issue xs (snd (issue c w a s)))) = own_add_all xs (own_add w a (own s))"
    using Cons.IH [OF good] own by simp
  with x k show ?case by (simp add: case_prod_unfold Let_def)
qed simp

end

definition lease_good :: "lease_manager \<Rightarrow> bool" where
  "lease_good lm \<longleftrightarrow> lease_inv lm \<and> \<not> lm_closed lm"

definition IssueLease_at :: "(nat \<times> int) \<Rightarrow> WorkerID \<Rightarrow> Assignment \<Rightarrow> lease_manager \<Rightarrow>
    (lease_error + LeaseID) \<times> lease_manager" where
  "IssueLease_at c = IssueLease (fst c) (snd c)"

lemma closed_issue [simp]: "lm_closed (snd (IssueLease_locked ts now w a lm)) = lm_closed lm"
  by (simp add: IssueLease_locked_def generateLeaseID_def Let_def)

interpretation lsrv: lease_service IssueLease_at owner lease_good "\<lambda>c. clock_ms (fst c)"
proof unfold_locales
  fix s c w a k e
  show "lease_good (snd (IssueLease_at c w a s))" if "lease_good s" "clock_ms (fst c)"
    using that by (simp add: lease_good_def IssueLease_at_def IssueLease_def lease_inv_issue)
  show "owner (snd (IssueLease_at c w a s)) = own_add w a (owner s)"
    if "lease_good s" "clock_ms (fst c)" "fst (IssueLease_at c w a s) = Inr k"
    using that by (auto simp: lease_good_def IssueLease_at_def IssueLease_def intro: owner_issue)
  show "owner (snd (IssueLease_at c w a s)) = owner s" if "fst (IssueLease_at c w a s) = Inl e"
    using that by (auto simp: IssueLease_at_def IssueLease_def IssueLease_locked_def Let_def
        generateLeaseID_def split: if_splits)
  show "\<exists>k. fst (IssueLease_at c w a s) = Inr k" if "lease_good s" "range_free a (owner s)"
    using that by (auto simp: lease_good_def IssueLease_at_def IssueLease_def intro: issue_free_granted)
qed

section \<open>Expiry\<close>

lemma owners_on_leases: "(\<And>l. l_WorkerID (f l) = l_WorkerID l) \<Longrightarrow> owners (on_leases sel f lm) rid sid v =
    map l_WorkerID (filter (\<lambda>l. covers (if sel l then f l else l) rid sid v) (map snd (leases lm)))"
proof -
  assume f: "\<And>l. l_WorkerID (f l) = l_WorkerID l"
  have "map l_WorkerID (filter (\<lambda>l. covers l rid sid v) (map snd (map_vals (\<lambda>l. if sel l then f l else l) m))) =
      map l_WorkerID (filter (\<lambda>l. covers (if sel l then f l else l) rid sid v) (map snd m))" for m :: "(LeaseID, Lease) gomap"
    by (induction m) (auto simp: map_vals_def f)
  then show ?thesis by (simp add: owners_def on_leases_def)
qed

lemma on_leases_compose: "on_leases sel g (on_leases sel' f lm) =
    on_leases (\<lambda>_. True) (\<lambda>l. let l' = (if sel' l then f l else l) in if sel l' then g l' else l') lm"
  by (simp add: on_leases_def map_vals_def comp_def case_prod_unfold Let_def)

text \<open>When a lease expires after the leases of \<open>w\<close> are renewed at time \<open>t\<close>.\<close>

definition renewed_expiry :: "int \<Rightarrow> WorkerID \<Rightarrow> lease_manager \<Rightarrow> Lease \<Rightarrow> int" where
  "renewed_expiry t w lm l = (if l_WorkerID l = w then t + lm_ttlMs lm else l_ExpiresAt l)"

lemma owners_renew_expire: "owners (snd (ExpireLeases now (RenewWorkerLeases_locked t w lm))) rid sid v =
    map l_WorkerID (filter (\<lambda>l. covers l rid sid v \<and> now \<le> renewed_expiry t w lm l) (map snd (leases lm)))"
  by (simp add: ExpireLeases_def RenewWorkerLeases_locked_def on_leases_compose owners_on_leases Let_def)
    (auto simp: covers_def stale_def renewed_expiry_def not_less intro!: arg_cong [where f = "map l_WorkerID"] filter_cong)

section \<open>Properties\<close>

text \<open>C1: however the operations of the lease manager interleave, a virtual user of a stage has at
  most one owner: at most one active lease covers it.\<close>

theorem lease_exclusive:
  assumes "lease_step\<^sup>*\<^sup>* (NewLeaseManager ttl) lm"
  shows "length (owners lm rid sid v) \<le> 1"
  using assms lease_inv_new by (intro owners_le_1) (rule ls.run_keeps)

theorem lease_exclusive_witness:
  "let a = \<lparr>as_RunID = ''r'', as_StageID = ''s'', as_VUIDRange = \<lparr>Start = 0, End = 5\<rparr>\<rparr>;
       lm = snd (IssueLease_locked (16 ^ 10) 7 ''w'' a (NewLeaseManager 0))
   in owners lm ''r'' ''s'' 3 = [''w''] \<and> length (owners lm ''r'' ''s'' 3) \<le> 1"
proof -
  let ?a = "\<lparr>as_RunID = ''r'', as_StageID = ''s'', as_VUIDRange = \<lparr>Start = 0, End = 5\<rparr>\<rparr>"
  have "lease_step\<^sup>*\<^sup>* (NewLeaseManager 0) (snd (IssueLease_locked (16 ^ 10) 7 ''w'' ?a (NewLeaseManager 0)))"
    by (intro r_into_rtranclp lease_step.issue) (simp add: clock_ms_def)
  from lease_exclusive [OF this, of "''r''" "''s''" 3] show ?thesis
    by (simp add: owners_def covers_def IssueLease_locked_def generateLeaseID_def NewLeaseManager_def Let_def)
qed

text \<open>C2: issuing implements the ownership contract. On an open manager an assignment whose range
  is free is granted, and afterwards its worker owns exactly that range in addition to what was owned
  before; an assignment whose range is not free is refused and changes nothing.\<close>

theorem issue_refines_ownership:
  assumes "lease_good lm" and "clock_ms ts"
  shows "if range_free a (owner lm)
         then (\<exists>k. fst (IssueLease ts now w a lm) = Inr k)
            \<and> owner (snd (IssueLease ts now w a lm)) = own_add w a (owner lm)
         else IssueLease ts now w a lm = (Inl ErrVUIDRangeOverlap, lm)"
proof (cases "range_free a (owner lm)")
  case True
  then obtain k where k: "fst (IssueLease_at (ts, now) w a lm) = Inr k"
    using lsrv.issue_free [OF assms(1) True] by blast
  with lsrv.issue_granted [OF assms(1) _ k] assms(2) True show ?thesis
    by (auto simp: IssueLease_at_def)
next
  case False
  with issue_refused_iff [of ts now w a lm] assms(1) show ?thesis
    by (auto simp: IssueLease_def lease_good_def IssueLease_locked_def generateLeaseID_def Let_def split: if_splits)
qed

theorem issue_refines_ownership_witness:
  "let a = \<lparr>as_RunID = ''r'', as_StageID = ''s'', as_VUIDRange = \<lparr>Start = 0, End = 5\<rparr>\<rparr>;
       lm = NewLeaseManager 1000
   in lease_good lm \<and> range_free a (owner lm)
      \<and> owner (snd (IssueLease (16 ^ 10) 7 ''w'' a lm)) = own_add ''w'' a (owner lm)"
proof -
  let ?lm = "NewLeaseManager 1000"
  have g: "lease_good ?lm" by (simp add: lease_good_def lease_inv_new) (simp add: NewLeaseManager_def)
  have o: "owner ?lm rid sid v = None" for rid sid v by (simp add: owner_None NewLeaseManager_def)
  from issue_refines_ownership [OF g, of "16 ^ 10"] g o show ?thesis
    by (simp add: clock_ms_def range_free_def)
qed

text \<open>C3: along every run of the manager a lease keeps its worker, its assignment and its time of
  issue; once it is revoked or expired it never becomes active again, and a revoked lease never
  changes at all.\<close>

theorem lease_history_monotone:
  assumes "lease_step\<^sup>*\<^sup>* (NewLeaseManager ttl) lm" and "lease_step\<^sup>*\<^sup>* lm lm'"
    and "map_get (leases lm) k = Some l" and "map_get (leases lm') k = Some l'"
  shows "l_WorkerID l' = l_WorkerID l \<and> l_Assignment l' = l_Assignment l \<and> l_IssuedAt l' = l_IssuedAt l
     \<and> (l_State l \<noteq> LeaseStateActive \<longrightarrow> l_State l' \<noteq> LeaseStateActive)
     \<and> (l_State l = LeaseStateRevoked \<longrightarrow> l' = l)"
  using lease_kept [OF ls.run_keeps [OF assms(1) lease_inv_new] assms(2-4)] by (simp add: lease_le_def)

theorem lease_history_monotone_witness:
  "let a = \<lparr>as_RunID = ''r'', as_StageID = ''s'', as_VUIDRange = \<lparr>Start = 0, End = 5\<rparr>\<rparr>;
       lm = snd (IssueLease_locked (16 ^ 10) 7 ''w'' a (NewLeaseManager 0));
       lm' = RevokeWorkerLeases_locked 9 ''w'' lm;
       k = fst (hd (leases lm))
   in \<exists>l l'. map_get (leases lm) k = Some l \<and> map_get (leases lm') k = Some l'
        \<and> l_State l' = LeaseStateRevoked \<and> l_Assignment l' = l_Assignment l"
proof -
  let ?a = "\<lparr>as_RunID = ''r'', as_StageID = ''s'', as_VUIDRange = \<lparr>Start = 0, End = 5\<rparr>\<rparr>"
  let ?lm = "snd (IssueLease_locked (16 ^ 10) 7 ''w'' ?a (NewLeaseManager 0))"
  have s: "lease_step\<^sup>*\<^sup>* (NewLeaseManager 0) ?lm"
    by (intro r_into_rtranclp lease_step.issue) (simp add: clock_ms_def)
  have t: "lease_step\<^sup>*\<^sup>* ?lm (RevokeWorkerLeases_locked 9 ''w'' ?lm)"
    by (intro r_into_rtranclp lease_step.revoke_worker)
  from lease_history_monotone [OF s t] show ?thesis
    by (simp add: IssueLease_locked_def generateLeaseID_def NewLeaseManager_def Let_def
        RevokeWorkerLeases_locked_def on_leases_def revoke_at_def)
qed



end
