(* ===== verification/Sched_Allocator.thy ===== *)
theory Sched_Allocator
  imports Sched_Leases
begin

text \<open>
  The allocator (\<^verbatim>\<open>internal/controlplane/scheduler/allocator.go\<close>): it packs the virtual users
  of a stage onto the workers, largest effective capacity first. \<open>srt\<close> is \<^verbatim>\<open>sort.Slice\<close> with the
  comparison of the code: any sorter that meets the contract of the library.
\<close>

section \<open>Definitions\<close>

datatype alloc_error = ErrNoWorkersAvailable | ErrInsufficientCapacity | ErrInvalidTargetVUs
  | ErrWorkerNotInRegistry | AllocRegistryError registry_error

record workerCapacity =
  wc_workerID :: WorkerID
  wc_maxVUs :: int

text \<open>\<^verbatim>\<open>totalCapacity += w.EffectiveCapacity.MaxVUs\<close> over the workers, at the width of \<open>int\<close>.\<close>

definition total_capacity :: "workerCapacity list \<Rightarrow> int" where
  "total_capacity ws = fold (\<lambda>w t. wrap64 (t + wc_maxVUs w)) ws 0"

text \<open>The loop that both functions end with: \<open>vuStart\<close> and \<open>remaining\<close> are its variables.\<close>

fun pack :: "string \<Rightarrow> string \<Rightarrow> workerCapacity list \<Rightarrow> int \<Rightarrow> int \<Rightarrow> (WorkerID \<times> Assignment) list" where
  "pack runID stageID [] vuStart remaining = []"
| "pack runID stageID (w # ws) vuStart remaining =
     (if remaining \<le> 0 then []
      else
        let vuCount = (if wc_maxVUs w > remaining then remaining else wc_maxVUs w);
            assignment = \<lparr>as_RunID = runID, as_StageID = stageID,
                          as_VUIDRange = \<lparr>Start = vuStart, End = vuStart + vuCount\<rparr>\<rparr>
        in (wc_workerID w, assignment) # pack runID stageID ws (vuStart + vuCount) (remaining - vuCount))"

type_synonym allocation = "Assignment list \<times> (WorkerID, Assignment) gomap"

definition allocation_of :: "(WorkerID \<times> Assignment) list \<Rightarrow> allocation" where
  "allocation_of ps = (map snd ps, fold (\<lambda>(w, a). map_put w a) ps [])"

definition ReallocateAssignments ::
  "(workerCapacity list \<Rightarrow> workerCapacity list) \<Rightarrow> registry \<Rightarrow> string \<Rightarrow> string \<Rightarrow> int \<Rightarrow> WorkerID list
    \<Rightarrow> alloc_error + allocation" where
  "ReallocateAssignments srt r runID stageID targetVUs excludeWorkers =
     (if targetVUs \<le> 0 then Inl ErrInvalidTargetVUs
      else
        let availableWorkers = map (\<lambda>w. \<lparr>wc_workerID = wi_WorkerID w, wc_maxVUs = MaxVUs (wi_EffectiveCapacity w)\<rparr>)
              (filter (\<lambda>w. wi_WorkerID w \<notin> set excludeWorkers) (ListWorkers r))
        in if availableWorkers = [] then Inl ErrNoWorkersAvailable
           else if total_capacity availableWorkers < targetVUs then Inl ErrInsufficientCapacity
           else Inr (allocation_of (pack runID stageID (srt availableWorkers) 0 targetVUs)))"

text \<open>The loop over the requested worker ids, which stops at the first lookup error.\<close>

fun lookup_workers :: "registry \<Rightarrow> WorkerID list \<Rightarrow> alloc_error + workerCapacity list" where
  "lookup_workers r [] = Inr []"
| "lookup_workers r (wid # wids) =
     (case GetWorker wid r of
        Inl ErrWorkerNotFound \<Rightarrow> Inl ErrWorkerNotInRegistry
      | Inl e \<Rightarrow> Inl (AllocRegistryError e)
      | Inr w \<Rightarrow>
          (case lookup_workers r wids of
             Inl e \<Rightarrow> Inl e
           | Inr ws \<Rightarrow> Inr (\<lparr>wc_workerID = wid, wc_maxVUs = MaxVUs (wi_EffectiveCapacity w)\<rparr> # ws)))"

definition AllocateAssignments ::
  "(workerCapacity list \<Rightarrow> workerCapacity list) \<Rightarrow> registry \<Rightarrow> string \<Rightarrow> string \<Rightarrow> int \<Rightarrow> WorkerID list
    \<Rightarrow> alloc_error + allocation" where
  "AllocateAssignments srt r runID stageID targetVUs workerIDs =
     (if targetVUs \<le> 0 then Inl ErrInvalidTargetVUs
      else if workerIDs = [] then Inl ErrNoWorkersAvailable
      else case lookup_workers r workerIDs of
        Inl e \<Rightarrow> Inl e
      | Inr ws \<Rightarrow>
          if total_capacity ws < targetVUs then Inl ErrInsufficientCapacity
          else Inr (allocation_of (pack runID stageID (srt ws) 0 targetVUs)))"

section \<open>The loop\<close>

text \<open>\<open>consecutive s rs e\<close>: the ranges are non-empty and cut \<open>[s, e)\<close> into pieces, in order.\<close>

fun consecutive :: "int \<Rightarrow> VUIDRange list \<Rightarrow> int \<Rightarrow> bool" where
  "consecutive s [] e = (s = e)"
| "consecutive s (r # rs) e = (Start r = s \<and> Start r < End r \<and> consecutive (End r) rs e)"

lemma consecutive_le: "consecutive s rs e \<Longrightarrow> s \<le> e"
  by (induction rs arbitrary: s) force+

lemma consecutive_bounds: "consecutive s rs e \<Longrightarrow> r \<in> set rs \<Longrightarrow> s \<le> Start r \<and> Start r < End r \<and> End r \<le> e"
proof (induction rs arbitrary: s)
  case (Cons q rs)
  then have q: "Start q = s" "Start q < End q" "consecutive (End q) rs e" by auto
  from Cons.prems(2) consider "r = q" | "r \<in> set rs" by auto
  then show ?case
  proof cases
    case 1
    with q consecutive_le [OF q(3)] show ?thesis by simp
  next
    case 2
    with Cons.IH [OF q(3)] q show ?thesis by simp
  qed
qed simp

lemma consecutive_covers: "consecutive s rs e \<Longrightarrow> s \<le> v \<Longrightarrow> v < e \<Longrightarrow> \<exists>r \<in> set rs. Start r \<le> v \<and> v < End r"
proof (induction rs arbitrary: s)
  case (Cons q rs)
  then show ?case by (cases "v < End q") auto
qed simp

lemma consecutive_disjoint: "consecutive s rs e \<Longrightarrow> sorted_wrt (\<lambda>r r'. End r \<le> Start r') rs"
proof (induction rs arbitrary: s)
  case (Cons q rs)
  then show ?case using consecutive_bounds [of "End q" rs e] by auto
qed simp

lemma pack_ids: "p \<in> set (pack rid sid ws s n) \<Longrightarrow> fst p \<in> set (map wc_workerID ws)"
  by (induction ws arbitrary: s n) (auto simp: Let_def split: if_splits)

lemma pack_distinct: "distinct (map wc_workerID ws) \<Longrightarrow> distinct (map fst (pack rid sid ws s n))"
proof (induction ws arbitrary: s n)
  case (Cons w ws)
  have "wc_workerID w \<notin> fst ` set (pack rid sid ws s' n')" for s' n'
    using Cons.prems by (auto dest: pack_ids)
  with Cons show ?case by (simp add: Let_def)
qed simp

lemma pack_stage: "p \<in> set (pack rid sid ws s n) \<Longrightarrow> as_RunID (snd p) = rid \<and> as_StageID (snd p) = sid"
  by (induction ws arbitrary: s n) (auto simp: Let_def split: if_splits)

lemma pack_capacity: "p \<in> set (pack rid sid ws s n) \<Longrightarrow>
    \<exists>w \<in> set ws. fst p = wc_workerID w \<and>
      End (as_VUIDRange (snd p)) - Start (as_VUIDRange (snd p)) \<le> wc_maxVUs w"
  by (induction ws arbitrary: s n) (auto simp: Let_def split: if_splits)

lemma pack_consecutive:
  assumes "sorted_wrt (\<lambda>a b. wc_maxVUs b \<le> wc_maxVUs a) ws" and "\<forall>w \<in> set ws. 0 \<le> wc_maxVUs w"
    and "0 \<le> n" and "n \<le> sum_list (map wc_maxVUs ws)"
  shows "consecutive s (map (\<lambda>p. as_VUIDRange (snd p)) (pack rid sid ws s n)) (s + n)"
  using assms
proof (induction ws arbitrary: s n)
  case (Cons w ws)
  show ?case
  proof (cases "n \<le> 0")
    case False
    have "0 < wc_maxVUs w"
    proof (rule ccontr)
      assume "\<not> 0 < wc_maxVUs w"
      with Cons.prems(1) have "\<forall>v \<in> set (w # ws). wc_maxVUs v \<le> 0" by force
      then have "sum_list (map wc_maxVUs (w # ws)) \<le> 0" by (intro sum_list_nonpos) auto
      with Cons.prems(4) False show False by simp
    qed
    moreover define c where "c = (if wc_maxVUs w > n then n else wc_maxVUs w)"
    ultimately have c: "0 < c" "c \<le> n" using False by (auto split: if_splits)
    have "n - c \<le> sum_list (map wc_maxVUs ws)"
    proof (cases "wc_maxVUs w > n")
      case True
      have "0 \<le> sum_list (map wc_maxVUs ws)" using Cons.prems(2) by (intro sum_list_nonneg) auto
      with True show ?thesis by (simp add: c_def)
    next
      case False
      with Cons.prems(4) show ?thesis by (simp add: c_def)
    qed
    with Cons.prems c have "consecutive (s + c) (map (\<lambda>p. as_VUIDRange (snd p)) (pack rid sid ws (s + c) (n - c)))
        (s + c + (n - c))" by (intro Cons.IH) auto
    with False c show ?thesis by (simp add: Let_def flip: c_def)
  qed (use Cons.prems in simp)
qed simp

section \<open>Capacity at the width of the machine\<close>

lemma fold_wrap: "is_int64 t \<Longrightarrow> fold (\<lambda>w t. wrap64 (t + wc_maxVUs w)) ws t = wrap64 (t + sum_list (map wc_maxVUs ws))"
proof (induction ws arbitrary: t)
  case Nil
  then show ?case by (simp add: wrap64_id)
next
  case (Cons w ws)
  show ?case using Cons.IH [OF wrap64_range] by (simp add: wrap64_add algebra_simps)
qed

lemma total_capacity_eq: "total_capacity ws = wrap64 (sum_list (map wc_maxVUs ws))"
  using fold_wrap [of 0 ws] by (simp add: total_capacity_def is_int64_def)

text \<open>Wrap-around can only make the sum of non-negative capacities look smaller.\<close>

lemma total_capacity_le: "\<forall>w \<in> set ws. 0 \<le> wc_maxVUs w \<Longrightarrow> total_capacity ws \<le> sum_list (map wc_maxVUs ws)"
proof -
  assume "\<forall>w \<in> set ws. 0 \<le> wc_maxVUs w"
  then have "0 \<le> sum_list (map wc_maxVUs ws)" by (intro sum_list_nonneg) auto
  then show ?thesis by (simp add: total_capacity_eq wrap64_le)
qed

section \<open>Allocations\<close>

lemma fold_put_distinct: "distinct (map fst (m @ ps)) \<Longrightarrow> fold (\<lambda>(w, a). map_put w a) ps m = m @ ps"
proof (induction ps arbitrary: m)
  case (Cons p ps)
  obtain w a where p: "p = (w, a)" by (cases p)
  with Cons.prems have "map_get m w = None" by (auto simp: map_of_eq_None_iff)
  then have "map_put w a m = m @ [p]" by (simp add: put_fresh p)
  with Cons p show ?case by simp
qed simp

lemma allocation_of_distinct: "distinct (map fst ps) \<Longrightarrow> allocation_of ps = (map snd ps, ps)"
  using fold_put_distinct [of "[]" ps] by (simp add: allocation_of_def)

text \<open>What an allocation of \<open>n\<close> virtual users to the workers \<open>ws\<close> is.\<close>

definition partitions :: "string \<Rightarrow> string \<Rightarrow> int \<Rightarrow> workerCapacity list \<Rightarrow> allocation \<Rightarrow> bool" where
  "partitions rid sid n ws al \<longleftrightarrow>
     consecutive 0 (map as_VUIDRange (fst al)) n \<and> map snd (snd al) = fst al \<and> distinct (map fst (snd al))
     \<and> (\<forall>(wid, a) \<in> set (snd al). as_RunID a = rid \<and> as_StageID a = sid
          \<and> (\<exists>w \<in> set ws. wc_workerID w = wid \<and> End (as_VUIDRange a) - Start (as_VUIDRange a) \<le> wc_maxVUs w))"

lemma pack_partitions:
  assumes srt: "slice_sorter wc_maxVUs srt" and dist: "distinct (map wc_workerID ws)"
    and nonneg: "\<forall>w \<in> set ws. 0 \<le> wc_maxVUs w" and n: "0 < n" "n \<le> total_capacity ws"
  shows "partitions rid sid n ws (allocation_of (pack rid sid (srt ws) 0 n))"
proof -
  have s: "sort_slice wc_maxVUs srt" using srt by (simp add: sort_slice_iff)
  note set_srt = sort_slice.set_srt [OF s] and sum_srt = sort_slice.sum_srt [OF s]
  let ?ps = "pack rid sid (srt ws) 0 n"
  have d: "distinct (map fst ?ps)"
    by (rule pack_distinct) (rule sort_slice.distinct_map_srt [OF s dist])
  have "n \<le> sum_list (map wc_maxVUs (srt ws))"
    using n total_capacity_le [OF nonneg] by (simp add: sum_srt)
  then have "consecutive 0 (map (\<lambda>p. as_VUIDRange (snd p)) ?ps) (0 + n)"
    using n nonneg sort_slice.descending [OF s] by (intro pack_consecutive) (auto simp: set_srt)
  moreover have "\<forall>p \<in> set ?ps. as_RunID (snd p) = rid \<and> as_StageID (snd p) = sid
      \<and> (\<exists>w \<in> set ws. wc_workerID w = fst p \<and> End (as_VUIDRange (snd p)) - Start (as_VUIDRange (snd p)) \<le> wc_maxVUs w)"
    using pack_stage [of _ rid sid "srt ws"] pack_capacity [of _ rid sid "srt ws"] by (metis set_srt)
  ultimately show ?thesis
    using d by (auto simp: partitions_def allocation_of_distinct case_prod_unfold comp_def)
qed

lemma lookup_workers_Inr: "lookup_workers r wids = Inr ws \<Longrightarrow> map wc_workerID ws = wids
    \<and> (\<forall>w \<in> set ws. \<exists>i. GetWorker (wc_workerID w) r = Inr i \<and> wc_maxVUs w = MaxVUs (wi_EffectiveCapacity i))"
  by (induction r wids arbitrary: ws rule: lookup_workers.induct)
    (auto split: sum.splits registry_error.splits)

lemma lookup_workers_ids: "lookup_workers r (map wi_WorkerID is) =
    Inr (map (\<lambda>w. \<lparr>wc_workerID = wi_WorkerID w, wc_maxVUs = MaxVUs (wi_EffectiveCapacity w)\<rparr>) is)"
  if "\<forall>i \<in> set is. GetWorker (wi_WorkerID i) r = Inr i"
  using that by (induction "is") auto

lemma allocate_partition:
  assumes "slice_sorter wc_maxVUs srt" and "distinct wids"
    and "\<forall>wid w. GetWorker wid r = Inr w \<longrightarrow> 0 \<le> MaxVUs (wi_EffectiveCapacity w)"
    and "AllocateAssignments srt r rid sid n wids = Inr al"
  shows "\<exists>ws. lookup_workers r wids = Inr ws \<and> partitions rid sid n ws al"
proof -
  from assms(4) obtain ws where ws: "lookup_workers r wids = Inr ws" "0 < n" "n \<le> total_capacity ws"
      "al = allocation_of (pack rid sid (srt ws) 0 n)"
    by (auto simp: AllocateAssignments_def split: if_splits sum.splits)
  from lookup_workers_Inr [OF ws(1)] assms(3) have "map wc_workerID ws = wids" "\<forall>w \<in> set ws. 0 \<le> wc_maxVUs w" by force+
  then have "partitions rid sid n ws al"
    unfolding ws(4) using assms(1,2) ws(2,3) by (intro pack_partitions) auto
  with ws(1) show ?thesis by blast
qed

section \<open>Properties\<close>

text \<open>C6: a successful allocation of \<open>n\<close> virtual users cuts \<open>[0, n)\<close> into consecutive non-empty ranges,
  one per worker used, each worker among those asked for and given at most its effective capacity. It
  holds at the width of the machine: a capacity sum that wraps around can only make an allocation
  fail.\<close>

theorem allocation_partitions:
  assumes "slice_sorter wc_maxVUs srt" and "distinct wids"
    and "\<forall>wid w. GetWorker wid r = Inr w \<longrightarrow> 0 \<le> MaxVUs (wi_EffectiveCapacity w)"
    and "AllocateAssignments srt r rid sid n wids = Inr al"
  shows "consecutive 0 (map as_VUIDRange (fst al)) n \<and> map snd (snd al) = fst al \<and> distinct (map fst (snd al))
     \<and> (\<forall>(wid, a) \<in> set (snd al). as_RunID a = rid \<and> as_StageID a = sid \<and> wid \<in> set wids
          \<and> (\<exists>w. GetWorker wid r = Inr w
               \<and> End (as_VUIDRange a) - Start (as_VUIDRange a) \<le> MaxVUs (wi_EffectiveCapacity w)))"
proof -
  from allocate_partition [OF assms] obtain ws where ws: "lookup_workers r wids = Inr ws" "partitions rid sid n ws al" by blast
  have "wid \<in> set wids \<and> (\<exists>i. GetWorker wid r = Inr i \<and> d \<le> MaxVUs (wi_EffectiveCapacity i))"
    if "\<exists>w \<in> set ws. wc_workerID w = wid \<and> d \<le> wc_maxVUs w" for wid d
    using that lookup_workers_Inr [OF ws(1)] by force
  with ws(2) show ?thesis unfolding partitions_def by blast
qed

definition two_workers :: registry where
  "two_workers = (let host = \<lparr>Hostname = ''h'', IPAddr = [], Platform = []\<rparr>;
     cap = (\<lambda>n. \<lparr>MaxVUs = n, MaxConcurrentOps = 5, MaxRPS = 100\<rparr>);
     w = (\<lambda>k n. \<lparr>wi_WorkerID = k, wi_HostInfo = host, wi_Capacity = cap n, wi_EffectiveCapacity = cap n,
            wi_Saturated = False, wi_RegisteredAt = 0, wi_LastHeartbeat = 0, wi_Health = None\<rparr>)
   in \<lparr>workers = [(''a'', w ''a'' 4), (''b'', w ''b'' 6)], reg_counter = 2, reg_closed = False\<rparr>)"

theorem allocation_partitions_witness:
  "\<exists>al. AllocateAssignments (insertion_sort wc_maxVUs) two_workers ''r'' ''s'' 8 [''a'', ''b''] = Inr al
     \<and> consecutive 0 (map as_VUIDRange (fst al)) 8 \<and> map fst (snd al) = [''b'', ''a'']"
proof -
  let ?al = "allocation_of (pack ''r'' ''s'' [\<lparr>wc_workerID = ''b'', wc_maxVUs = 6\<rparr>, \<lparr>wc_workerID = ''a'', wc_maxVUs = 4\<rparr>] 0 8)"
  have ok: "AllocateAssignments (insertion_sort wc_maxVUs) two_workers ''r'' ''s'' 8 [''a'', ''b''] = Inr ?al"
    by (simp add: AllocateAssignments_def GetWorker_def two_workers_def Let_def total_capacity_def wrap64_def
        insertion_sort_def)
  have "\<forall>wid w. GetWorker wid two_workers = Inr w \<longrightarrow> 0 \<le> MaxVUs (wi_EffectiveCapacity w)"
    by (auto simp: GetWorker_def two_workers_def Let_def split: if_splits)
  from allocation_partitions [OF slice_sorter_insertion_sort _ this ok] have "consecutive 0 (map as_VUIDRange (fst ?al)) 8" by simp
  with ok show ?thesis by (simp add: allocation_of_def Let_def)
qed

text \<open>When every registered worker is asked for, as the run manager does, the two entry points of
  the allocator agree: allocating to all workers is reallocating with no worker excluded, in the result
  and in every error.\<close>

theorem allocate_all_is_reallocate:
  assumes "registry_inv r" and "\<not> reg_closed r"
  shows "AllocateAssignments srt r rid sid n (map wi_WorkerID (ListWorkers r)) =
         ReallocateAssignments srt r rid sid n []"
proof -
  have "\<forall>i \<in> set (ListWorkers r). GetWorker (wi_WorkerID i) r = Inr i"
    using assms by (simp add: GetWorker_ListWorkers)
  from lookup_workers_ids [OF this] show ?thesis
    by (simp add: AllocateAssignments_def ReallocateAssignments_def Let_def)
qed

theorem allocate_all_is_reallocate_witness:
  "let r = snd (RegisterWorker (16 ^ 10) 7 \<lparr>Hostname = ''h'', IPAddr = [], Platform = []\<rparr>
             \<lparr>MaxVUs = 10, MaxConcurrentOps = 5, MaxRPS = 100\<rparr> NewRegistry)
   in AllocateAssignments (insertion_sort wc_maxVUs) r ''r'' ''s'' 8 (map wi_WorkerID (ListWorkers r)) =
      ReallocateAssignments (insertion_sort wc_maxVUs) r ''r'' ''s'' 8 []"
proof -
  let ?r = "snd (RegisterWorker (16 ^ 10) 7 \<lparr>Hostname = ''h'', IPAddr = [], Platform = []\<rparr>
             \<lparr>MaxVUs = 10, MaxConcurrentOps = 5, MaxRPS = 100\<rparr> NewRegistry)"
  have "registry_inv ?r" by (intro registry_inv_register registry_inv_new) (simp add: clock_ms_def)
  moreover have "\<not> reg_closed ?r" by (simp add: registry_defs NewRegistry_def)
  ultimately show ?thesis using allocate_all_is_reallocate [of ?r] by (simp add: Let_def)
qed

end
