(* ===== verification/Sched_Heartbeat.thy ===== *)
theory Sched_Heartbeat
  imports Sched_Allocator
begin

text \<open>
  Detection and removal of dead workers (\<^verbatim>\<open>heartbeat_detector.go\<close>, \<^verbatim>\<open>heartbeat_monitor.go\<close>).
  The monitor works on the registry, on the lease manager and, through the callback that
  \<^verbatim>\<open>SetOnWorkerLost\<close> installs, on the rest of the control plane: \<open>'x world\<close> holds the three.
  What the monitor needs of the callback is the locale \<open>lost_callback\<close>; the theory of worker
  failures interprets it with the handler that \<^verbatim>\<open>cmd/server/main.go\<close> installs.
\<close>

section \<open>Definitions\<close>

record 'x world =
  w_registry :: registry
  w_leases :: lease_manager
  w_rest :: 'x

type_synonym 'x lost_cb = "WorkerID \<Rightarrow> string list \<Rightarrow> 'x world \<Rightarrow> 'x world"

text \<open>A nil registry pointer is \<open>None\<close>.\<close>

definition DetectLostWorkers :: "int \<Rightarrow> int \<Rightarrow> registry option \<Rightarrow> registry_error + WorkerID list" where
  "DetectLostWorkers now timeoutMs ro =
     (case ro of
        None \<Rightarrow> Inl ErrRegistryClosed
      | Some r \<Rightarrow> Inr (map wi_WorkerID (filter (\<lambda>w. now - wi_LastHeartbeat w > timeoutMs) (ListWorkers r))))"

definition handleDeadWorker :: "int \<Rightarrow> 'x lost_cb option \<Rightarrow> WorkerID \<Rightarrow> 'x world \<Rightarrow> 'x world" where
  "handleDeadWorker nowMs onWorkerLost workerID w =
     (let affectedRunIDs = ListWorkerRunIDs workerID (w_leases w);
          w1 = w\<lparr>w_leases := snd (RevokeWorkerLeases nowMs workerID (w_leases w))\<rparr>
      in case RemoveWorker workerID (w_registry w1) of
           (Some _, _) \<Rightarrow> w1
         | (None, r) \<Rightarrow>
             let w2 = w1\<lparr>w_registry := r\<rparr>
             in case onWorkerLost of None \<Rightarrow> w2 | Some cb \<Rightarrow> cb workerID affectedRunIDs w2)"

text \<open>\<open>clk i\<close> is the clock reading made for the \<open>i\<close>-th dead worker.\<close>

fun handle_dead_workers :: "(nat \<Rightarrow> int) \<Rightarrow> 'x lost_cb option \<Rightarrow> WorkerID list \<Rightarrow> 'x world \<Rightarrow> 'x world" where
  "handle_dead_workers clk cb [] w = w"
| "handle_dead_workers clk cb (wid # wids) w =
     handle_dead_workers (\<lambda>i. clk (Suc i)) cb wids (handleDeadWorker (clk 0) cb wid w)"

definition checkWorkers :: "int \<Rightarrow> int \<Rightarrow> (nat \<Rightarrow> int) \<Rightarrow> int \<Rightarrow> 'x lost_cb option \<Rightarrow> 'x world \<Rightarrow> 'x world" where
  "checkWorkers timeoutMs now clk expireNow onWorkerLost w =
     (case DetectLostWorkers now timeoutMs (Some (w_registry w)) of
        Inl _ \<Rightarrow> w
      | Inr deadWorkers \<Rightarrow>
          let w1 = handle_dead_workers clk onWorkerLost deadWorkers w
          in w1\<lparr>w_leases := snd (ExpireLeases expireNow (w_leases w1))\<rparr>)"

section \<open>Facts about one dead worker\<close>

definition active_workers :: "lease_manager \<Rightarrow> WorkerID set" where
  "active_workers lm = l_WorkerID ` {l \<in> set (map snd (leases lm)). l_State l = LeaseStateActive}"

definition registered :: "registry \<Rightarrow> WorkerID set" where
  "registered r = fst ` set (workers r)"

lemma active_workers_on_leases: "(\<And>l. sel l \<Longrightarrow> l_State (f l) \<noteq> LeaseStateActive) \<Longrightarrow>
    active_workers (on_leases sel f lm) = l_WorkerID ` {l \<in> set (map snd (leases lm)). l_State l = LeaseStateActive \<and> \<not> sel l}"
  by (force simp: active_workers_def on_leases_def)

lemma active_workers_revoke: "active_workers (RevokeWorkerLeases_locked now wid lm) = active_workers lm - {wid}"
  by (subst RevokeWorkerLeases_locked_def, subst active_workers_on_leases)
    (auto simp: revoke_at_def active_workers_def)

lemma active_workers_expire: "active_workers (snd (ExpireLeases now lm)) \<subseteq> active_workers lm"
  by (simp add: ExpireLeases_def active_workers_on_leases) (auto simp: active_workers_def)

lemma map_del_filter: "map_del k m = filter (\<lambda>p. fst p \<noteq> k) m"
  by (auto simp: AList.delete_eq intro: filter_cong)

locale lost_callback =
  fixes cb :: "'x lost_cb"
  assumes cb_registry: "w_registry (cb wid runs w) = w_registry w"
    and cb_closed: "lm_closed (w_leases (cb wid runs w)) = lm_closed (w_leases w)"
    and cb_workers: "registry_inv (w_registry w) \<Longrightarrow>
      active_workers (w_leases (cb wid runs w)) \<subseteq> active_workers (w_leases w) \<union> registered (w_registry w)"
begin

lemma handle_one:
  assumes "\<not> reg_closed (w_registry w)" and "\<not> lm_closed (w_leases w)"
    and "wid \<in> registered (w_registry w)" and "registry_inv (w_registry w)"
  shows "w_registry (handleDeadWorker now (Some cb) wid w)
        = (w_registry w)\<lparr>workers := filter (\<lambda>p. fst p \<noteq> wid) (workers (w_registry w))\<rparr>
     \<and> registry_inv (w_registry (handleDeadWorker now (Some cb) wid w))
     \<and> \<not> lm_closed (w_leases (handleDeadWorker now (Some cb) wid w))
     \<and> active_workers (w_leases (handleDeadWorker now (Some cb) wid w))
        \<subseteq> (active_workers (w_leases w) \<union> registered (w_registry w)) - {wid}"
proof -
  let ?lm = "RevokeWorkerLeases_locked now wid (w_leases w)"
  let ?r = "(w_registry w)\<lparr>workers := map_del wid (workers (w_registry w))\<rparr>"
  let ?w = "w\<lparr>w_leases := ?lm, w_registry := ?r\<rparr>"
  from assms have rem: "RemoveWorker wid (w_registry w) = (None, ?r)"
    by (auto simp: RemoveWorker_def registered_def split: option.split dest: weak_map_of_SomeI)
  with registry_step_inv [OF assms(4) registry_step.remove [of _ wid]] have inv: "registry_inv ?r" by simp
  from rem assms(2) have h: "handleDeadWorker now (Some cb) wid w
      = cb wid (ListWorkerRunIDs wid (w_leases w)) ?w"
    by (simp add: handleDeadWorker_def RevokeWorkerLeases_def Let_def)
  have "registered ?r \<subseteq> registered (w_registry w) - {wid}"
    by (auto simp: registered_def map_del_filter)
  with cb_workers [of ?w wid "ListWorkerRunIDs wid (w_leases w)"] inv
  have "active_workers (w_leases (handleDeadWorker now (Some cb) wid w))
        \<subseteq> (active_workers (w_leases w) \<union> registered (w_registry w)) - {wid}"
    by (auto simp: h active_workers_revoke)
  moreover have "w_registry (handleDeadWorker now (Some cb) wid w)
        = (w_registry w)\<lparr>workers := filter (\<lambda>p. fst p \<noteq> wid) (workers (w_registry w))\<rparr>"
    by (simp add: h cb_registry map_del_filter)
  moreover have "registry_inv (w_registry (handleDeadWorker now (Some cb) wid w))" using inv by (simp add: h cb_registry)
  moreover have "\<not> lm_closed (w_leases (handleDeadWorker now (Some cb) wid w))"
    using assms(2) by (simp add: h cb_closed bulk_defs on_leases_def)
  ultimately show ?thesis by blast
qed

lemma handle_all:
  assumes "\<not> reg_closed (w_registry w)" and "\<not> lm_closed (w_leases w)"
    and "distinct wids" and "set wids \<subseteq> registered (w_registry w)"
    and "active_workers (w_leases w) \<inter> gone = {}" and "registered (w_registry w) \<inter> gone = {}"
    and "registry_inv (w_registry w)"
  shows "w_registry (handle_dead_workers clk (Some cb) wids w)
        = (w_registry w)\<lparr>workers := filter (\<lambda>p. fst p \<notin> set wids) (workers (w_registry w))\<rparr>
     \<and> active_workers (w_leases (handle_dead_workers clk (Some cb) wids w)) \<inter> (gone \<union> set wids) = {}"
  using assms
proof (induction wids arbitrary: clk w gone)
  case (Cons wid wids)
  let ?w = "handleDeadWorker (clk 0) (Some cb) wid w"
  from Cons.prems have wid: "wid \<in> registered (w_registry w)" by simp
  note one = handle_one [OF Cons.prems(1,2) wid Cons.prems(7), of "clk 0"]
  have reg: "registered (w_registry ?w) = registered (w_registry w) - {wid}"
    using one by (force simp: registered_def)
  have "w_registry (handle_dead_workers (\<lambda>i. clk (Suc i)) (Some cb) wids ?w)
        = (w_registry ?w)\<lparr>workers := filter (\<lambda>p. fst p \<notin> set wids) (workers (w_registry ?w))\<rparr>
     \<and> active_workers (w_leases (handle_dead_workers (\<lambda>i. clk (Suc i)) (Some cb) wids ?w))
        \<inter> (insert wid gone \<union> set wids) = {}"
    using Cons.prems one reg by (intro Cons.IH) auto
  with one show ?case by (auto simp: filter_filter intro: filter_cong)
qed simp

end

end
