(* ===== verification/Run_Manager.thy ===== *)
theory Run_Manager
  imports Run_Config Sched_Heartbeat
begin

text \<open>
  The state of the run manager and the operations of \<^verbatim>\<open>manager.go\<close> that create, start, stop and
  finalize runs.

  Every critical section (a stretch of code under \<^verbatim>\<open>rm.mu\<close>) is one definition, and an operation is the
  composition of its sections. The state holds what the code shares: the runs and their logs, the
  scheduler components, what was handed to the assignment sender and to the telemetry store, the
  contexts, channels and timers created so far (numbered, with the cancelled, closed and stopped ones),
  and the goroutines started and not yet finished. \<open>rm_now\<close> is the clock in nanoseconds; it stands still
  within a section. \<open>rm_panic\<close> records a run-time panic: closing a closed channel, or writing to a nil
  event log.
\<close>

section \<open>Data\<close>

datatype StopMode = StopModeDrain | StopModeImmediate

fun stop_mode_name :: "StopMode \<Rightarrow> string" where
  "stop_mode_name StopModeDrain = ''drain''"
| "stop_mode_name StopModeImmediate = ''immediate''"

record StopReason =
  sr_Mode :: StopMode
  sr_Reason :: string
  sr_Actor :: string
  sr_AtMs :: int

record ActiveStageInfo =
  ai_Stage :: string
  ai_StageID :: string

record RunRecord =
  rr_RunID :: string
  rr_ExecutionID :: string
  rr_State :: RunState
  rr_ConfigHash :: string
  rr_ScenarioID :: string
  rr_CreatedAtMs :: int
  rr_UpdatedAtMs :: int
  rr_ActiveStage :: "ActiveStageInfo option"
  rr_StopReason :: "StopReason option"
  rr_Actor :: string
  rr_Config :: raw_config
  rr_progressionCancel :: "nat option"
  rr_progressionTimers :: "nat list"
  rr_stopConditionsCancel :: "nat option"
  rr_rampCancel :: "nat option"
  rr_drainCancel :: "nat option"
  rr_immediateStop :: bool

text \<open>
  Goroutines. A finalizer is where its code is: not started, waiting for the drain timer or the
  channel, sleeping after an emergency stop, past the wait, about to complete the run, about to start
  the analysis. The other three are described by the arguments they close over.
\<close>

datatype finalizer_pc = FinStart int | FinWait nat | FinSleep | FinCheck | FinComplete | FinAnalyze

datatype goroutine =
    GoFinalize string string finalizer_pc
  | GoProgress nat string parsedRunConfig string
  | GoRamp nat string string parsedStage parsedRunConfig
  | GoEvaluate nat string parsedStage
  | GoAnalyze string

record run_manager =
  rm_runs :: "(string, RunRecord) gomap"
  rm_eventLogs :: "(string, EventLog) gomap"
  rm_hasRegistry :: bool
  rm_hasAllocator :: bool
  rm_hasLeaseManager :: bool
  rm_hasSender :: bool
  rm_registry :: registry
  rm_leases :: lease_manager
  rm_sent :: "(WorkerID \<times> WorkerAssignment) list"
  rm_hasTelemetry :: bool
  rm_hasArtifacts :: bool
  rm_metadata :: "(string \<times> string \<times> string) list"
  rm_runIDCounter :: nat
  rm_exeIDCounter :: nat
  rm_eventIDCounter :: nat
  rm_now :: nat
  rm_shutdown :: bool
  rm_nextCtx :: nat
  rm_cancelled :: "nat list"
  rm_nextChan :: nat
  rm_closedChans :: "nat list"
  rm_nextTimer :: nat
  rm_stoppedTimers :: "nat list"
  rm_go :: "goroutine list"
  rm_panic :: bool

definition NewRunManager :: "nat \<Rightarrow> registry \<Rightarrow> lease_manager \<Rightarrow> run_manager" where
  "NewRunManager now reg lm =
     \<lparr>rm_runs = [], rm_eventLogs = [], rm_hasRegistry = False, rm_hasAllocator = False,
      rm_hasLeaseManager = False, rm_hasSender = False, rm_registry = reg, rm_leases = lm, rm_sent = [],
      rm_hasTelemetry = False, rm_hasArtifacts = False, rm_metadata = [], rm_runIDCounter = 0,
      rm_exeIDCounter = 0, rm_eventIDCounter = 0, rm_now = now, rm_shutdown = False, rm_nextCtx = 0,
      rm_cancelled = [], rm_nextChan = 0, rm_closedChans = [], rm_nextTimer = 0, rm_stoppedTimers = [],
      rm_go = [], rm_panic = False\<rparr>"

definition Shutdown :: "run_manager \<Rightarrow> run_manager" where
  "Shutdown rm = rm\<lparr>rm_shutdown := True\<rparr>"

text \<open>The components are shared with the rest of the server; the setters make them known here.\<close>

definition SetScheduler :: "bool \<Rightarrow> bool \<Rightarrow> bool \<Rightarrow> run_manager \<Rightarrow> run_manager" where
  "SetScheduler registry allocator leaseManager rm =
     rm\<lparr>rm_hasRegistry := registry, rm_hasAllocator := allocator, rm_hasLeaseManager := leaseManager\<rparr>"

definition SetAssignmentSender :: "bool \<Rightarrow> run_manager \<Rightarrow> run_manager" where
  "SetAssignmentSender sender rm = rm\<lparr>rm_hasSender := sender\<rparr>"

definition SetArtifactStore :: "bool \<Rightarrow> run_manager \<Rightarrow> run_manager" where
  "SetArtifactStore store rm = rm\<lparr>rm_hasArtifacts := store\<rparr>"

definition SetTelemetryStore :: "bool \<Rightarrow> run_manager \<Rightarrow> run_manager" where
  "SetTelemetryStore store rm = rm\<lparr>rm_hasTelemetry := store\<rparr>"

text \<open>What the run manager is given: the validator (None when nil), the digest, the order in which a map
  is ranged over, \<^verbatim>\<open>sort.Slice\<close>, and the text of a float under \<^verbatim>\<open>%v\<close> and \<^verbatim>\<open>%.Nf\<close>.\<close>

record environment =
  env_validator :: "(raw_config \<Rightarrow> bool) option"
  env_sha256 :: "string \<Rightarrow> string"
  env_range :: "(WorkerID \<times> Assignment) list \<Rightarrow> (WorkerID \<times> Assignment) list"
  env_sort :: "workerCapacity list \<Rightarrow> workerCapacity list"
  env_fmtV :: "real \<Rightarrow> string"
  env_fmtFixed :: "nat \<Rightarrow> real \<Rightarrow> string"

section \<open>Primitives\<close>

definition now_ms :: "run_manager \<Rightarrow> nat" where
  "now_ms rm = rm_now rm div 1000000"

abbreviation get_run :: "run_manager \<Rightarrow> string \<Rightarrow> RunRecord option" where
  "get_run rm runID \<equiv> map_get (rm_runs rm) runID"

definition upd_run :: "string \<Rightarrow> (RunRecord \<Rightarrow> RunRecord) \<Rightarrow> run_manager \<Rightarrow> run_manager" where
  "upd_run runID f rm = rm\<lparr>rm_runs := map_upd runID f (rm_runs rm)\<rparr>"

definition spawn :: "goroutine \<Rightarrow> run_manager \<Rightarrow> run_manager" where
  "spawn g rm = rm\<lparr>rm_go := rm_go rm @ [g]\<rparr>"

definition new_ctx :: "run_manager \<Rightarrow> nat \<times> run_manager" where
  "new_ctx rm = (rm_nextCtx rm, rm\<lparr>rm_nextCtx := rm_nextCtx rm + 1\<rparr>)"

fun cancel_ctx :: "nat option \<Rightarrow> run_manager \<Rightarrow> run_manager" where
  "cancel_ctx None rm = rm"
| "cancel_ctx (Some c) rm = rm\<lparr>rm_cancelled := c # rm_cancelled rm\<rparr>"

definition ctx_done :: "nat \<Rightarrow> run_manager \<Rightarrow> bool" where
  "ctx_done c rm \<longleftrightarrow> rm_shutdown rm \<or> c \<in> set (rm_cancelled rm)"

definition new_chan :: "run_manager \<Rightarrow> nat \<times> run_manager" where
  "new_chan rm = (rm_nextChan rm, rm\<lparr>rm_nextChan := rm_nextChan rm + 1\<rparr>)"

definition close_chan :: "nat \<Rightarrow> run_manager \<Rightarrow> run_manager" where
  "close_chan c rm =
     (if c \<in> set (rm_closedChans rm) then rm\<lparr>rm_panic := True\<rparr>
      else rm\<lparr>rm_closedChans := c # rm_closedChans rm\<rparr>)"

definition stop_timers :: "nat list \<Rightarrow> run_manager \<Rightarrow> run_manager" where
  "stop_timers ts rm = rm\<lparr>rm_stoppedTimers := rev ts @ rm_stoppedTimers rm\<rparr>"

text \<open>\<^verbatim>\<open>appendEventWithLog\<close>: the log of a run is never replaced, so the pointer the caller holds is the
  entry of the map. A rejected event is only logged to the console.\<close>

definition appendEventWithLog :: "string \<Rightarrow> RunEvent \<Rightarrow> run_manager \<Rightarrow> run_manager" where
  "appendEventWithLog runID event rm =
     (case map_get (rm_eventLogs rm) runID of
        None \<Rightarrow> if validate_event event = None then rm\<lparr>rm_panic := True\<rparr> else rm
      | Some el \<Rightarrow>
          let (err, counter, el1) = Append (now_ms rm) event (rm_eventIDCounter rm) el
          in rm\<lparr>rm_eventLogs := map_upd runID (\<lambda>_. el1) (rm_eventLogs rm), rm_eventIDCounter := counter\<rparr>)"

definition SetRunMetadata :: "string \<Rightarrow> string \<Rightarrow> string \<Rightarrow> run_manager \<Rightarrow> run_manager" where
  "SetRunMetadata runID scenarioID stopReason rm =
     rm\<lparr>rm_metadata := rm_metadata rm @ [(runID, scenarioID, stopReason)]\<rparr>"

abbreviation js_state :: "RunState \<Rightarrow> json" where
  "js_state s \<equiv> JStr (run_state_name s)"

text \<open>The payload of a state transition (keys sorted), and the event that carries it.\<close>

definition transition_event :: "string \<Rightarrow> string \<Rightarrow> ActorType \<Rightarrow> RunState \<Rightarrow> RunState \<Rightarrow> string \<Rightarrow> Evidence list \<Rightarrow> RunEvent" where
  "transition_event runID executionID actor from to trigger evidence =
     mk_event runID executionID EventTypeStateTransition actor no_correlation
       [(''actor'', JStr actor), (''from_state'', js_state from), (''to_state'', js_state to),
        (''trigger'', JStr trigger)] evidence"

section \<open>Creating a run\<close>

definition generateRunID :: "run_manager \<Rightarrow> string \<times> run_manager" where
  "generateRunID rm =
     (let counter = rm_runIDCounter rm + 1;
          suffix = hex_pad 16 (rm_now rm) @ hex_pad 4 (counter mod 65536)
      in (''run_'' @ suffix, rm\<lparr>rm_runIDCounter := counter\<rparr>))"

definition generateExecutionID :: "run_manager \<Rightarrow> string \<times> run_manager" where
  "generateExecutionID rm =
     (let counter = rm_exeIDCounter rm + 1;
          suffix = hex_pad 12 (rm_now rm mod 281474976710656) @ hex_pad 4 (counter mod 65536)
      in (''exe_'' @ suffix, rm\<lparr>rm_exeIDCounter := counter\<rparr>))"

definition computeConfigHash :: "environment \<Rightarrow> raw_config \<Rightarrow> string" where
  "computeConfigHash E config =
     env_sha256 E (case config of NilConfig \<Rightarrow> [] | Config bs _ \<Rightarrow> bs)"

definition extractScenarioID :: "raw_config \<Rightarrow> string" where
  "extractScenarioID config =
     (case config of
        Config bs (Some (JObj kvs)) \<Rightarrow> (case map_of (rev kvs) ''scenario_id'' of Some (JStr s) \<Rightarrow> s | _ \<Rightarrow> [])
      | _ \<Rightarrow> [])"

definition ValidateRunConfig :: "environment \<Rightarrow> raw_config \<Rightarrow> bool" where
  "ValidateRunConfig E config = (case env_validator E of None \<Rightarrow> False | Some v \<Rightarrow> v config)"

text \<open>The critical section of \<^verbatim>\<open>CreateRun\<close>.\<close>

definition insert_run :: "RunRecord \<Rightarrow> run_manager \<Rightarrow> run_manager" where
  "insert_run record rm =
     rm\<lparr>rm_runs := map_put (rr_RunID record) record (rm_runs rm),
        rm_eventLogs := map_put (rr_RunID record) NewEventLog (rm_eventLogs rm)\<rparr>"

definition new_record :: "environment \<Rightarrow> string \<Rightarrow> string \<Rightarrow> raw_config \<Rightarrow> string \<Rightarrow> int \<Rightarrow> RunRecord" where
  "new_record E runID executionID config actor nowMs =
     \<lparr>rr_RunID = runID, rr_ExecutionID = executionID, rr_State = RunStateCreated,
      rr_ConfigHash = computeConfigHash E config, rr_ScenarioID = extractScenarioID config,
      rr_CreatedAtMs = nowMs, rr_UpdatedAtMs = nowMs, rr_ActiveStage = None, rr_StopReason = None,
      rr_Actor = actor, rr_Config = config, rr_progressionCancel = None, rr_progressionTimers = [],
      rr_stopConditionsCancel = None, rr_rampCancel = None, rr_drainCancel = None, rr_immediateStop = False\<rparr>"

definition CreateRun :: "environment \<Rightarrow> raw_config \<Rightarrow> string \<Rightarrow> run_manager \<Rightarrow> (run_error + string) \<times> run_manager" where
  "CreateRun E config actor rm =
     (if \<not> ValidateRunConfig E config then (Inl ValidationError, rm)
      else
        let (runID, rm1) = generateRunID rm;
            (executionID, rm2) = generateExecutionID rm1;
            record = new_record E runID executionID config actor (int (now_ms rm2));
            rm3 = insert_run record rm2;
            event = mk_event runID executionID EventTypeRunCreated actor no_correlation
              [(''actor'', JStr actor), (''config_hash'', JStr (rr_ConfigHash record)),
               (''scenario_id'', JStr (rr_ScenarioID record))] []
        in (Inr runID, appendEventWithLog runID event rm3))"

section \<open>Starting a run: its critical sections\<close>

definition start_check :: "string \<Rightarrow> run_manager \<Rightarrow> run_error + (raw_config \<times> string)" where
  "start_check runID rm =
     (case get_run rm runID of
        None \<Rightarrow> Inl (NewNotFoundError runID)
      | Some record \<Rightarrow>
          if rr_State record \<noteq> RunStateCreated
          then Inl (NewInvalidStateError runID (rr_State record) RunStateCreated ''start'')
          else if \<not> CanTransition (rr_State record) RunStatePreflightRunning
          then Inl (NewInvalidTransitionError runID (rr_State record) RunStatePreflightRunning)
          else Inr (rr_Config record, rr_ExecutionID record))"

definition start_commit :: "string \<Rightarrow> string \<Rightarrow> string \<Rightarrow> run_manager \<Rightarrow> run_error option \<times> run_manager" where
  "start_commit runID executionID actor rm =
     (case get_run rm runID of
        None \<Rightarrow> (Some (NewNotFoundError runID), rm)
      | Some record \<Rightarrow>
          if rr_State record \<noteq> RunStateCreated
          then (Some (PlainError (''run state changed during allocation: '' @ run_state_name (rr_State record))), rm)
          else
            let rm1 = upd_run runID (\<lambda>r. r\<lparr>rr_State := RunStatePreflightRunning, rr_UpdatedAtMs := int (now_ms rm)\<rparr>) rm;
                event = transition_event runID executionID actor (rr_State record) RunStatePreflightRunning ''start_run'' []
            in (None, appendEventWithLog runID event rm1))"

definition transitionToFailedFromCreated :: "string \<Rightarrow> string \<Rightarrow> string \<Rightarrow> string \<Rightarrow> run_manager \<Rightarrow> run_manager" where
  "transitionToFailedFromCreated runID executionID actor reason rm =
     (case get_run rm runID of
        None \<Rightarrow> rm
      | Some record \<Rightarrow>
          if rr_State record \<noteq> RunStateCreated then rm
          else
            let rm1 = upd_run runID (\<lambda>r. r\<lparr>rr_State := RunStateFailed, rr_UpdatedAtMs := int (now_ms rm)\<rparr>) rm;
                event = transition_event runID executionID actor (rr_State record) RunStateFailed reason
                  [\<lparr>evi_Kind = ''reason'', evi_Ref = reason, evi_Note = None\<rparr>]
            in appendEventWithLog runID event rm1)"

section \<open>Stopping a run\<close>

definition cancelStageProgressionLocked :: "string \<Rightarrow> run_manager \<Rightarrow> run_manager" where
  "cancelStageProgressionLocked runID rm =
     (case get_run rm runID of
        None \<Rightarrow> rm
      | Some record \<Rightarrow>
          let rm1 = cancel_ctx (rr_progressionCancel record) rm;
              rm2 = cancel_ctx (rr_rampCancel record) rm1;
              rm3 = stop_timers (rr_progressionTimers record) rm2
          in upd_run runID (\<lambda>r. r\<lparr>rr_progressionCancel := None, rr_rampCancel := None, rr_progressionTimers := []\<rparr>) rm3)"

definition stopStopConditionEvaluatorLocked :: "string \<Rightarrow> run_manager \<Rightarrow> run_manager" where
  "stopStopConditionEvaluatorLocked runID rm =
     (case get_run rm runID of
        None \<Rightarrow> rm
      | Some record \<Rightarrow>
          upd_run runID (\<lambda>r. r\<lparr>rr_stopConditionsCancel := None\<rparr>) (cancel_ctx (rr_stopConditionsCancel record) rm))"

text \<open>Entering \<open>stopping\<close> creates the channel that ends the drain early, unless there is one.\<close>

definition init_drainCancel :: "string \<Rightarrow> run_manager \<Rightarrow> run_manager" where
  "init_drainCancel runID rm =
     (case get_run rm runID of
        None \<Rightarrow> rm
      | Some record \<Rightarrow>
          if rr_drainCancel record \<noteq> None then rm
          else let (c, rm1) = new_chan rm in upd_run runID (\<lambda>r. r\<lparr>rr_drainCancel := Some c\<rparr>) rm1)"

definition close_drainCancel :: "string \<Rightarrow> run_manager \<Rightarrow> run_manager" where
  "close_drainCancel runID rm =
     (case get_run rm runID of
        None \<Rightarrow> rm
      | Some record \<Rightarrow>
          (case rr_drainCancel record of
             None \<Rightarrow> rm
           | Some c \<Rightarrow> upd_run runID (\<lambda>r. r\<lparr>rr_drainCancel := None\<rparr>) (close_chan c rm)))"

definition nonNilEvidence :: "Evidence list option \<Rightarrow> Evidence list" where
  "nonNilEvidence evidence = (case evidence of None \<Rightarrow> [] | Some es \<Rightarrow> es)"

definition requestStopWithReason :: "string \<Rightarrow> StopMode \<Rightarrow> string \<Rightarrow> string \<Rightarrow> Evidence list option
    \<Rightarrow> run_manager \<Rightarrow> run_error option \<times> run_manager" where
  "requestStopWithReason runID mode actor reason evidence rm =
     (case get_run rm runID of
        None \<Rightarrow> (Some (NewNotFoundError runID), rm)
      | Some record \<Rightarrow>
          if rr_State record = RunStateCompleted \<or> rr_State record = RunStateFailed \<or> rr_State record = RunStateAborted
          then (Some (NewTerminalStateError runID (rr_State record) ''stop''), rm)
          else
            let rm1 = stopStopConditionEvaluatorLocked runID (cancelStageProgressionLocked runID rm);
                exe = rr_ExecutionID record
            in if rr_State record = RunStateStopping then
                 (None, appendEventWithLog runID (mk_event runID exe EventTypeDecision actor no_correlation
                    [(''actor'', JStr actor), (''decision_type'', JStr ''stop_trigger_ignored''),
                     (''reason'', JStr ''already_stopping'')] []) rm1)
               else if \<not> CanTransition (rr_State record) RunStateStopping then
                 (Some (NewInvalidTransitionError runID (rr_State record) RunStateStopping), rm1)
               else
                 let now = int (now_ms rm);
                     rm2 = upd_run runID (\<lambda>r. r\<lparr>rr_State := RunStateStopping, rr_UpdatedAtMs := now,
                             rr_StopReason := Some \<lparr>sr_Mode = mode, sr_Reason = reason, sr_Actor = actor, sr_AtMs = now\<rparr>\<rparr>) rm1;
                     rm3 = init_drainCancel runID rm2;
                     rm4 = appendEventWithLog runID (mk_event runID exe EventTypeStopRequested actor no_correlation
                             [(''actor'', JStr actor), (''mode'', JStr (stop_mode_name mode)), (''reason'', JStr reason)]
                             (nonNilEvidence evidence)) rm3;
                     rm5 = appendEventWithLog runID (transition_event runID exe actor (rr_State record)
                             RunStateStopping ''stop_requested'' []) rm4;
                     rm6 = (if rm_hasTelemetry rm5 then SetRunMetadata runID [] reason rm5 else rm5)
                 in (None, spawn (GoFinalize runID actor (FinStart (getDrainTimeout (rr_Config record)))) rm6))"

definition RequestStop :: "string \<Rightarrow> StopMode \<Rightarrow> string \<Rightarrow> run_manager \<Rightarrow> run_error option \<times> run_manager" where
  "RequestStop runID mode actor rm = requestStopWithReason runID mode actor ''stop_requested'' None rm"

definition EmergencyStop :: "string \<Rightarrow> string \<Rightarrow> run_manager \<Rightarrow> run_error option \<times> run_manager" where
  "EmergencyStop runID actor rm =
     (case get_run rm runID of
        None \<Rightarrow> (Some (NewNotFoundError runID), rm)
      | Some record \<Rightarrow>
          if rr_State record = RunStateCompleted \<or> rr_State record = RunStateFailed \<or> rr_State record = RunStateAborted
          then (Some (NewTerminalStateError runID (rr_State record) ''emergency-stop''), rm)
          else
            let rm1 = cancelStageProgressionLocked runID rm;
                exe = rr_ExecutionID record;
                now = int (now_ms rm);
                why = \<lparr>sr_Mode = StopModeImmediate, sr_Reason = ''emergency_stop'', sr_Actor = actor, sr_AtMs = now\<rparr>
            in if rr_State record = RunStateStopping then
                 let rm2 = appendEventWithLog runID (mk_event runID exe EventTypeDecision actor no_correlation
                       [(''actor'', JStr actor), (''decision_type'', JStr ''stop_trigger_resolution''),
                        (''details'', JObj [(''escalated'', JBool True)])] []) rm1;
                     rm3 = upd_run runID (\<lambda>r. r\<lparr>rr_StopReason := Some why, rr_UpdatedAtMs := now, rr_immediateStop := True\<rparr>) rm2
                 in (None, close_drainCancel runID rm3)
               else if \<not> CanTransition (rr_State record) RunStateStopping then
                 (Some (NewInvalidTransitionError runID (rr_State record) RunStateStopping), rm1)
               else
                 let rm2 = upd_run runID (\<lambda>r. r\<lparr>rr_State := RunStateStopping, rr_UpdatedAtMs := now, rr_StopReason := Some why\<rparr>) rm1;
                     rm3 = appendEventWithLog runID (mk_event runID exe EventTypeEmergencyStop actor no_correlation
                             [(''actor'', JStr actor), (''reason'', JStr ''emergency_stop'')] []) rm2;
                     rm4 = appendEventWithLog runID (transition_event runID exe actor (rr_State record)
                             RunStateStopping ''emergency_stop'' []) rm3;
                     rm5 = (if rm_hasTelemetry rm4 then SetRunMetadata runID [] ''emergency_stop'' rm4 else rm4)
                 in (None, spawn (GoFinalize runID actor (FinStart 0)) rm5))"

section \<open>Finalizing a run: the sections before the analysis\<close>

text \<open>The first section of \<^verbatim>\<open>finalizeRun\<close>, which runs when there is a drain timeout; None: the run is
  gone and the goroutine ends.\<close>

definition finalize_begin :: "string \<Rightarrow> run_manager \<Rightarrow> (nat \<times> run_manager) option" where
  "finalize_begin runID rm =
     (case get_run rm runID of
        None \<Rightarrow> None
      | Some record \<Rightarrow>
          let rm1 = init_drainCancel runID rm
          in case get_run rm1 runID of
               None \<Rightarrow> None
             | Some record1 \<Rightarrow> (case rr_drainCancel record1 of None \<Rightarrow> None | Some c \<Rightarrow> Some (c, rm1)))"

text \<open>What a cancelled drain does next: sleep after an emergency stop, go on otherwise.\<close>

definition is_immediate_stop :: "string \<Rightarrow> run_manager \<Rightarrow> bool" where
  "is_immediate_stop runID rm = (case get_run rm runID of None \<Rightarrow> False | Some r \<Rightarrow> rr_immediateStop r)"

text \<open>The section after the wait decides how the run ends; None: it is no longer stopping.\<close>

definition finalize_check :: "string \<Rightarrow> run_manager \<Rightarrow> finalizer_pc option" where
  "finalize_check runID rm =
     (case get_run rm runID of
        None \<Rightarrow> None
      | Some record \<Rightarrow>
          if rr_State record \<noteq> RunStateStopping then None
          else if \<not> rm_hasTelemetry rm \<or> \<not> rm_hasArtifacts rm then Some FinComplete
          else Some FinAnalyze)"

definition transitionToCompleted :: "string \<Rightarrow> string \<Rightarrow> string \<Rightarrow> run_manager \<Rightarrow> run_manager" where
  "transitionToCompleted runID actor reason rm =
     (case get_run rm runID of
        None \<Rightarrow> rm
      | Some record \<Rightarrow>
          if rr_State record \<noteq> RunStateStopping then rm
          else
            let rm1 = upd_run runID (\<lambda>r. r\<lparr>rr_State := RunStateCompleted, rr_UpdatedAtMs := int (now_ms rm)\<rparr>) rm
            in appendEventWithLog runID (transition_event runID (rr_ExecutionID record) actor (rr_State record)
                 RunStateCompleted reason []) rm1)"

end
