(* ===== verification/Run_Dispatch.thy ===== *)
theory Run_Dispatch
  imports Run_Manager
begin

text \<open>
  From an allocation to leases and assignments (\<^verbatim>\<open>internal/controlplane/runmanager/dispatch.go\<close>). The
  loops range over the map of assignments in an order Go does not specify: \<open>env_range\<close>. The details of
  an event about a configuration that does not parse stop before the text of \<^verbatim>\<open>encoding/json\<close>'s error.
\<close>

section \<open>Definitions\<close>

fun registry_error_text :: "registry_error \<Rightarrow> string" where
  "registry_error_text ErrWorkerNotFound = ''worker not found''"
| "registry_error_text ErrRegistryClosed = ''registry is closed''"

fun alloc_error_text :: "alloc_error \<Rightarrow> string" where
  "alloc_error_text ErrNoWorkersAvailable = ''no workers available''"
| "alloc_error_text ErrInsufficientCapacity = ''insufficient total capacity for target VUs''"
| "alloc_error_text ErrInvalidTargetVUs = ''target VUs must be greater than 0''"
| "alloc_error_text ErrWorkerNotInRegistry = ''worker not found in registry''"
| "alloc_error_text (AllocRegistryError e) = registry_error_text e"

fun lease_error_text :: "lease_error \<Rightarrow> string" where
  "lease_error_text ErrLeaseNotFound = ''lease not found''"
| "lease_error_text ErrLeaseRevoked = ''lease is revoked''"
| "lease_error_text ErrLeaseExpired = ''lease is expired''"
| "lease_error_text ErrVUIDRangeOverlap = ''vu_id_range overlaps with existing active lease''"
| "lease_error_text ErrLeaseManagerClosed = ''lease manager is closed''"

definition emitAllocationFailedEvent :: "string \<Rightarrow> string \<Rightarrow> string \<Rightarrow> string \<Rightarrow> run_manager \<Rightarrow> run_manager" where
  "emitAllocationFailedEvent runID executionID reason details =
     appendEventWithLog runID (mk_event runID executionID EventTypeAllocationFailed ActorScheduler no_correlation
       [(''details'', JStr details), (''reason'', JStr reason)] [])"

definition emitWorkerAssignedEvent :: "string \<Rightarrow> string \<Rightarrow> string \<Rightarrow> string \<Rightarrow> int \<Rightarrow> int \<Rightarrow> string \<Rightarrow> StageName
    \<Rightarrow> run_manager \<Rightarrow> run_manager" where
  "emitWorkerAssignedEvent runID executionID workerID leaseID vuStart vuEnd stageID stageName =
     appendEventWithLog runID (mk_event runID executionID EventTypeWorkerAssigned ActorScheduler
       (no_correlation\<lparr>co_Stage := Some stageName, co_StageID := Some stageID, co_WorkerID := Some workerID\<rparr>)
       [(''lease_id'', JStr leaseID), (''stage_id'', JStr stageID), (''vu_end'', JInt vuEnd),
        (''vu_start'', JInt vuStart), (''worker_id'', JStr workerID)] [])"

definition emitRampStepEvent :: "string \<Rightarrow> string \<Rightarrow> int \<Rightarrow> int \<Rightarrow> int \<Rightarrow> string \<Rightarrow> run_manager \<Rightarrow> run_manager" where
  "emitRampStepEvent runID executionID step currentVUs targetVUs trigger =
     appendEventWithLog runID (mk_event runID executionID EventTypeDecision ActorAutoramp
       (no_correlation\<lparr>co_Stage := Some StageNameRamp\<rparr>)
       [(''current_vus'', JInt currentVUs), (''step'', JInt step), (''target_vus'', JInt targetVUs),
        (''trigger'', JStr trigger)] [])"

text \<open>The part of an assignment that comes from the configuration.\<close>

definition target_config :: "string \<Rightarrow> parsedTarget \<Rightarrow> TargetConfig" where
  "target_config runID t =
     \<lparr>tgc_URL = tg_URL t, tgc_Transport = tg_Transport t, tgc_Headers = buildTargetHeaders runID t,
      tgc_RedirectPolicy = buildRedirectPolicy (tg_RedirectPolicy t), tgc_Auth = buildAuthConfig (tg_Auth t),
      tgc_ProtocolVersion = tg_ProtocolVersion t, tgc_ProtocolVersionPolicy = tg_ProtocolVersionPolicy t\<rparr>"

definition worker_assignment :: "string \<Rightarrow> string \<Rightarrow> StageName \<Rightarrow> string \<Rightarrow> Assignment \<Rightarrow> int \<Rightarrow> parsedRunConfig
    \<Rightarrow> WorkerAssignment" where
  "worker_assignment runID executionID stageName leaseID a durationMs cfg =
     \<lparr>wa_RunID = as_RunID a, wa_ExecutionID = executionID, wa_Stage = stageName, wa_StageID = as_StageID a,
      wa_LeaseID = leaseID, wa_VUIDStart = Start (as_VUIDRange a), wa_VUIDEnd = End (as_VUIDRange a),
      wa_DurationMs = durationMs, wa_Target = target_config runID (cf_Target cfg),
      wa_Workload = \<lparr>wlc_OpMix = convertOpMix (wl_OpMix (cf_Workload cfg))\<rparr>,
      wa_SessionPolicy = \<lparr>spc_Mode = sp_Mode (cf_SessionPolicy cfg), spc_PoolSize = sp_PoolSize (cf_SessionPolicy cfg),
        spc_TTLMs = sp_TTLMs (cf_SessionPolicy cfg), spc_MaxIdleMs = sp_MaxIdleMs (cf_SessionPolicy cfg)\<rparr>\<rparr>"

definition AddAssignment :: "WorkerID \<Rightarrow> WorkerAssignment \<Rightarrow> run_manager \<Rightarrow> run_manager" where
  "AddAssignment workerID wa rm = rm\<lparr>rm_sent := rm_sent rm @ [(workerID, wa)]\<rparr>"

text \<open>One iteration of a dispatch loop: issue a lease; on success hand the assignment to the sender and
  log it, on failure go on (\<open>refused\<close> is what the loop does then).\<close>

definition issue_and_send :: "string \<Rightarrow> string \<Rightarrow> StageName \<Rightarrow> string \<Rightarrow> int \<Rightarrow> parsedRunConfig
    \<Rightarrow> (WorkerID \<Rightarrow> lease_error \<Rightarrow> run_manager \<Rightarrow> run_manager) \<Rightarrow> WorkerID \<Rightarrow> Assignment \<Rightarrow> run_manager \<Rightarrow> run_manager" where
  "issue_and_send runID executionID stageName stageID durationMs cfg refused workerID a rm =
     (case IssueLease (now_ms rm) (int (now_ms rm)) workerID a (rm_leases rm) of
        (Inl err, lm) \<Rightarrow> refused workerID err (rm\<lparr>rm_leases := lm\<rparr>)
      | (Inr leaseID, lm) \<Rightarrow>
          let rm1 = rm\<lparr>rm_leases := lm\<rparr>;
              rm2 = AddAssignment workerID (worker_assignment runID executionID stageName leaseID a durationMs cfg) rm1
          in emitWorkerAssignedEvent runID executionID workerID leaseID (Start (as_VUIDRange a)) (End (as_VUIDRange a))
               stageID stageName rm2)"

definition dispatch_each :: "string \<Rightarrow> string \<Rightarrow> StageName \<Rightarrow> string \<Rightarrow> int \<Rightarrow> parsedRunConfig
    \<Rightarrow> (WorkerID \<Rightarrow> lease_error \<Rightarrow> run_manager \<Rightarrow> run_manager) \<Rightarrow> (WorkerID \<times> Assignment) list \<Rightarrow> run_manager \<Rightarrow> run_manager" where
  "dispatch_each runID executionID stageName stageID durationMs cfg refused =
     fold (\<lambda>(wid, a). issue_and_send runID executionID stageName stageID durationMs cfg refused wid a)"

definition capped_target :: "parsedRunConfig \<Rightarrow> int \<Rightarrow> int" where
  "capped_target cfg targetVUs =
     (if hc_MaxVUs (sf_HardCaps (cf_Safety cfg)) > 0 \<and> targetVUs > hc_MaxVUs (sf_HardCaps (cf_Safety cfg))
      then hc_MaxVUs (sf_HardCaps (cf_Safety cfg)) else targetVUs)"

text \<open>The checks both functions begin with: parse, find the stage, a positive target, the hard cap.\<close>

definition stage_target :: "string \<Rightarrow> string \<Rightarrow> raw_config \<Rightarrow> StageName \<Rightarrow> run_manager
    \<Rightarrow> (parsedRunConfig \<times> parsedStage \<times> int) option \<times> run_manager" where
  "stage_target runID executionID config stageName rm =
     (case parseRunConfig config of
        None \<Rightarrow> (None, emitAllocationFailedEvent runID executionID ''config_parse_error'' ''failed to parse run config'' rm)
      | Some cfg \<Rightarrow>
          (case findStageByName cfg stageName of
             None \<Rightarrow> (None, emitAllocationFailedEvent runID executionID ''stage_not_found''
                       (''no enabled '' @ stageName @ '' stage found'') rm)
           | Some stage \<Rightarrow>
               if ld_TargetVUs (st_Load stage) \<le> 0
               then (None, emitAllocationFailedEvent runID executionID ''invalid_target_vus''
                      (''target_vus must be > 0, got '' @ dec_int (ld_TargetVUs (st_Load stage))) rm)
               else (Some (cfg, stage, capped_target cfg (ld_TargetVUs (st_Load stage))), rm)))"

definition tryAllocateForStage :: "environment \<Rightarrow> string \<Rightarrow> string \<Rightarrow> raw_config \<Rightarrow> StageName \<Rightarrow> run_manager \<Rightarrow> bool \<times> run_manager" where
  "tryAllocateForStage E runID executionID config stageName rm =
     (case stage_target runID executionID config stageName rm of
        (None, rm1) \<Rightarrow> (False, rm1)
      | (Some (cfg, stage, targetVUs), rm1) \<Rightarrow>
          if \<not> rm_hasRegistry rm1 \<or> \<not> rm_hasAllocator rm1 then (False, rm1)
          else
            let ws = ListWorkers (rm_registry rm1)
            in if ws = [] then (False, emitAllocationFailedEvent runID executionID ''no_workers'' ''no workers registered'' rm1)
               else case AllocateAssignments (env_sort E) (rm_registry rm1) runID (st_StageID stage) targetVUs (map wi_WorkerID ws) of
                 Inl err \<Rightarrow> (False, emitAllocationFailedEvent runID executionID ''allocation_error'' (alloc_error_text err) rm1)
               | Inr _ \<Rightarrow> (True, rm1))"

definition scheduler_ready :: "run_manager \<Rightarrow> bool" where
  "scheduler_ready rm \<longleftrightarrow> rm_hasRegistry rm \<and> rm_hasAllocator rm \<and> rm_hasLeaseManager rm \<and> rm_hasSender rm"

definition createAndDispatchAssignmentsForStage :: "environment \<Rightarrow> string \<Rightarrow> string \<Rightarrow> raw_config \<Rightarrow> StageName \<Rightarrow> run_manager
    \<Rightarrow> parsedStage option \<times> run_manager" where
  "createAndDispatchAssignmentsForStage E runID executionID config stageName rm =
     (case stage_target runID executionID config stageName rm of
        (None, rm1) \<Rightarrow> (None, rm1)
      | (Some (cfg, stage, targetVUs), rm1) \<Rightarrow>
          if \<not> scheduler_ready rm1 then (None, rm1)
          else
            let rm2 = rm1\<lparr>rm_leases := snd (RevokeLeasesByRun (int (now_ms rm1)) runID (rm_leases rm1))\<rparr>;
                ws = ListWorkers (rm_registry rm2)
            in if ws = [] then (None, emitAllocationFailedEvent runID executionID ''no_workers'' ''no workers registered'' rm2)
               else case AllocateAssignments (env_sort E) (rm_registry rm2) runID (st_StageID stage) targetVUs (map wi_WorkerID ws) of
                 Inl err \<Rightarrow> (None, emitAllocationFailedEvent runID executionID ''allocation_error'' (alloc_error_text err) rm2)
               | Inr (_, workerAssignmentsMap) \<Rightarrow>
                   (Some stage, dispatch_each runID executionID stageName (st_StageID stage) (st_DurationMs stage) cfg
                     (\<lambda>wid err. emitAllocationFailedEvent runID executionID ''lease_error''
                        (''worker '' @ wid @ '': '' @ lease_error_text err))
                     (env_range E workerAssignmentsMap) rm2))"

text \<open>How long the assignments of a ramp step still have.\<close>

definition remaining_duration :: "string \<Rightarrow> parsedStage \<Rightarrow> run_manager \<Rightarrow> int" where
  "remaining_duration runID stage rm =
     (case get_run rm runID of
        None \<Rightarrow> st_DurationMs stage
      | Some record \<Rightarrow>
          if rr_ActiveStage record = None then st_DurationMs stage
          else let remaining = wrap64 (st_DurationMs stage - wrap64 (int (now_ms rm) - rr_UpdatedAtMs record))
               in if remaining < 1000 then 1000 else remaining)"

definition offset_assignment :: "int \<Rightarrow> Assignment \<Rightarrow> Assignment" where
  "offset_assignment vuOffset a =
     \<lparr>as_RunID = as_RunID a, as_StageID = as_StageID a,
      as_VUIDRange = \<lparr>Start = Start (as_VUIDRange a) + vuOffset, End = End (as_VUIDRange a) + vuOffset\<rparr>\<rparr>"

definition dispatchRampAssignments :: "environment \<Rightarrow> string \<Rightarrow> string \<Rightarrow> parsedStage \<Rightarrow> parsedRunConfig \<Rightarrow> int \<Rightarrow> int
    \<Rightarrow> run_manager \<Rightarrow> run_manager" where
  "dispatchRampAssignments E runID executionID stage cfg numVUs vuOffset rm =
     (if \<not> scheduler_ready rm then rm
      else
        let ws = ListWorkers (rm_registry rm)
        in if ws = [] then rm
           else case AllocateAssignments (env_sort E) (rm_registry rm) runID (st_StageID stage) numVUs (map wi_WorkerID ws) of
             Inl _ \<Rightarrow> rm
           | Inr (_, workerAssignmentsMap) \<Rightarrow>
               dispatch_each runID executionID StageNameRamp (st_StageID stage) (remaining_duration runID stage rm) cfg
                 (\<lambda>_ _ rm. rm)
                 (map (\<lambda>(wid, a). (wid, offset_assignment vuOffset a)) (env_range E workerAssignmentsMap)) rm)"

end
