(* ===== verification/Stop_Conditions.thy ===== *)
theory Stop_Conditions
  imports Run_Config
begin

text \<open>
  The evaluator of stop conditions (\<^verbatim>\<open>internal/controlplane/stopconditions/evaluator.go\<close>). A pass takes
  what the providers return at that time: the operations of the run and the streaming metrics. Floating
  point is exact arithmetic here: the error rate is a quotient of counts, and the index of a percentile
  is the exact ceiling (\<^verbatim>\<open>(p/100.0)*float64(n)\<close> rounds to the same ceiling for the three percentiles in
  use and every buffer of up to two million operations). The lines written to the global event logger
  and the pool of latency buffers are left out.
\<close>

section \<open>Data\<close>

record OperationResult =
  or_Operation :: string
  or_ToolName :: string
  or_LatencyMs :: int
  or_OK :: bool
  or_ErrorType :: string
  or_SessionID :: string

record Condition =
  c_ID :: string
  c_Metric :: string
  c_Comparator :: string
  c_Threshold :: real
  c_WindowMs :: int
  c_SustainWindows :: int
  c_Scope :: "(string, string) gomap"

record StreamingConfig =
  stc_StreamStallSeconds :: int
  stc_MinEventsPerSecond :: real

record StreamingMetrics =
  sm_EventsReceived :: int
  sm_LastEventTimeMs :: int
  sm_StreamStallCount :: int
  sm_StreamStartTimeMs :: int

record Trigger =
  t_Condition :: Condition
  t_Observed :: real
  t_WindowMs :: int
  t_TotalOps :: int
  t_FailedOps :: int
  t_LatencyP99 :: int
  t_TimestampMs :: int

record timedOperation =
  to_op :: OperationResult
  to_observedMs :: int

record Evaluator =
  e_RunID :: string
  e_StageID :: string
  e_Conditions :: "Condition list"
  e_StreamingConfig :: "StreamingConfig option"
  e_lastSeen :: nat
  e_buffer :: "timedOperation list"
  e_sustainCounts :: "(string, int) gomap"
  e_maxWindowMs :: int

definition zero_cond :: Condition where
  "zero_cond = \<lparr>c_ID = [], c_Metric = [], c_Comparator = [], c_Threshold = 0, c_WindowMs = 0,
     c_SustainWindows = 0, c_Scope = []\<rparr>"

definition zero_trigger :: Trigger where
  "zero_trigger = \<lparr>t_Condition = zero_cond, t_Observed = 0, t_WindowMs = 0, t_TotalOps = 0, t_FailedOps = 0,
     t_LatencyP99 = 0, t_TimestampMs = 0\<rparr>"

section \<open>Operations\<close>

definition NewEvaluator :: "string \<Rightarrow> Condition list \<Rightarrow> Evaluator" where
  "NewEvaluator runID conditions =
     \<lparr>e_RunID = runID, e_StageID = [], e_Conditions = conditions, e_StreamingConfig = None, e_lastSeen = 0,
      e_buffer = [], e_sustainCounts = [],
      e_maxWindowMs = fold (\<lambda>cond m. if c_WindowMs cond > m then c_WindowMs cond else m) conditions 0\<rparr>"

definition conditionKey :: "Condition \<Rightarrow> nat \<Rightarrow> string" where
  "conditionKey cond index = (if c_ID cond \<noteq> [] then c_ID cond else c_Metric cond @ ''-'' @ dec index)"

definition windowStats :: "int \<Rightarrow> int \<Rightarrow> Evaluator \<Rightarrow> int \<times> int \<times> int list" where
  "windowStats nowMs windowMs e =
     (let cutoff = nowMs - windowMs;
          entries = filter (\<lambda>t. \<not> to_observedMs t < cutoff) (e_buffer e)
      in (int (length entries), int (length (filter (\<lambda>t. \<not> or_OK (to_op t)) entries)),
          map (\<lambda>t. or_LatencyMs (to_op t)) entries))"

definition percentile :: "int list \<Rightarrow> nat \<Rightarrow> int" where
  "percentile values p =
     (if values = [] then 0
      else
        let sorted = sort values;
            index = \<lceil>real p / 100 * real (length sorted)\<rceil> - 1;
            index1 = (if index \<ge> int (length sorted) then int (length sorted) - 1 else index);
            index2 = (if index1 < 0 then 0 else index1)
        in sorted ! nat index2)"

definition evaluateMetric :: "string \<Rightarrow> int \<Rightarrow> int \<Rightarrow> int list \<Rightarrow> real \<times> int" where
  "evaluateMetric metric totalOps failedOps latencies =
     (if metric = ''error_rate'' then
        (if totalOps = 0 then (0, 0) else (real_of_int failedOps / real_of_int totalOps, 0))
      else if metric = ''latency_p50_ms'' then
        (let p50 = percentile latencies 50 in (real_of_int p50, p50))
      else if metric = ''latency_p95_ms'' then
        (let p95 = percentile latencies 95 in (real_of_int p95, p95))
      else if metric = ''latency_p99_ms'' then
        (let p99 = percentile latencies 99 in (real_of_int p99, p99))
      else (-1, 0))"

definition compare :: "real \<Rightarrow> string \<Rightarrow> real \<Rightarrow> bool" where
  "compare observed comparator threshold =
     (if observed < 0 then False
      else if comparator = ''>'' then observed > threshold
      else if comparator = ''>='' then observed \<ge> threshold
      else if comparator = ''<'' then observed < threshold
      else if comparator = ''<='' then observed \<le> threshold
      else observed > threshold)"

definition evaluateStreamStall :: "int \<Rightarrow> StreamingConfig \<Rightarrow> StreamingMetrics \<Rightarrow> Trigger option" where
  "evaluateStreamStall nowMs cfg metrics =
     (if stc_StreamStallSeconds cfg \<le> 0 then None
      else if sm_LastEventTimeMs metrics = 0 then None
      else
        let stallDurationMs = nowMs - sm_LastEventTimeMs metrics;
            thresholdMs = wrap64 (stc_StreamStallSeconds cfg * 1000)
        in if stallDurationMs > thresholdMs then
             Some (zero_trigger\<lparr>t_Condition := zero_cond\<lparr>c_ID := ''stream_stall'', c_Metric := ''stream_stall_seconds'',
                     c_Comparator := ''>'', c_Threshold := real_of_int (stc_StreamStallSeconds cfg)\<rparr>,
                   t_Observed := real_of_int stallDurationMs / 1000, t_TimestampMs := nowMs\<rparr>)
           else None)"

definition evaluateMinEventsPerSecond :: "int \<Rightarrow> StreamingConfig \<Rightarrow> StreamingMetrics \<Rightarrow> Trigger option" where
  "evaluateMinEventsPerSecond nowMs cfg metrics =
     (if stc_MinEventsPerSecond cfg \<le> 0 then None
      else if sm_StreamStartTimeMs metrics = 0 \<or> sm_EventsReceived metrics = 0 then None
      else
        let durationMs = nowMs - sm_StreamStartTimeMs metrics
        in if durationMs \<le> 0 then None
           else
             let eventsPerSecond = real_of_int (sm_EventsReceived metrics) / (real_of_int durationMs / 1000)
             in if eventsPerSecond < stc_MinEventsPerSecond cfg then
                  Some (zero_trigger\<lparr>t_Condition := zero_cond\<lparr>c_ID := ''min_events_per_second'',
                          c_Metric := ''min_events_per_second'', c_Comparator := ''<'',
                          c_Threshold := stc_MinEventsPerSecond cfg\<rparr>,
                        t_Observed := eventsPerSecond, t_TimestampMs := nowMs\<rparr>)
                else None)"

text \<open>\<open>streaming\<close> is what the streaming provider returns; None when there is none, on an error, and when
  it has no metrics.\<close>

definition evaluateStreamingConditions :: "int \<Rightarrow> StreamingMetrics option \<Rightarrow> Evaluator \<Rightarrow> Trigger option" where
  "evaluateStreamingConditions nowMs streaming e =
     (case e_StreamingConfig e of
        None \<Rightarrow> None
      | Some cfg \<Rightarrow>
          (case streaming of
             None \<Rightarrow> None
           | Some metrics \<Rightarrow>
               (case evaluateStreamStall nowMs cfg metrics of
                  Some t \<Rightarrow> Some t
                | None \<Rightarrow> evaluateMinEventsPerSecond nowMs cfg metrics)))"

text \<open>The part of \<^verbatim>\<open>Evaluate\<close> before its loop: take in the new operations, drop the old ones.\<close>

definition refill :: "int \<Rightarrow> OperationResult list \<Rightarrow> Evaluator \<Rightarrow> Evaluator" where
  "refill nowMs operations e =
     (let e1 = (if length operations < e_lastSeen e
                then e\<lparr>e_lastSeen := 0, e_buffer := [], e_sustainCounts := []\<rparr> else e);
          e2 = (if e_lastSeen e1 < length operations then
                  (if e_maxWindowMs e1 > 0
                   then e1\<lparr>e_buffer := e_buffer e1 @ map (\<lambda>op. \<lparr>to_op = op, to_observedMs = nowMs\<rparr>) (drop (e_lastSeen e1) operations)\<rparr>
                   else e1)\<lparr>e_lastSeen := length operations\<rparr>
                else e1)
      in if e_maxWindowMs e2 > 0 \<and> e_buffer e2 \<noteq> []
         then e2\<lparr>e_buffer := dropWhile (\<lambda>t. to_observedMs t < nowMs - e_maxWindowMs e2) (e_buffer e2)\<rparr>
         else e2)"

definition set_count :: "string \<Rightarrow> int \<Rightarrow> Evaluator \<Rightarrow> Evaluator" where
  "set_count key n e = e\<lparr>e_sustainCounts := map_put key n (e_sustainCounts e)\<rparr>"

definition get_count :: "string \<Rightarrow> Evaluator \<Rightarrow> int" where
  "get_count key e = (case map_get (e_sustainCounts e) key of None \<Rightarrow> 0 | Some n \<Rightarrow> n)"

text \<open>The loop over the conditions from index \<open>i\<close> on.\<close>

fun check_conditions :: "int \<Rightarrow> nat \<Rightarrow> Condition list \<Rightarrow> Evaluator \<Rightarrow> Trigger option \<times> Evaluator" where
  "check_conditions nowMs i [] e = (None, e)"
| "check_conditions nowMs i (cond # conds) e =
     (let key = conditionKey cond i
      in if c_WindowMs cond \<le> 0 then check_conditions nowMs (i + 1) conds (set_count key 0 e)
         else
           let (totalOps, failedOps, latencies) = windowStats nowMs (c_WindowMs cond) e
           in if totalOps = 0 then check_conditions nowMs (i + 1) conds (set_count key 0 e)
              else
                let (observed, latencyP99) = evaluateMetric (c_Metric cond) totalOps failedOps latencies
                in if \<not> compare observed (c_Comparator cond) (c_Threshold cond)
                   then check_conditions nowMs (i + 1) conds (set_count key 0 e)
                   else
                     let sustain = (if c_SustainWindows cond \<le> 0 then 1 else c_SustainWindows cond);
                         e1 = set_count key (get_count key e + 1) e
                     in if get_count key e1 < sustain then check_conditions nowMs (i + 1) conds e1
                        else (Some \<lparr>t_Condition = cond, t_Observed = observed, t_WindowMs = c_WindowMs cond,
                                t_TotalOps = totalOps, t_FailedOps = failedOps, t_LatencyP99 = latencyP99,
                                t_TimestampMs = nowMs\<rparr>, e1))"

text \<open>\<open>telemetry\<close> is None when no provider is configured.\<close>

definition Evaluate :: "int \<Rightarrow> (string + OperationResult list) option \<Rightarrow> StreamingMetrics option \<Rightarrow> Evaluator
    \<Rightarrow> (string + Trigger) \<times> Evaluator" where
  "Evaluate nowMs telemetry streaming e =
     (case evaluateStreamingConditions nowMs streaming e of
        Some t \<Rightarrow> (Inr t, e)
      | None \<Rightarrow>
          (case telemetry of
             None \<Rightarrow> (Inl ''telemetry provider not configured'', e)
           | Some (Inl err) \<Rightarrow> (Inl err, e)
           | Some (Inr operations) \<Rightarrow>
               (case check_conditions nowMs 0 (e_Conditions e) (refill nowMs operations e) of
                  (Some t, e1) \<Rightarrow> (Inr t, e1)
                | (None, e1) \<Rightarrow> (Inr zero_trigger, e1))))"

text \<open>The loop of \<^verbatim>\<open>Run\<close> over the ticks until the context is done: the first pass that returns a trigger
  with a metric ends it.\<close>

fun Run :: "(int \<times> (string + OperationResult list) option \<times> StreamingMetrics option) list \<Rightarrow> Evaluator
    \<Rightarrow> Trigger option \<times> Evaluator" where
  "Run [] e = (None, e)"
| "Run ((now, telemetry, streaming) # ticks) e =
     (case Evaluate now telemetry streaming e of
        (Inl err, e1) \<Rightarrow> Run ticks e1
      | (Inr t, e1) \<Rightarrow> if c_Metric (t_Condition t) \<noteq> [] then (Some t, e1) else Run ticks e1)"

section \<open>Percentiles\<close>

lemma sorted_below: "sorted s \<Longrightarrow> k < length s \<Longrightarrow> {i. i < length s \<and> s ! i < s ! k} \<subseteq> {..<k}" for s :: "int list"
  by (auto simp: not_less[symmetric]) (meson leD not_less sorted_nth_mono)

lemma sorted_up_to: "sorted s \<Longrightarrow> k < length s \<Longrightarrow> {..k} \<subseteq> {i. i < length s \<and> s ! i \<le> s ! k}" for s :: "int list"
  by (auto simp: sorted_nth_mono)

lemma sorted_rank:
  fixes s :: "int list"
  assumes "sorted s" and "k < length s"
  shows "length (filter (\<lambda>x. x < s ! k) s) \<le> k \<and> k < length (filter (\<lambda>x. x \<le> s ! k) s)"
proof -
  have "card {i. i < length s \<and> s ! i < s ! k} \<le> card {..<k}"
    by (rule card_mono [OF _ sorted_below [OF assms]]) simp
  moreover have "card {..k} \<le> card {i. i < length s \<and> s ! i \<le> s ! k}"
    by (rule card_mono [OF _ sorted_up_to [OF assms]]) simp
  ultimately show ?thesis by (simp add: length_filter_conv_card)
qed

lemma filter_sort_length: "length (filter P (sort xs)) = length (filter P xs)" for xs :: "int list"
proof -
  have "mset (filter P (sort xs)) = mset (filter P xs)" by simp
  then show ?thesis by (metis size_mset)
qed

lemma ceiling_index:
  assumes "0 < p" and "p \<le> 100" and "0 < n"
  shows "0 \<le> \<lceil>real p / 100 * real n\<rceil> - 1 \<and> \<lceil>real p / 100 * real n\<rceil> - 1 < int n
     \<and> real_of_int (\<lceil>real p / 100 * real n\<rceil> - 1) < real p / 100 * real n
     \<and> real p / 100 * real n \<le> real_of_int (\<lceil>real p / 100 * real n\<rceil>)"
proof -
  let ?x = "real p / 100 * real n"
  have "0 < ?x" using assms by simp
  moreover have "?x \<le> real n" using assms by (simp add: mult_left_le_one_le)
  ultimately show ?thesis by (auto simp: ceiling_le_iff) linarith+
qed

section \<open>One pass\<close>

definition breached :: "int \<Rightarrow> Condition \<Rightarrow> Evaluator \<Rightarrow> bool" where
  "breached nowMs cond e \<longleftrightarrow> c_WindowMs cond > 0 \<and>
     (case windowStats nowMs (c_WindowMs cond) e of (totalOps, failedOps, latencies) \<Rightarrow>
        totalOps \<noteq> 0 \<and> compare (fst (evaluateMetric (c_Metric cond) totalOps failedOps latencies))
          (c_Comparator cond) (c_Threshold cond))"

definition sustain_of :: "Condition \<Rightarrow> int" where
  "sustain_of cond = (if c_SustainWindows cond \<le> 0 then 1 else c_SustainWindows cond)"

definition cond_keys :: "nat \<Rightarrow> Condition list \<Rightarrow> string list" where
  "cond_keys i conds = map (\<lambda>(j, cond). conditionKey cond j) (enumerate i conds)"

lemma cond_keys_Cons [simp]: "cond_keys i (c # cs) = conditionKey c i # cond_keys (Suc i) cs"
  by (simp add: cond_keys_def)

lemma cond_keys_Nil [simp]: "cond_keys i [] = []"
  by (simp add: cond_keys_def)

lemma windowStats_set_count [simp]: "windowStats now w (set_count k n e) = windowStats now w e"
  by (simp add: windowStats_def set_count_def)

lemma breached_set_count [simp]: "breached now c (set_count k n e) = breached now c e"
  by (simp add: breached_def)

lemma get_set_count [simp]: "get_count k (set_count k' n e) = (if k = k' then n else get_count k e)"
  by (simp add: get_count_def set_count_def)

lemma set_count_fields [simp]: "e_Conditions (set_count k n e) = e_Conditions e" "e_lastSeen (set_count k n e) = e_lastSeen e"
  "e_StreamingConfig (set_count k n e) = e_StreamingConfig e" "e_maxWindowMs (set_count k n e) = e_maxWindowMs e"
  "e_buffer (set_count k n e) = e_buffer e"
  by (simp_all add: set_count_def)

text \<open>One step of the loop: count a breach, reset the count otherwise, stop when the count is reached.\<close>

lemma check_conditions_step: "check_conditions now i (c # cs) e =
    (let n = (if breached now c e then get_count (conditionKey c i) e + 1 else 0);
         e1 = set_count (conditionKey c i) n e
     in if breached now c e \<and> sustain_of c \<le> n then
          (case windowStats now (c_WindowMs c) e of (totalOps, failedOps, latencies) \<Rightarrow>
             (case evaluateMetric (c_Metric c) totalOps failedOps latencies of (observed, p99) \<Rightarrow>
               (Some \<lparr>t_Condition = c, t_Observed = observed, t_WindowMs = c_WindowMs c, t_TotalOps = totalOps,
                  t_FailedOps = failedOps, t_LatencyP99 = p99, t_TimestampMs = now\<rparr>, e1)))
        else check_conditions now (Suc i) cs e1)"
  by (auto simp: breached_def sustain_of_def Let_def not_le split: prod.splits)

declare check_conditions.simps(2) [simp del]

definition reached :: "int \<Rightarrow> nat \<Rightarrow> Condition \<Rightarrow> Evaluator \<Rightarrow> bool" where
  "reached now j c e \<longleftrightarrow> breached now c e \<and> sustain_of c \<le> get_count (conditionKey c j) e + 1"

lemma check_conditions_fields:
  "check_conditions now i cs e = (r, e') \<Longrightarrow> e_Conditions e' = e_Conditions e \<and> e_lastSeen e' = e_lastSeen e
     \<and> e_StreamingConfig e' = e_StreamingConfig e \<and> e_maxWindowMs e' = e_maxWindowMs e \<and> e_buffer e' = e_buffer e"
  by (induction cs arbitrary: i e)
    (auto simp: check_conditions_step Let_def split: if_splits prod.splits)

lemma check_conditions_other: "check_conditions now i cs e = (r, e') \<Longrightarrow> k \<notin> set (cond_keys i cs) \<Longrightarrow> get_count k e' = get_count k e"
  by (induction cs arbitrary: i e)
    (auto simp: check_conditions_step Let_def split: if_splits prod.splits)

lemma check_conditions_none:
  assumes "distinct (cond_keys i cs)" and "check_conditions now i cs e = (None, e')" and "(j, c) \<in> set (enumerate i cs)"
  shows "\<not> reached now j c e \<and>
    get_count (conditionKey c j) e' = (if breached now c e then get_count (conditionKey c j) e + 1 else 0)"
  using assms
proof (induction cs arbitrary: i e)
  case (Cons d ds)
  let ?n = "if breached now d e then get_count (conditionKey d i) e + 1 else 0"
  let ?e = "set_count (conditionKey d i) ?n e"
  from Cons.prems(2) have nr: "\<not> reached now i d e" and rest: "check_conditions now (Suc i) ds ?e = (None, e')"
    by (auto simp: check_conditions_step Let_def reached_def split: if_splits prod.splits)
  show ?case
  proof (cases "(j, c) = (i, d)")
    case True
    with Cons.prems(1) nr check_conditions_other [OF rest, of "conditionKey d i"] show ?thesis by simp
  next
    case False
    with Cons.prems(3) have jc: "(j, c) \<in> set (enumerate (Suc i) ds)" by auto
    then have "conditionKey c j \<in> set (cond_keys (Suc i) ds)" by (force simp: cond_keys_def)
    with Cons.prems(1) have "conditionKey c j \<noteq> conditionKey d i" by auto
    with Cons.IH [OF _ rest jc] Cons.prems(1) show ?thesis by (simp add: reached_def)
  qed
qed simp

lemma check_conditions_some:
  assumes "distinct (cond_keys i cs)" and "check_conditions now i cs e = (Some t, e')"
  shows "\<exists>j c. (j, c) \<in> set (enumerate i cs) \<and> reached now j c e \<and> t_Condition t = c"
  using assms
proof (induction cs arbitrary: i e)
  case (Cons d ds)
  let ?n = "if breached now d e then get_count (conditionKey d i) e + 1 else 0"
  let ?e = "set_count (conditionKey d i) ?n e"
  show ?case
  proof (cases "reached now i d e")
    case True
    with Cons.prems(2) have "t_Condition t = d"
      by (auto simp: check_conditions_step Let_def reached_def split: prod.splits)
    with True show ?thesis by auto
  next
    case False
    with Cons.prems(2) have "check_conditions now (Suc i) ds ?e = (Some t, e')"
      by (auto simp: check_conditions_step Let_def reached_def split: if_splits prod.splits)
    from Cons.IH [OF _ this] Cons.prems(1) obtain j c where
      jc: "(j, c) \<in> set (enumerate (Suc i) ds)" "reached now j c ?e" "t_Condition t = c" by auto
    then have "conditionKey c j \<in> set (cond_keys (Suc i) ds)" by (force simp: cond_keys_def)
    with Cons.prems(1) have "conditionKey c j \<noteq> conditionKey d i" by auto
    with jc show ?thesis by (auto simp: reached_def)
  qed
qed simp

text \<open>An unknown metric never breaches, so a trigger always names its metric.\<close>

lemma breached_metric: "breached now c e \<Longrightarrow> c_Metric c \<noteq> []"
  by (auto simp: breached_def evaluateMetric_def compare_def split: prod.splits)

section \<open>Many passes\<close>

text \<open>A pass as the run manager makes it: telemetry is there, no streaming conditions.\<close>

type_synonym pass = "int \<times> OperationResult list"

definition tick_of :: "pass \<Rightarrow> int \<times> (string + OperationResult list) option \<times> StreamingMetrics option" where
  "tick_of x = (fst x, Some (Inr (snd x)), None)"

definition pass_step :: "pass \<Rightarrow> Evaluator \<Rightarrow> Evaluator" where
  "pass_step x e = snd (check_conditions (fst x) 0 (e_Conditions e) (refill (fst x) (snd x) e))"

text \<open>In which of the passes a condition was breached, and for how many of the last ones in a row.\<close>

fun history :: "Condition \<Rightarrow> pass list \<Rightarrow> Evaluator \<Rightarrow> bool list" where
  "history c [] e = []"
| "history c (x # xs) e = breached (fst x) c (refill (fst x) (snd x) e) # history c xs (pass_step x e)"

definition streak :: "bool list \<Rightarrow> int" where
  "streak h = int (length (takeWhile id (rev h)))"

lemma history_append: "history c (xs @ ys) e = history c xs e @ history c ys (fold pass_step xs e)"
  by (induction xs arbitrary: e) auto

lemma streak_snoc: "streak (h @ [b]) = (if b then streak h + 1 else 0)"
  by (simp add: streak_def)

lemma Run_append: "Run (xs @ ys) e = (case Run xs e of (None, e1) \<Rightarrow> Run ys e1 | (Some t, e1) \<Rightarrow> (Some t, e1))"
  by (induction xs e rule: Run.induct) (auto split: prod.splits sum.splits)

lemma refill_fields: "e_Conditions (refill now ops e) = e_Conditions e"
  "e_StreamingConfig (refill now ops e) = e_StreamingConfig e" "e_lastSeen (refill now ops e) = length ops"
  by (auto simp: refill_def Let_def)

lemma refill_counts: "e_lastSeen e \<le> length ops \<Longrightarrow> get_count k (refill now ops e) = get_count k e"
  by (auto simp: refill_def Let_def get_count_def)

text \<open>While no pass triggers, the counter of a condition is its streak.\<close>

definition growing :: "pass list \<Rightarrow> bool" where
  "growing xs \<longleftrightarrow> sorted (map (\<lambda>x. length (snd x)) xs)"

lemma Run_one: "e_StreamingConfig e = None \<Longrightarrow> Run [tick_of x] e =
    (case check_conditions (fst x) 0 (e_Conditions e) (refill (fst x) (snd x) e) of
       (None, e1) \<Rightarrow> (None, e1)
     | (Some t, e1) \<Rightarrow> if c_Metric (t_Condition t) \<noteq> [] then (Some t, e1) else (None, e1))"
  by (auto simp: tick_of_def Evaluate_def evaluateStreamingConditions_def zero_trigger_def zero_cond_def
      split: prod.splits option.splits)

definition pass_inv :: "Condition list \<Rightarrow> Evaluator \<Rightarrow> pass list \<Rightarrow> Evaluator \<Rightarrow> bool" where
  "pass_inv conds e0 xs e \<longleftrightarrow> e = fold pass_step xs e0 \<and> e_Conditions e = conds \<and> e_StreamingConfig e = None
     \<and> e_lastSeen e = (if xs = [] then 0 else length (snd (last xs)))
     \<and> (\<forall>(j, c) \<in> set (enumerate 0 conds). get_count (conditionKey c j) e = streak (history c xs e0))"

lemma one_more_pass:
  assumes inv: "pass_inv conds e0 xs e" and keys: "distinct (cond_keys 0 conds)" and grow: "growing (xs @ [x])"
  shows "case Run [tick_of x] e of
     (None, e1) \<Rightarrow> pass_inv conds e0 (xs @ [x]) e1
        \<and> (\<forall>(j, c) \<in> set (enumerate 0 conds). streak (history c (xs @ [x]) e0) < sustain_of c)
   | (Some t, e1) \<Rightarrow> \<exists>(j, c) \<in> set (enumerate 0 conds). sustain_of c \<le> streak (history c (xs @ [x]) e0)"
proof -
  let ?e = "refill (fst x) (snd x) e"
  from inv have conds: "e_Conditions e = conds" and str: "e_StreamingConfig e = None" and e: "e = fold pass_step xs e0"
    and cnt: "\<And>j c. (j, c) \<in> set (enumerate 0 conds) \<Longrightarrow> get_count (conditionKey c j) e = streak (history c xs e0)"
    by (auto simp: pass_inv_def)
  have seen: "e_lastSeen e \<le> length (snd x)"
    using inv grow by (cases xs rule: rev_cases) (auto simp: pass_inv_def growing_def sorted_append)
  have h: "history c (xs @ [x]) e0 = history c xs e0 @ [breached (fst x) c ?e]" for c
    by (simp add: history_append e)
  have rch: "reached (fst x) j c ?e \<longleftrightarrow> breached (fst x) c ?e \<and> sustain_of c \<le> streak (history c (xs @ [x]) e0)"
    if "(j, c) \<in> set (enumerate 0 conds)" for j c
    using cnt [OF that] seen by (auto simp: reached_def h streak_snoc refill_counts)
  have pos: "0 < sustain_of c" for c by (simp add: sustain_of_def)
  obtain r e1 where chk: "check_conditions (fst x) 0 conds ?e = (r, e1)" by fastforce
  note fields = check_conditions_fields [OF chk] refill_fields [of "fst x" "snd x" e]
  show ?thesis
  proof (cases r)
    case None
    with chk have run: "Run [tick_of x] e = (None, e1)" by (simp add: Run_one [OF str] conds)
    have nr: "\<not> reached (fst x) j c ?e" and c1: "get_count (conditionKey c j) e1 = streak (history c (xs @ [x]) e0)"
      if "(j, c) \<in> set (enumerate 0 conds)" for j c
      using check_conditions_none [OF keys chk [unfolded None] that] cnt [OF that] seen
      by (auto simp: h streak_snoc refill_counts)
    have "streak (history c (xs @ [x]) e0) < sustain_of c" if "(j, c) \<in> set (enumerate 0 conds)" for j c
      using nr [OF that] rch [OF that] pos [of c] by (auto simp: h streak_snoc)
    moreover have "e1 = fold pass_step (xs @ [x]) e0" using chk conds by (simp add: pass_step_def e [symmetric])
    ultimately show ?thesis using run c1 fields conds str by (auto simp: pass_inv_def)
  next
    case (Some t)
    from check_conditions_some [OF keys chk [unfolded Some]] obtain j c where
      jc: "(j, c) \<in> set (enumerate 0 conds)" "reached (fst x) j c ?e" "t_Condition t = c" by blast
    then have "c_Metric (t_Condition t) \<noteq> []" by (auto simp: reached_def dest: breached_metric)
    with chk Some have "Run [tick_of x] e = (Some t, e1)" by (simp add: Run_one [OF str] conds)
    with jc rch show ?thesis by auto
  qed
qed

lemma pass_inv_start: "pass_inv conds (NewEvaluator rid conds) [] (NewEvaluator rid conds)"
  by (auto simp: pass_inv_def NewEvaluator_def get_count_def streak_def)

lemma growing_take: "growing (xs @ ys) \<Longrightarrow> growing xs"
  by (simp add: growing_def sorted_append)

lemma Run_streaks:
  assumes keys: "distinct (cond_keys 0 conds)" and grow: "growing xs"
  shows "case Run (map tick_of xs) (NewEvaluator rid conds) of
     (None, e1) \<Rightarrow> pass_inv conds (NewEvaluator rid conds) xs e1
        \<and> (\<forall>n \<in> {1..length xs}. \<forall>(j, c) \<in> set (enumerate 0 conds).
             streak (history c (take n xs) (NewEvaluator rid conds)) < sustain_of c)
   | (Some t, e1) \<Rightarrow> \<exists>n \<in> {1..length xs}. \<exists>(j, c) \<in> set (enumerate 0 conds).
        sustain_of c \<le> streak (history c (take n xs) (NewEvaluator rid conds))"
  using grow
proof (induction xs rule: rev_induct)
  case Nil
  then show ?case by (simp add: pass_inv_start)
next
  case (snoc x xs)
  let ?e0 = "NewEvaluator rid conds"
  note IH = snoc.IH [OF growing_take [OF snoc.prems]]
  obtain r e1 where run: "Run (map tick_of xs) ?e0 = (r, e1)" by fastforce
  show ?case
  proof (cases r)
    case (Some t)
    with IH run have "\<exists>n \<in> {1..length xs}. \<exists>(j, c) \<in> set (enumerate 0 conds).
        sustain_of c \<le> streak (history c (take n xs) ?e0)" by simp
    then obtain n where "n \<in> {1..length xs}"
      "\<exists>(j, c) \<in> set (enumerate 0 conds). sustain_of c \<le> streak (history c (take n xs) ?e0)" by blast
    then have "n \<in> {1..length (xs @ [x])}"
      "\<exists>(j, c) \<in> set (enumerate 0 conds). sustain_of c \<le> streak (history c (take n (xs @ [x])) ?e0)" by auto
    then have "\<exists>n \<in> {1..length (xs @ [x])}. \<exists>(j, c) \<in> set (enumerate 0 conds).
        sustain_of c \<le> streak (history c (take n (xs @ [x])) ?e0)" by (rule bexI [rotated])
    then show ?thesis using run Some by (simp add: Run_append)
  next
    case None
    with IH run have inv: "pass_inv conds ?e0 xs e1" and low: "\<forall>n \<in> {1..length xs}. \<forall>(j, c) \<in> set (enumerate 0 conds).
             streak (history c (take n xs) ?e0) < sustain_of c" by auto
    obtain r2 e2 where one: "Run [tick_of x] e1 = (r2, e2)" by fastforce
    have app: "Run (map tick_of (xs @ [x])) ?e0 = (r2, e2)"
      using run one None by (simp add: Run_append del: Run.simps split: prod.splits option.splits)
    note more = one_more_pass [OF inv keys snoc.prems, unfolded one]
    show ?thesis
    proof (cases r2)
      case None
      have "streak (history c (take n (xs @ [x])) ?e0) < sustain_of c"
        if "n \<in> {1..length (xs @ [x])}" "(j, c) \<in> set (enumerate 0 conds)" for n j c
        using that low more None by (cases "n = length (xs @ [x])") (auto simp: le_Suc_eq)
      with more None app show ?thesis by auto
    next
      case (Some t)
      with more have "\<exists>(j, c) \<in> set (enumerate 0 conds). sustain_of c \<le> streak (history c (take (length (xs @ [x])) (xs @ [x])) ?e0)"
        by simp
      then have "\<exists>n \<in> {1..length (xs @ [x])}. \<exists>(j, c) \<in> set (enumerate 0 conds).
          sustain_of c \<le> streak (history c (take n (xs @ [x])) ?e0)"
        by (rule bexI) simp
      with app Some show ?thesis by simp
    qed
  qed
qed

section \<open>Properties\<close>




definition sample_condition :: Condition where
  "sample_condition = zero_cond\<lparr>c_ID := ''errors'', c_Metric := ''error_rate'', c_Comparator := ''>'',
     c_Threshold := 1 / 2, c_WindowMs := 1000, c_SustainWindows := 2\<rparr>"

definition failed_op :: OperationResult where
  "failed_op = \<lparr>or_Operation = ''ping'', or_ToolName = [], or_LatencyMs = 5, or_OK = False, or_ErrorType = ''x'', or_SessionID = []\<rparr>"


end
