(* ===== verification/Run_Stages.thy ===== *)
theory Run_Stages
  imports Run_Dispatch Stop_Conditions
begin

text \<open>
  Stages (\<^verbatim>\<open>internal/controlplane/runmanager/stages.go\<close>) and \<^verbatim>\<open>StartRun\<close> of \<^verbatim>\<open>manager.go\<close>. A blocking
  \<^verbatim>\<open>select\<close> is an argument that says which of its cases was taken; a loop with a \<^verbatim>\<open>select\<close> takes the list
  of them and stops, still blocked, at the end of the list.
\<close>

section \<open>Durations and timers\<close>

definition DefaultPreflightMaxDurationMs :: int where "DefaultPreflightMaxDurationMs = 600000"
definition DefaultBaselineMaxDurationMs :: int where "DefaultBaselineMaxDurationMs = 1800000"
definition DefaultRampMaxDurationMs :: int where "DefaultRampMaxDurationMs = 7200000"
definition DefaultSoakMaxDurationMs :: int where "DefaultSoakMaxDurationMs = 86400000"

definition getStageMaxDuration :: "parsedStage \<Rightarrow> int" where
  "getStageMaxDuration stage =
     (if st_MaxDurationMs stage > 0 then millis (st_MaxDurationMs stage)
      else if st_Stage stage = StageNamePreflight then millis DefaultPreflightMaxDurationMs
      else if st_Stage stage = StageNameBaseline then millis DefaultBaselineMaxDurationMs
      else if st_Stage stage = StageNameRamp then millis DefaultRampMaxDurationMs
      else if st_Stage stage = StageNameSoak then millis DefaultSoakMaxDurationMs
      else millis DefaultRampMaxDurationMs)"

definition getEffectiveStageDuration :: "parsedStage \<Rightarrow> int" where
  "getEffectiveStageDuration stage = millis (st_DurationMs stage)"

definition new_timer :: "run_manager \<Rightarrow> nat \<times> run_manager" where
  "new_timer rm = (rm_nextTimer rm, rm\<lparr>rm_nextTimer := rm_nextTimer rm + 1\<rparr>)"

fun stopTimer :: "nat option \<Rightarrow> run_manager \<Rightarrow> run_manager" where
  "stopTimer None rm = rm"
| "stopTimer (Some t) rm = stop_timers [t] rm"

definition addStageTimer :: "string \<Rightarrow> nat \<Rightarrow> run_manager \<Rightarrow> run_manager" where
  "addStageTimer runID timer rm =
     (case get_run rm runID of
        None \<Rightarrow> stopTimer (Some timer) rm
      | Some _ \<Rightarrow> upd_run runID (\<lambda>r. r\<lparr>rr_progressionTimers := rr_progressionTimers r @ [timer]\<rparr>) rm)"

definition removeStageTimer :: "string \<Rightarrow> nat \<Rightarrow> run_manager \<Rightarrow> run_manager" where
  "removeStageTimer runID timer rm =
     (case get_run rm runID of
        None \<Rightarrow> rm
      | Some _ \<Rightarrow> upd_run runID (\<lambda>r. r\<lparr>rr_progressionTimers := remove1 timer (rr_progressionTimers r)\<rparr>) rm)"

section \<open>Waiting for a stage to end\<close>

definition handleStageTimeout :: "string \<Rightarrow> parsedStage \<Rightarrow> string \<Rightarrow> run_manager \<Rightarrow> run_manager" where
  "handleStageTimeout runID stage actor rm =
     (case get_run rm runID of
        None \<Rightarrow> rm
      | Some record \<Rightarrow>
          let elapsedMs = wrap64 (int (now_ms rm) - rr_UpdatedAtMs record);
              effectiveTimeoutMs = go_div (getStageMaxDuration stage) 1000000;
              evidence = [\<lparr>evi_Kind = ''timeout'', evi_Ref = ''max_duration_ms='' @ dec_int effectiveTimeoutMs, evi_Note = None\<rparr>];
              event = mk_event runID (rr_ExecutionID record) EventTypeStageTimeout ActorSystem
                (no_correlation\<lparr>co_Stage := Some (st_Stage stage), co_StageID := Some (st_StageID stage)\<rparr>)
                [(''elapsed_ms'', JInt elapsedMs), (''stage'', JStr (st_Stage stage)), (''stage_id'', JStr (st_StageID stage)),
                 (''timeout_ms'', JInt effectiveTimeoutMs)] evidence;
              rm1 = appendEventWithLog runID event rm
          in snd (requestStopWithReason runID StopModeImmediate actor ''stage_timeout'' (Some evidence) rm1))"

datatype wait_case = CtxDone | MaxTimer | PlannedTimer

text \<open>The maximum timer exists only when it would fire before the planned one; a nil channel is never
  chosen, so without it the case \<open>MaxTimer\<close> cannot arise and is read as the planned one.\<close>

definition has_max_timer :: "parsedStage \<Rightarrow> bool" where
  "has_max_timer stage \<longleftrightarrow> getStageMaxDuration stage > 0 \<and> getStageMaxDuration stage < millis (st_DurationMs stage)"

definition waitForStageDurationWithTimeout :: "wait_case \<Rightarrow> string \<Rightarrow> parsedStage \<Rightarrow> string \<Rightarrow> run_manager \<Rightarrow> bool \<times> run_manager" where
  "waitForStageDurationWithTimeout chosen runID stage actor rm =
     (if millis (st_DurationMs stage) \<le> 0 then (True, rm)
      else
        let (planned, rm1) = new_timer rm;
            rm2 = addStageTimer runID planned rm1;
            (maxTimer, rm3) = (if has_max_timer stage
                then let (t, rm3) = new_timer rm2 in (Some t, addStageTimer runID t rm3) else (None, rm2));
            (result, rm4) =
              (if chosen = CtxDone then (False, stopTimer maxTimer (stopTimer (Some planned) rm3))
               else if chosen = MaxTimer \<and> maxTimer \<noteq> None
               then (False, handleStageTimeout runID stage actor (stopTimer (Some planned) rm3))
               else (True, stopTimer maxTimer rm3));
            rm5 = (case maxTimer of None \<Rightarrow> rm4 | Some t \<Rightarrow> removeStageTimer runID t rm4)
        in (result, removeStageTimer runID planned rm5))"

definition waitForStageDuration :: "bool \<Rightarrow> string \<Rightarrow> int \<Rightarrow> run_manager \<Rightarrow> bool \<times> run_manager" where
  "waitForStageDuration ctxDone runID duration rm =
     (if duration \<le> 0 then (True, rm)
      else
        let (timer, rm1) = new_timer rm;
            rm2 = addStageTimer runID timer rm1;
            rm3 = (if ctxDone then stopTimer (Some timer) rm2 else rm2)
        in (\<not> ctxDone, removeStageTimer runID timer rm3))"

section \<open>The evaluator of a stage\<close>

definition to_condition :: "parsedStopCondition \<Rightarrow> Condition" where
  "to_condition sc = \<lparr>c_ID = pc_ID sc, c_Metric = pc_Metric sc, c_Comparator = pc_Comparator sc,
     c_Threshold = pc_Threshold sc, c_WindowMs = pc_WindowMs sc, c_SustainWindows = pc_SustainWindows sc, c_Scope = pc_Scope sc\<rparr>"

definition stage_evaluator :: "string \<Rightarrow> parsedStage \<Rightarrow> Evaluator" where
  "stage_evaluator runID stage =
     (NewEvaluator runID (map to_condition (st_StopConditions stage)))
       \<lparr>e_StageID := st_StageID stage,
        e_StreamingConfig := map_option (\<lambda>c. \<lparr>stc_StreamStallSeconds = sc_StreamStallSeconds c,
          stc_MinEventsPerSecond = sc_MinEventsPerSecond c\<rparr>) (st_StreamingStopConfig stage)\<rparr>"

text \<open>The section that installs the evaluator's context; the run may have gone in between.\<close>

definition install_evaluator :: "string \<Rightarrow> parsedStage \<Rightarrow> run_manager \<Rightarrow> run_manager" where
  "install_evaluator runID stage rm =
     (let (ctx, rm1) = new_ctx rm
      in case get_run rm1 runID of
           None \<Rightarrow> cancel_ctx (Some ctx) rm1
         | Some _ \<Rightarrow>
             let rm2 = stopStopConditionEvaluatorLocked runID rm1;
                 rm3 = upd_run runID (\<lambda>r. r\<lparr>rr_stopConditionsCancel := Some ctx\<rparr>) rm2
             in spawn (GoEvaluate ctx runID stage) rm3)"

definition startStopConditionEvaluator :: "string \<Rightarrow> parsedStage \<Rightarrow> run_manager \<Rightarrow> run_manager" where
  "startStopConditionEvaluator runID stage rm =
     (if st_StopConditions stage = [] \<and> st_StreamingStopConfig stage = None then rm
      else case get_run rm runID of
        None \<Rightarrow> rm
      | Some _ \<Rightarrow> if \<not> rm_hasTelemetry rm then rm else install_evaluator runID stage rm)"

definition handleStopConditionTrigger :: "environment \<Rightarrow> string \<Rightarrow> parsedStage \<Rightarrow> Trigger \<Rightarrow> run_manager \<Rightarrow> run_manager" where
  "handleStopConditionTrigger E runID stage trigger rm =
     (case get_run rm runID of
        None \<Rightarrow> rm
      | Some record \<Rightarrow>
          let c = t_Condition trigger;
              note1 = ''observed='' @ env_fmtV E (t_Observed trigger) @ '' threshold='' @ env_fmtV E (c_Threshold c)
                @ '' window_ms='' @ dec_int (t_WindowMs trigger);
              evidence = [\<lparr>evi_Kind = ''metric'', evi_Ref = c_Metric c, evi_Note = Some note1\<rparr>];
              event = mk_event runID (rr_ExecutionID record) EventTypeStopConditionTriggered ActorSystem
                (no_correlation\<lparr>co_Stage := Some (st_Stage stage), co_StageID := Some (st_StageID stage)\<rparr>)
                [(''comparator'', JStr (c_Comparator c)), (''condition_id'', JStr (c_ID c)), (''failed_ops'', JInt (t_FailedOps trigger)),
                 (''latency_p99'', JInt (t_LatencyP99 trigger)), (''metric'', JStr (c_Metric c)), (''observed'', JNum (t_Observed trigger)),
                 (''stage'', JStr (st_Stage stage)), (''stage_id'', JStr (st_StageID stage)), (''threshold'', JNum (c_Threshold c)),
                 (''total_ops'', JInt (t_TotalOps trigger)), (''window_ms'', JInt (t_WindowMs trigger))] evidence;
              rm1 = appendEventWithLog runID event rm;
              reason = ''stop_condition_triggered: '' @ c_Metric c @ '' '' @ c_Comparator c @ '' ''
                @ env_fmtFixed E 4 (c_Threshold c) @ '' (observed '' @ env_fmtFixed E 4 (t_Observed trigger) @ '')'';
              rm2 = (if rm_hasTelemetry rm
                then SetRunMetadata runID [] (c_Metric c @ '' threshold exceeded: '' @ env_fmtFixed E 2 (t_Observed trigger)
                       @ '' > '' @ env_fmtFixed E 2 (c_Threshold c)) rm1
                else rm1)
          in snd (requestStopWithReason runID StopModeDrain ActorSystem reason (Some evidence) rm2))"

section \<open>Automatic ramp\<close>

record ramp_plan =
  rp_start :: int
  rp_target :: int
  rp_steps :: int
  rp_hold :: int
  rp_increment :: int

text \<open>The numbers \<^verbatim>\<open>startAutoRamp\<close> computes; None: there is nothing to ramp to.\<close>

definition plan_ramp :: "parsedStage \<Rightarrow> parsedRunConfig \<Rightarrow> ramp_plan option" where
  "plan_ramp stage cfg =
     (let targetVUs0 = ld_TargetVUs (st_Load stage)
      in if targetVUs0 \<le> 0 then None
         else
           let targetVUs = capped_target cfg targetVUs0;
               startVUs0 = ld_StartVUs (st_Load stage);
               startVUs1 = (if startVUs0 \<le> 0 then max 1 (go_div targetVUs 10) else startVUs0);
               startVUs = (if startVUs1 > targetVUs then targetVUs else startVUs1);
               rampSteps = (if ld_RampSteps (st_Load stage) \<le> 0 then 5 else ld_RampSteps (st_Load stage));
               hold0 = ld_StepHoldMs (st_Load stage);
               hold1 = (if hold0 \<le> 0 \<and> st_DurationMs stage > 0 then go_div (st_DurationMs stage) rampSteps else hold0);
               stepHoldMs = (if hold1 \<le> 0 then 10000 else hold1);
               inc0 = go_div (targetVUs - startVUs) rampSteps;
               vuIncrement = (if inc0 \<le> 0 then 1 else inc0)
           in Some \<lparr>rp_start = startVUs, rp_target = targetVUs, rp_steps = rampSteps, rp_hold = stepHoldMs,
                    rp_increment = vuIncrement\<rparr>)"

text \<open>The virtual users running after step \<open>step\<close>.\<close>

definition next_vus :: "ramp_plan \<Rightarrow> int \<Rightarrow> int" where
  "next_vus p step =
     (let n = rp_start p + rp_increment p * step in if n > rp_target p then rp_target p else n)"

text \<open>The loop of the ramp goroutine from \<open>step\<close> on; \<open>True\<close> in the list: the hold timer fired, \<open>False\<close>: the
  context was cancelled.\<close>

fun ramp_loop :: "environment \<Rightarrow> string \<Rightarrow> string \<Rightarrow> parsedStage \<Rightarrow> parsedRunConfig \<Rightarrow> ramp_plan \<Rightarrow> bool list \<Rightarrow> int \<Rightarrow> int
    \<Rightarrow> run_manager \<Rightarrow> run_manager" where
  "ramp_loop E runID exe stage cfg p [] step currentVUs rm = rm"
| "ramp_loop E runID exe stage cfg p (fired # cases) step currentVUs rm =
     (if step > rp_steps p then rm
      else
        let (timer, rm1) = new_timer rm;
            rm2 = addStageTimer runID timer rm1
        in if \<not> fired then removeStageTimer runID timer (stopTimer (Some timer) rm2)
           else
             let rm3 = removeStageTimer runID timer rm2
             in case get_run rm3 runID of
                  None \<Rightarrow> rm3
                | Some record \<Rightarrow>
                    if rr_State record \<noteq> RunStateRampRunning then rm3
                    else
                      let nextVUs = next_vus p step;
                          additionalVUs = nextVUs - currentVUs;
                          rm4 = (if additionalVUs > 0
                                 then dispatchRampAssignments E runID exe stage cfg additionalVUs currentVUs
                                        (emitRampStepEvent runID exe step nextVUs (rp_target p) ''ramp_step'' rm3)
                                 else rm3);
                          current1 = (if additionalVUs > 0 then nextVUs else currentVUs)
                      in if current1 \<ge> rp_target p
                         then emitRampStepEvent runID exe (rp_steps p) (rp_target p) (rp_target p) ''ramp_complete'' rm4
                         else ramp_loop E runID exe stage cfg p cases (step + 1) current1 rm4)"

definition install_ramp :: "string \<Rightarrow> run_manager \<Rightarrow> nat \<times> run_manager" where
  "install_ramp runID rm =
     (let (ctx, rm1) = new_ctx rm in (ctx, upd_run runID (\<lambda>r. r\<lparr>rr_rampCancel := Some ctx\<rparr>) rm1))"

definition startAutoRamp :: "environment \<Rightarrow> string \<Rightarrow> string \<Rightarrow> parsedStage \<Rightarrow> parsedRunConfig \<Rightarrow> run_manager \<Rightarrow> run_manager" where
  "startAutoRamp E runID exe stage cfg rm =
     (case plan_ramp stage cfg of
        None \<Rightarrow> rm
      | Some p \<Rightarrow>
          let (ctx, rm1) = install_ramp runID rm;
              rm2 = emitRampStepEvent runID exe 0 (rp_start p) (rp_target p) ''ramp_started'' rm1;
              rm3 = dispatchRampAssignments E runID exe stage cfg (rp_start p) 0 rm2
          in spawn (GoRamp ctx runID exe stage cfg) rm3)"

section \<open>Transitions between stages\<close>

definition set_active_stage :: "string \<Rightarrow> StageName \<Rightarrow> string \<Rightarrow> run_manager \<Rightarrow> run_manager" where
  "set_active_stage runID stageName stageID rm =
     upd_run runID (\<lambda>r. r\<lparr>rr_ActiveStage := Some \<lparr>ai_Stage = stageName, ai_StageID = stageID\<rparr>\<rparr>) rm"

definition baseline_enter :: "string \<Rightarrow> string \<Rightarrow> run_manager \<Rightarrow> (run_error + (raw_config \<times> string)) \<times> run_manager" where
  "baseline_enter runID actor rm =
     (case get_run rm runID of
        None \<Rightarrow> (Inl (NewNotFoundError runID), rm)
      | Some record \<Rightarrow>
          if rr_State record \<noteq> RunStatePreflightRunning
          then (Inl (NewInvalidStateError runID (rr_State record) RunStatePreflightRunning ''transition to baseline''), rm)
          else if \<not> CanTransition (rr_State record) RunStatePreflightPassed
          then (Inl (NewInvalidTransitionError runID (rr_State record) RunStatePreflightPassed), rm)
          else
            let rm1 = upd_run runID (\<lambda>r. r\<lparr>rr_State := RunStatePreflightPassed, rr_UpdatedAtMs := int (now_ms rm)\<rparr>) rm;
                rm2 = appendEventWithLog runID (transition_event runID (rr_ExecutionID record) actor (rr_State record)
                        RunStatePreflightPassed ''preflight_completed'' []) rm1
            in if \<not> CanTransition RunStatePreflightPassed RunStateBaselineRunning
               then (Inl (NewInvalidTransitionError runID RunStatePreflightPassed RunStateBaselineRunning), rm2)
               else (Inr (rr_Config record, rr_ExecutionID record),
                     upd_run runID (\<lambda>r. r\<lparr>rr_State := RunStateBaselineRunning, rr_UpdatedAtMs := int (now_ms rm)\<rparr>) rm2))"

text \<open>The first section of the transitions to ramp and to soak.\<close>

definition stage_enter :: "RunState \<Rightarrow> RunState \<Rightarrow> string \<Rightarrow> string \<Rightarrow> run_manager
    \<Rightarrow> (run_error + (raw_config \<times> string)) \<times> run_manager" where
  "stage_enter from to operation runID rm =
     (case get_run rm runID of
        None \<Rightarrow> (Inl (NewNotFoundError runID), rm)
      | Some record \<Rightarrow>
          if rr_State record \<noteq> from
          then (Inl (NewInvalidStateError runID (rr_State record) from operation), rm)
          else if \<not> CanTransition (rr_State record) to
          then (Inl (NewInvalidTransitionError runID (rr_State record) to), rm)
          else (Inr (rr_Config record, rr_ExecutionID record),
                upd_run runID (\<lambda>r. r\<lparr>rr_State := to, rr_UpdatedAtMs := int (now_ms rm)\<rparr>) rm))"

definition TransitionToBaseline :: "environment \<Rightarrow> string \<Rightarrow> string \<Rightarrow> run_manager \<Rightarrow> run_error option \<times> run_manager" where
  "TransitionToBaseline E runID actor rm =
     (case baseline_enter runID actor rm of
        (Inl err, rm1) \<Rightarrow> (Some err, rm1)
      | (Inr (config, exe), rm1) \<Rightarrow>
          (case parseRunConfig config of
             None \<Rightarrow> (Some (WrappedError ''failed to parse config'' (PlainError ''failed to parse run config'')), rm1)
           | Some cfg \<Rightarrow>
               (case findStageByName cfg StageNameBaseline of
                  None \<Rightarrow> (Some (PlainError ''no enabled baseline stage found''), rm1)
                | Some stage \<Rightarrow>
                    let rm2 = set_active_stage runID StageNameBaseline (st_StageID stage) rm1;
                        rm3 = appendEventWithLog runID (transition_event runID exe actor RunStatePreflightPassed
                                RunStateBaselineRunning ''baseline_started'' []) rm2;
                        rm4 = (if scheduler_ready rm3
                               then snd (createAndDispatchAssignmentsForStage E runID exe config StageNameBaseline rm3) else rm3)
                    in (None, startStopConditionEvaluator runID stage rm4))))"

definition TransitionToRamp :: "environment \<Rightarrow> string \<Rightarrow> string \<Rightarrow> run_manager \<Rightarrow> run_error option \<times> run_manager" where
  "TransitionToRamp E runID actor rm =
     (case stage_enter RunStateBaselineRunning RunStateRampRunning ''transition to ramp'' runID rm of
        (Inl err, rm1) \<Rightarrow> (Some err, rm1)
      | (Inr (config, exe), rm1) \<Rightarrow>
          (case parseRunConfig config of
             None \<Rightarrow> (Some (WrappedError ''failed to parse config'' (PlainError ''failed to parse run config'')), rm1)
           | Some cfg \<Rightarrow>
               (case findStageByName cfg StageNameRamp of
                  None \<Rightarrow> (Some (PlainError ''no enabled ramp stage found''), rm1)
                | Some stage \<Rightarrow>
                    let rm2 = set_active_stage runID StageNameRamp (st_StageID stage) rm1;
                        rm3 = appendEventWithLog runID (transition_event runID exe actor RunStateBaselineRunning
                                RunStateRampRunning ''ramp_started'' []) rm2;
                        rm4 = (if scheduler_ready rm3 then startAutoRamp E runID exe stage cfg rm3 else rm3)
                    in (None, startStopConditionEvaluator runID stage rm4))))"

definition TransitionToSoak :: "environment \<Rightarrow> string \<Rightarrow> string \<Rightarrow> run_manager \<Rightarrow> run_error option \<times> run_manager" where
  "TransitionToSoak E runID actor rm =
     (case stage_enter RunStateRampRunning RunStateSoakRunning ''transition to soak'' runID rm of
        (Inl err, rm1) \<Rightarrow> (Some err, rm1)
      | (Inr (config, exe), rm1) \<Rightarrow>
          (case parseRunConfig config of
             None \<Rightarrow> (Some (WrappedError ''failed to parse config'' (PlainError ''failed to parse run config'')), rm1)
           | Some cfg \<Rightarrow>
               (case findStageByName cfg StageNameSoak of
                  None \<Rightarrow> (Some (PlainError ''no enabled soak stage found''), rm1)
                | Some stage \<Rightarrow>
                    let rm2 = set_active_stage runID StageNameSoak (st_StageID stage) rm1;
                        rm3 = appendEventWithLog runID (transition_event runID exe actor RunStateRampRunning
                                RunStateSoakRunning ''soak_started'' []) rm2;
                        rm4 = (if scheduler_ready rm3
                               then snd (createAndDispatchAssignmentsForStage E runID exe config StageNameSoak rm3) else rm3)
                    in (None, startStopConditionEvaluator runID stage rm4))))"

section \<open>Stage progression\<close>

text \<open>The section of \<^verbatim>\<open>startStageProgression\<close> and the goroutine it starts.\<close>

definition install_progression :: "string \<Rightarrow> string \<Rightarrow> parsedRunConfig \<Rightarrow> string \<Rightarrow> run_manager \<Rightarrow> run_manager" where
  "install_progression runID stageID cfg actor rm =
     (let (ctx, rm1) = new_ctx rm
      in case get_run rm1 runID of
           None \<Rightarrow> cancel_ctx (Some ctx) rm1
         | Some _ \<Rightarrow>
             let rm2 = upd_run runID (\<lambda>r. r\<lparr>rr_progressionCancel := Some ctx, rr_progressionTimers := [],
                     rr_ActiveStage := Some \<lparr>ai_Stage = StageNamePreflight, ai_StageID = stageID\<rparr>,
                     rr_UpdatedAtMs := int (now_ms rm1)\<rparr>) rm1
             in spawn (GoProgress ctx runID cfg actor) rm2)"

definition startStageProgression :: "string \<Rightarrow> raw_config \<Rightarrow> string \<Rightarrow> run_manager \<Rightarrow> run_manager" where
  "startStageProgression runID config actor rm =
     (case parseRunConfig config of
        None \<Rightarrow> rm
      | Some cfg \<Rightarrow>
          (case (findStageByName cfg StageNamePreflight, findStageByName cfg StageNameBaseline, findStageByName cfg StageNameRamp) of
             (Some preflight, Some baseline, Some ramp) \<Rightarrow>
               install_progression runID (st_StageID preflight) cfg actor rm
           | _ \<Rightarrow> rm))"

text \<open>One stage of the goroutine: wait, then move on; a failed move stops the run.\<close>

definition leave_stage :: "wait_case \<Rightarrow> (run_manager \<Rightarrow> run_error option \<times> run_manager) \<Rightarrow> string \<Rightarrow> string \<Rightarrow> parsedStage \<Rightarrow> string
    \<Rightarrow> run_manager \<Rightarrow> bool \<times> run_manager" where
  "leave_stage chosen transition failReason runID stage actor rm =
     (case waitForStageDurationWithTimeout chosen runID stage actor rm of
        (False, rm1) \<Rightarrow> (False, rm1)
      | (True, rm1) \<Rightarrow>
          (case transition rm1 of
             (Some _, rm2) \<Rightarrow> (False, snd (requestStopWithReason runID StopModeImmediate ActorSystem failReason None rm2))
           | (None, rm2) \<Rightarrow> (True, rm2)))"

text \<open>The body of the goroutine; the four waits are the arguments.\<close>

definition progression :: "environment \<Rightarrow> wait_case \<Rightarrow> wait_case \<Rightarrow> wait_case \<Rightarrow> wait_case \<Rightarrow> string \<Rightarrow> parsedRunConfig \<Rightarrow> string
    \<Rightarrow> run_manager \<Rightarrow> run_manager" where
  "progression E w1 w2 w3 w4 runID cfg actor rm =
     (case (findStageByName cfg StageNamePreflight, findStageByName cfg StageNameBaseline, findStageByName cfg StageNameRamp) of
        (Some preflight, Some baseline, Some ramp) \<Rightarrow>
          (case leave_stage w1 (TransitionToBaseline E runID actor) ''preflight_passed_timeout'' runID preflight actor rm of
             (False, rm1) \<Rightarrow> rm1
           | (True, rm1) \<Rightarrow>
               (case leave_stage w2 (TransitionToRamp E runID actor) ''stage_transition_failed'' runID baseline actor rm1 of
                  (False, rm2) \<Rightarrow> rm2
                | (True, rm2) \<Rightarrow>
                    (case waitForStageDurationWithTimeout w3 runID ramp actor rm2 of
                       (False, rm3) \<Rightarrow> rm3
                     | (True, rm3) \<Rightarrow>
                         (case findStageByName cfg StageNameSoak of
                            None \<Rightarrow> snd (RequestStop runID StopModeDrain actor rm3)
                          | Some soak \<Rightarrow>
                              (case TransitionToSoak E runID actor rm3 of
                                 (Some _, rm4) \<Rightarrow> snd (requestStopWithReason runID StopModeImmediate ActorSystem
                                                    ''stage_transition_failed'' None rm4)
                               | (None, rm4) \<Rightarrow>
                                   (case waitForStageDurationWithTimeout w4 runID soak actor rm4 of
                                      (False, rm5) \<Rightarrow> rm5
                                    | (True, rm5) \<Rightarrow> snd (RequestStop runID StopModeDrain actor rm5)))))))
      | _ \<Rightarrow> rm)"

section \<open>Starting a run\<close>

definition StartRun :: "environment \<Rightarrow> string \<Rightarrow> string \<Rightarrow> run_manager \<Rightarrow> run_error option \<times> run_manager" where
  "StartRun E runID actor rm =
     (case start_check runID rm of
        Inl err \<Rightarrow> (Some err, rm)
      | Inr (config, exe) \<Rightarrow>
          let schedulerConfigured = (rm_hasRegistry rm \<or> rm_hasAllocator rm \<or> rm_hasLeaseManager rm \<or> rm_hasSender rm);
              schedulerComplete = scheduler_ready rm
          in if schedulerConfigured \<and> \<not> schedulerComplete then
               (Some (PlainError (''scheduler partially configured for run '' @ runID @ '': some components are nil'')),
                transitionToFailedFromCreated runID exe actor ''scheduler_misconfiguration'' rm)
             else
               let (allocated, rm1) = (if schedulerComplete
                     then tryAllocateForStage E runID exe config StageNamePreflight rm else (True, rm))
               in if \<not> allocated then
                    (Some (PlainError (''allocation failed for run '' @ runID)),
                     transitionToFailedFromCreated runID exe actor ''allocation_failed'' rm1)
                  else
                    (case start_commit runID exe actor rm1 of
                       (Some err, rm2) \<Rightarrow> (Some err, rm2)
                     | (None, rm2) \<Rightarrow>
                         let rm3 = (if schedulerComplete
                               then snd (createAndDispatchAssignmentsForStage E runID exe config StageNamePreflight rm2) else rm2)
                         in (None, startStageProgression runID config ActorAutoramp rm3)))"

end
