(* ===== verification/Run_Analysis.thy ===== *)
theory Run_Analysis
  imports Run_Stages
begin

text \<open>
  The end of a run: draining, analysis, reports (\<^verbatim>\<open>analysis.go\<close>, \<^verbatim>\<open>TransitionToAnalyzing\<close> of \<^verbatim>\<open>stages.go\<close>,
  \<^verbatim>\<open>finalizeRun\<close> of \<^verbatim>\<open>manager.go\<close>). The telemetry store, the aggregator, the reporter and the artifact store
  are arguments: what each returns, on success and on failure.
\<close>

section \<open>Data\<close>

record TelemetryData =
  td_RunID :: string
  td_ScenarioID :: string
  td_StartTimeMs :: int
  td_EndTimeMs :: int
  td_StopReason :: string
  td_Operations :: "OperationResult list"

record 'm Report =
  rep_RunID :: string
  rep_ScenarioID :: string
  rep_StartTime :: int
  rep_EndTime :: int
  rep_Duration :: int
  rep_Metrics :: 'm
  rep_StopReason :: string

record ArtifactInfo =
  ar_RunID :: string
  ar_ArtifactType :: string
  ar_Filename :: string
  ar_Path :: string
  ar_SizeBytes :: int

text \<open>\<open>an_ctxErr i\<close>: the \<open>i\<close>-th look at the context finds it done.\<close>

record 'm analysis_env =
  an_ctxErr :: "nat \<Rightarrow> bool"
  an_telemetry :: "string \<Rightarrow> string + TelemetryData"
  an_compute :: "int \<Rightarrow> int \<Rightarrow> OperationResult list \<Rightarrow> 'm"
  an_json :: "'m Report \<Rightarrow> string + string"
  an_html :: "'m Report \<Rightarrow> string + string"
  an_save :: "string \<Rightarrow> string \<Rightarrow> string \<Rightarrow> string + ArtifactInfo"
  an_duration :: "int \<Rightarrow> string"

section \<open>Outcomes\<close>

definition emitReportGeneratedEvent :: "string \<Rightarrow> string \<Rightarrow> ArtifactInfo \<Rightarrow> ArtifactInfo \<Rightarrow> run_manager \<Rightarrow> run_manager" where
  "emitReportGeneratedEvent runID exe jsonInfo htmlInfo =
     appendEventWithLog runID (mk_event runID exe EventTypeReportGenerated ActorAnalysis no_correlation
       [(''reports'', JArr
          [JObj [(''filename'', JStr (ar_Filename jsonInfo)), (''path'', JStr (ar_Path jsonInfo)),
             (''size'', JInt (ar_SizeBytes jsonInfo)), (''type'', JStr ''json'')],
           JObj [(''filename'', JStr (ar_Filename htmlInfo)), (''path'', JStr (ar_Path htmlInfo)),
             (''size'', JInt (ar_SizeBytes htmlInfo)), (''type'', JStr ''html'')]]),
        (''run_id'', JStr runID)]
       [\<lparr>evi_Kind = ''artifact'', evi_Ref = ar_Path jsonInfo, evi_Note = Some ''JSON report''\<rparr>,
        \<lparr>evi_Kind = ''artifact'', evi_Ref = ar_Path htmlInfo, evi_Note = Some ''HTML report''\<rparr>])"

text \<open>An emergency stop ends in \<open>aborted\<close>, everything else in \<open>completed\<close>.\<close>

definition analysis_outcome :: "RunRecord \<Rightarrow> RunState \<times> string" where
  "analysis_outcome record =
     (case rr_StopReason record of
        None \<Rightarrow> (RunStateCompleted, ''analysis_completed'')
      | Some why \<Rightarrow>
          if sr_Reason why = ''emergency_stop'' \<or> (sr_Mode why = StopModeImmediate \<and> sr_Actor why = ''emergency'')
          then (RunStateAborted, ''emergency_stop'') else (RunStateCompleted, ''analysis_completed''))"

definition completeAnalysis :: "string \<Rightarrow> run_manager \<Rightarrow> run_manager" where
  "completeAnalysis runID rm =
     (case get_run rm runID of
        None \<Rightarrow> rm
      | Some record \<Rightarrow>
          if rr_State record \<noteq> RunStateAnalyzing then rm
          else
            let (finalState, trigger) = analysis_outcome record;
                exe = rr_ExecutionID record;
                rm1 = upd_run runID (\<lambda>r. r\<lparr>rr_State := finalState, rr_UpdatedAtMs := int (now_ms rm)\<rparr>) rm;
                rm2 = appendEventWithLog runID (mk_event runID exe EventTypeAnalysisCompleted ActorAnalysis no_correlation
                        [(''run_id'', JStr runID)] []) rm1
            in appendEventWithLog runID (transition_event runID exe ActorAnalysis (rr_State record) finalState trigger []) rm2)"

definition failAnalysis :: "string \<Rightarrow> string \<Rightarrow> string \<Rightarrow> run_manager \<Rightarrow> run_manager" where
  "failAnalysis runID reason details rm =
     (case get_run rm runID of
        None \<Rightarrow> rm
      | Some record \<Rightarrow>
          if rr_State record \<noteq> RunStateAnalyzing then rm
          else
            let exe = rr_ExecutionID record;
                rm1 = upd_run runID (\<lambda>r. r\<lparr>rr_State := RunStateFailed, rr_UpdatedAtMs := int (now_ms rm)\<rparr>) rm;
                rm2 = appendEventWithLog runID (mk_event runID exe EventTypeDecision ActorAnalysis no_correlation
                        [(''details'', JStr details), (''reason'', JStr reason), (''run_id'', JStr runID)] []) rm1
            in appendEventWithLog runID (mk_event runID exe EventTypeStateTransition ActorAnalysis no_correlation
                 [(''actor'', JStr ''analysis''), (''from_state'', js_state (rr_State record)), (''reason'', JStr reason),
                  (''to_state'', js_state RunStateFailed), (''trigger'', JStr ''analysis_failed'')] []) rm2)"

section \<open>The analysis\<close>

text \<open>After the two stores are known: read, aggregate, report, store. The reason and the error of the
  first step that fails, or the two stored artifacts; \<open>None\<close>: the context was done.\<close>

definition make_reports :: "'m analysis_env \<Rightarrow> string \<Rightarrow> string \<Rightarrow> ((string \<times> string \<times> string) + (ArtifactInfo \<times> ArtifactInfo)) option" where
  "make_reports A runID scenarioID =
     (if an_ctxErr A 1 then None
      else case an_telemetry A runID of
        Inl err \<Rightarrow> Some (Inl (''telemetry_retrieval_failed'', err, ''failed to retrieve telemetry data''))
      | Inr td \<Rightarrow>
          if an_ctxErr A 2 then None
          else
            let metrics = an_compute A (td_StartTimeMs td) (td_EndTimeMs td) (td_Operations td)
            in if an_ctxErr A 3 then None
               else
                 let report = \<lparr>rep_RunID = runID, rep_ScenarioID = scenarioID, rep_StartTime = td_StartTimeMs td,
                       rep_EndTime = td_EndTimeMs td, rep_Duration = wrap64 (td_EndTimeMs td - td_StartTimeMs td),
                       rep_Metrics = metrics, rep_StopReason = td_StopReason td\<rparr>
                 in case an_json A report of
                      Inl err \<Rightarrow> Some (Inl (''json_report_generation_failed'', err, ''failed to generate JSON report''))
                    | Inr jsonData \<Rightarrow>
                        if an_ctxErr A 4 then None
                        else case an_html A report of
                          Inl err \<Rightarrow> Some (Inl (''html_report_generation_failed'', err, ''failed to generate HTML report''))
                        | Inr htmlData \<Rightarrow>
                            if an_ctxErr A 5 then None
                            else case an_save A runID ''report.json'' jsonData of
                              Inl err \<Rightarrow> Some (Inl (''json_artifact_storage_failed'', err, ''failed to store JSON report''))
                            | Inr jsonInfo \<Rightarrow>
                                (case an_save A runID ''report.html'' htmlData of
                                   Inl err \<Rightarrow> Some (Inl (''html_artifact_storage_failed'', err, ''failed to store HTML report''))
                                 | Inr htmlInfo \<Rightarrow> Some (Inr (jsonInfo, htmlInfo))))"

definition analyzeRunWithContext :: "'m analysis_env \<Rightarrow> string \<Rightarrow> run_manager \<Rightarrow> run_error option \<times> run_manager" where
  "analyzeRunWithContext A runID rm =
     (if an_ctxErr A 0 then (Some ContextError, rm)
      else case get_run rm runID of
        None \<Rightarrow> (Some (NewNotFoundError runID), rm)
      | Some record \<Rightarrow>
          if rr_State record \<noteq> RunStateAnalyzing
          then (Some (NewInvalidStateError runID (rr_State record) RunStateAnalyzing ''analyze''), rm)
          else if \<not> rm_hasTelemetry rm
          then (Some (PlainError ''telemetry store not configured''),
                failAnalysis runID ''telemetry_store_not_configured'' ''no telemetry store configured'' rm)
          else if \<not> rm_hasArtifacts rm
          then (Some (PlainError ''artifact store not configured''),
                failAnalysis runID ''artifact_store_not_configured'' ''no artifact store configured'' rm)
          else case make_reports A runID (rr_ScenarioID record) of
            None \<Rightarrow> (Some ContextError, rm)
          | Some (Inl (reason, err, msg)) \<Rightarrow> (Some (WrappedError msg (PlainError err)), failAnalysis runID reason err rm)
          | Some (Inr (jsonInfo, htmlInfo)) \<Rightarrow>
              (None, completeAnalysis runID (emitReportGeneratedEvent runID (rr_ExecutionID record) jsonInfo htmlInfo rm)))"

definition AnalyzeRun :: "'m analysis_env \<Rightarrow> string \<Rightarrow> run_manager \<Rightarrow> run_error option \<times> run_manager" where
  "AnalyzeRun A runID rm = analyzeRunWithContext A runID rm"

text \<open>The \<^verbatim>\<open>select\<close> of \<^verbatim>\<open>analyzeRunWithTimeout\<close>: the analysis is done, the deadline passes first, or the run
  manager shuts down first. In the last two cases the goroutine that analyzes goes on by itself.\<close>

datatype analysis_case = AnalysisDone | AnalysisDeadline | AnalysisCancelled

definition analyzeRunWithTimeout :: "analysis_case \<Rightarrow> 'm analysis_env \<Rightarrow> string \<Rightarrow> int \<Rightarrow> run_manager \<Rightarrow> run_error option \<times> run_manager" where
  "analyzeRunWithTimeout chosen A runID timeout rm =
     (case chosen of
        AnalysisDone \<Rightarrow> analyzeRunWithContext A runID rm
      | AnalysisDeadline \<Rightarrow>
          (Some (PlainError (''analysis timeout after '' @ an_duration A timeout)),
           failAnalysis runID ''analysis_timeout'' (''analysis exceeded '' @ an_duration A timeout @ '' timeout'')
             (spawn (GoAnalyze runID) rm))
      | AnalysisCancelled \<Rightarrow> (Some ContextError, spawn (GoAnalyze runID) rm))"

definition analyzing_enter :: "string \<Rightarrow> string \<Rightarrow> run_manager \<Rightarrow> (run_error + raw_config) \<times> run_manager" where
  "analyzing_enter runID actor rm =
     (case get_run rm runID of
        None \<Rightarrow> (Inl (NewNotFoundError runID), rm)
      | Some record \<Rightarrow>
          if rr_State record \<noteq> RunStateStopping
          then (Inl (NewInvalidStateError runID (rr_State record) RunStateStopping ''transition to analyzing''), rm)
          else if \<not> CanTransition (rr_State record) RunStateAnalyzing
          then (Inl (NewInvalidTransitionError runID (rr_State record) RunStateAnalyzing), rm)
          else
            let exe = rr_ExecutionID record;
                rm1 = upd_run runID (\<lambda>r. r\<lparr>rr_State := RunStateAnalyzing, rr_UpdatedAtMs := int (now_ms rm)\<rparr>) rm;
                rm2 = appendEventWithLog runID (transition_event runID exe actor (rr_State record) RunStateAnalyzing ''workers_drained'' []) rm1;
                rm3 = appendEventWithLog runID (mk_event runID exe EventTypeAnalysisStarted ActorAnalysis no_correlation
                        [(''run_id'', JStr runID)] []) rm2
            in (Inr (rr_Config record), rm3))"

definition TransitionToAnalyzing :: "analysis_case \<Rightarrow> 'm analysis_env \<Rightarrow> string \<Rightarrow> string \<Rightarrow> run_manager \<Rightarrow> run_error option \<times> run_manager" where
  "TransitionToAnalyzing chosen A runID actor rm =
     (case analyzing_enter runID actor rm of
        (Inl err, rm1) \<Rightarrow> (Some err, rm1)
      | (Inr config, rm1) \<Rightarrow> analyzeRunWithTimeout chosen A runID (getAnalysisTimeout config) rm1)"

section \<open>Finalizing\<close>

text \<open>After the drain.\<close>

definition finalize_end :: "analysis_case \<Rightarrow> 'm analysis_env \<Rightarrow> string \<Rightarrow> string \<Rightarrow> run_manager \<Rightarrow> run_manager" where
  "finalize_end chosen A runID actor rm =
     (case finalize_check runID rm of
        None \<Rightarrow> rm
      | Some FinComplete \<Rightarrow> transitionToCompleted runID actor ''no_telemetry'' rm
      | Some _ \<Rightarrow> snd (TransitionToAnalyzing chosen A runID actor rm))"

text \<open>The whole goroutine, undisturbed: whether the timer or the channel ends the drain makes no
  difference to the state.\<close>

definition finalizeRun :: "analysis_case \<Rightarrow> 'm analysis_env \<Rightarrow> string \<Rightarrow> int \<Rightarrow> string \<Rightarrow> run_manager \<Rightarrow> run_manager" where
  "finalizeRun chosen A runID drainTimeout actor rm =
     (if drainTimeout > 0
      then (case finalize_begin runID rm of
              None \<Rightarrow> rm
            | Some (drainCancel, rm1) \<Rightarrow> finalize_end chosen A runID actor rm1)
      else finalize_end chosen A runID actor rm)"

end
