(* ===== verification/Run_Failure.thy ===== *)
theory Run_Failure
  imports Run_Analysis
begin

text \<open>
  Loss of a worker (\<^verbatim>\<open>internal/controlplane/runmanager/worker_failure.go\<close>) and the callback that
  \<^verbatim>\<open>cmd/server/main.go\<close> gives to the heartbeat monitor.
\<close>

section \<open>Policies\<close>

definition PolicyFailFast :: string where "PolicyFailFast = ''fail_fast''"
definition PolicyReplaceIfPossible :: string where "PolicyReplaceIfPossible = ''replace_if_possible''"
definition PolicyBestEffort :: string where "PolicyBestEffort = ''best_effort''"

definition IsValidWorkerFailurePolicy :: "string \<Rightarrow> bool" where
  "IsValidWorkerFailurePolicy policy \<longleftrightarrow> policy \<in> set [PolicyFailFast, PolicyReplaceIfPossible, PolicyBestEffort]"

record parsedSafetyConfig =
  psc_WorkerFailurePolicy :: string

record failure_config =
  fc_Safety :: parsedSafetyConfig

definition failure_config_decoder :: "failure_config decoder" where
  "failure_config_decoder = dec_struct
     [fld ''safety'' fc_Safety fc_Safety_update (dec_struct
        [fld ''worker_failure_policy'' psc_WorkerFailurePolicy psc_WorkerFailurePolicy_update dec_string])]"

definition getWorkerFailurePolicy :: "raw_config \<Rightarrow> string" where
  "getWorkerFailurePolicy config =
     (case Unmarshal failure_config_decoder \<lparr>fc_Safety = \<lparr>psc_WorkerFailurePolicy = []\<rparr>\<rparr> config of
        None \<Rightarrow> PolicyFailFast
      | Some parsed \<Rightarrow>
          if psc_WorkerFailurePolicy (fc_Safety parsed) = [] then PolicyFailFast
          else psc_WorkerFailurePolicy (fc_Safety parsed))"

section \<open>Handlers\<close>

definition handleFailFastLocked :: "string \<Rightarrow> string \<Rightarrow> run_manager \<Rightarrow> run_manager" where
  "handleFailFastLocked runID workerID rm =
     (case get_run rm runID of
        None \<Rightarrow> rm
      | Some record \<Rightarrow>
          let rm1 = stopStopConditionEvaluatorLocked runID (cancelStageProgressionLocked runID rm);
              now = int (now_ms rm);
              exe = rr_ExecutionID record;
              rm2 = upd_run runID (\<lambda>r. r\<lparr>rr_State := RunStateStopping, rr_UpdatedAtMs := now,
                      rr_StopReason := Some \<lparr>sr_Mode = StopModeImmediate,
                        sr_Reason = ''worker_failure: worker '' @ workerID @ '' lost'', sr_Actor = ActorSystem, sr_AtMs = now\<rparr>\<rparr>) rm1;
              rm3 = init_drainCancel runID rm2;
              rm4 = appendEventWithLog runID (mk_event runID exe EventTypeStopRequested ActorSystem no_correlation
                      [(''actor'', JStr ActorSystem), (''mode'', JStr (stop_mode_name StopModeImmediate)),
                       (''policy'', JStr PolicyFailFast), (''reason'', JStr ''worker_failure''), (''worker_id'', JStr workerID)]
                      [\<lparr>evi_Kind = ''worker'', evi_Ref = workerID, evi_Note = Some ''worker heartbeat timeout''\<rparr>]) rm3;
              rm5 = appendEventWithLog runID (mk_event runID exe EventTypeStateTransition ActorSystem no_correlation
                      [(''actor'', JStr ActorSystem), (''from_state'', js_state (rr_State record)), (''policy'', JStr PolicyFailFast),
                       (''to_state'', js_state RunStateStopping), (''trigger'', JStr ''worker_failure''), (''worker_id'', JStr workerID)] []) rm4
          in spawn (GoFinalize runID ActorSystem (FinStart (getDrainTimeout (rr_Config record)))) rm5)"

definition emitReallocationFailedDecision :: "string \<Rightarrow> string \<Rightarrow> string \<Rightarrow> string \<Rightarrow> run_manager \<Rightarrow> run_manager" where
  "emitReallocationFailedDecision runID exe workerID reason =
     appendEventWithLog runID (mk_event runID exe EventTypeDecision ActorSystem no_correlation
       [(''decision_type'', JStr ''reallocation_failed''), (''fallback'', JStr PolicyFailFast),
        (''policy'', JStr PolicyReplaceIfPossible), (''reason'', JStr reason), (''worker_id'', JStr workerID)]
       [\<lparr>evi_Kind = ''worker'', evi_Ref = workerID, evi_Note = Some ''worker heartbeat timeout''\<rparr>])"

definition getStageDuration :: "parsedRunConfig \<Rightarrow> string \<Rightarrow> int" where
  "getStageDuration cfg stageID =
     (case find (\<lambda>s. st_StageID s = stageID) (cf_Stages cfg) of None \<Rightarrow> 0 | Some s \<Rightarrow> st_DurationMs s)"

text \<open>What can be reallocated: the stage, the configuration, the target and the new allocation, or the
  reason why it cannot.\<close>

definition plan_replacement :: "environment \<Rightarrow> string \<Rightarrow> RunRecord \<Rightarrow> string \<Rightarrow> run_manager
    \<Rightarrow> string + (ActiveStageInfo \<times> parsedRunConfig \<times> int \<times> allocation)" where
  "plan_replacement E runID record workerID rm =
     (case rr_ActiveStage record of
        None \<Rightarrow> Inl ''no_active_stage''
      | Some active \<Rightarrow>
          (case parseRunConfig (rr_Config record) of
             None \<Rightarrow> Inl ''config_parse_error''
           | Some cfg \<Rightarrow>
               let targetVUs0 = (case find (\<lambda>s. st_StageID s = ai_StageID active) (cf_Stages cfg) of
                     None \<Rightarrow> 0 | Some s \<Rightarrow> ld_TargetVUs (st_Load s))
               in if targetVUs0 = 0 then Inl ''target_vus_not_found''
                  else
                    let targetVUs = capped_target cfg targetVUs0
                    in if \<not> rm_hasAllocator rm then Inl ''allocator_not_configured''
                       else case ReallocateAssignments (env_sort E) (rm_registry rm) runID (ai_StageID active) targetVUs [workerID] of
                         Inl err \<Rightarrow> Inl (alloc_error_text err)
                       | Inr al \<Rightarrow>
                           if \<not> rm_hasLeaseManager rm \<or> \<not> rm_hasSender rm then Inl ''scheduler_not_configured''
                           else Inr (active, cfg, targetVUs, al)))"

definition handleReplaceIfPossibleLocked :: "environment \<Rightarrow> string \<Rightarrow> string \<Rightarrow> run_manager \<Rightarrow> run_manager" where
  "handleReplaceIfPossibleLocked E runID workerID rm =
     (case get_run rm runID of
        None \<Rightarrow> rm
      | Some record \<Rightarrow>
          let exe = rr_ExecutionID record
          in case plan_replacement E runID record workerID rm of
               Inl reason \<Rightarrow> handleFailFastLocked runID workerID (emitReallocationFailedDecision runID exe workerID reason rm)
             | Inr (active, cfg, targetVUs, assignments, workerAssignments) \<Rightarrow>
                 let rm1 = dispatch_each runID exe (ai_Stage active) (ai_StageID active)
                       (getStageDuration cfg (ai_StageID active)) cfg (\<lambda>_ _ rm. rm) (env_range E workerAssignments) rm;
                     rm2 = appendEventWithLog runID (mk_event runID exe EventTypeWorkerReplaced ActorSystem no_correlation
                       [(''lost_worker'', JStr workerID), (''new_assignments'', JInt (int (length assignments))),
                        (''policy'', JStr PolicyReplaceIfPossible), (''stage_id'', JStr (ai_StageID active)), (''target_vus'', JInt targetVUs)]
                       [\<lparr>evi_Kind = ''worker'', evi_Ref = workerID, evi_Note = Some ''worker replaced via reallocation''\<rparr>]) rm1
                 in appendEventWithLog runID (mk_event runID exe EventTypeDecision ActorSystem no_correlation
                       [(''assignments'', JInt (int (length assignments))), (''decision_type'', JStr ''reallocation_success''),
                        (''lost_worker'', JStr workerID), (''policy'', JStr PolicyReplaceIfPossible)] []) rm2)"

definition handleBestEffortLocked :: "string \<Rightarrow> string \<Rightarrow> run_manager \<Rightarrow> run_manager" where
  "handleBestEffortLocked runID workerID rm =
     (case get_run rm runID of
        None \<Rightarrow> rm
      | Some record \<Rightarrow>
          let exe = rr_ExecutionID record;
              rm1 = appendEventWithLog runID (mk_event runID exe EventTypeWorkerCapacityLost ActorSystem no_correlation
                [(''action'', JStr ''continue''), (''policy'', JStr PolicyBestEffort), (''reason'', JStr ''worker_heartbeat_timeout''),
                 (''worker_id'', JStr workerID)]
                [\<lparr>evi_Kind = ''worker'', evi_Ref = workerID,
                  evi_Note = Some ''worker heartbeat timeout, continuing with reduced capacity''\<rparr>]) rm
          in appendEventWithLog runID (mk_event runID exe EventTypeSystemWarning ActorSystem no_correlation
                [(''message'', JStr (''Worker '' @ workerID @ '' lost, run continuing with reduced capacity'')),
                 (''policy'', JStr PolicyBestEffort), (''warning'', JStr ''worker_capacity_reduced''), (''worker_id'', JStr workerID)] []) rm1)"

definition HandleWorkerCapacityLost :: "environment \<Rightarrow> string \<Rightarrow> string \<Rightarrow> run_manager \<Rightarrow> run_error option \<times> run_manager" where
  "HandleWorkerCapacityLost E runID workerID rm =
     (case get_run rm runID of
        None \<Rightarrow> (Some (PlainError (''run not found: '' @ runID)), rm)
      | Some record \<Rightarrow>
          if rr_State record = RunStateStopping then (None, close_drainCancel runID rm)
          else if \<not> isRunningState (rr_State record) then (None, rm)
          else if rr_State record = RunStatePreflightRunning then (None, handleFailFastLocked runID workerID rm)
          else
            let policy = getWorkerFailurePolicy (rr_Config record)
            in if policy = PolicyFailFast then (None, handleFailFastLocked runID workerID rm)
               else if policy = PolicyReplaceIfPossible then (None, handleReplaceIfPossibleLocked E runID workerID rm)
               else if policy = PolicyBestEffort then (None, handleBestEffortLocked runID workerID rm)
               else (None, handleFailFastLocked runID workerID rm))"

definition GetRunsForWorker :: "string \<Rightarrow> run_manager \<Rightarrow> string list" where
  "GetRunsForWorker workerID rm =
     (if \<not> rm_hasLeaseManager rm then []
      else filter (\<lambda>runID. case get_run rm runID of None \<Rightarrow> False | Some record \<Rightarrow> isRunningState (rr_State record))
             (ListWorkerRunIDs workerID (rm_leases rm)))"

section \<open>The callback of the heartbeat monitor\<close>

definition on_worker_lost :: "environment \<Rightarrow> WorkerID \<Rightarrow> string list \<Rightarrow> run_manager \<Rightarrow> run_manager" where
  "on_worker_lost E workerID affectedRunIDs =
     fold (\<lambda>runID rm. snd (HandleWorkerCapacityLost E runID workerID rm)) affectedRunIDs"

text \<open>The monitor and the run manager share the registry and the lease manager.\<close>

definition lost_cb_of :: "environment \<Rightarrow> run_manager lost_cb" where
  "lost_cb_of E workerID affectedRunIDs w =
     (let rm = (w_rest w)\<lparr>rm_registry := w_registry w, rm_leases := w_leases w\<rparr>;
          rm1 = on_worker_lost E workerID affectedRunIDs rm
      in \<lparr>w_registry = rm_registry rm1, w_leases = rm_leases rm1, w_rest = rm1\<rparr>)"

definition monitor_pass :: "environment \<Rightarrow> int \<Rightarrow> run_manager \<Rightarrow> run_manager" where
  "monitor_pass E timeoutMs rm =
     (let now = int (now_ms rm);
          w = checkWorkers timeoutMs now (\<lambda>_. now) now (Some (lost_cb_of E))
                \<lparr>w_registry = rm_registry rm, w_leases = rm_leases rm, w_rest = rm\<rparr>
      in (w_rest w)\<lparr>rm_registry := w_registry w, rm_leases := w_leases w\<rparr>)"

end
