(* ===== verification/Run_Queries.thy ===== *)
theory Run_Queries
  imports Run_Manager
begin

text \<open>The read-only operations and \<^verbatim>\<open>CloneRun\<close> (\<^verbatim>\<open>internal/controlplane/runmanager/queries.go\<close>).\<close>

record RunView =
  rv_RunID :: string
  rv_ExecutionID :: string
  rv_State :: RunState
  rv_ScenarioID :: string
  rv_ConfigHash :: string
  rv_CreatedAtMs :: int
  rv_UpdatedAtMs :: int
  rv_ActiveStage :: "ActiveStageInfo option"
  rv_StopReason :: "StopReason option"
  rv_LastDecisionEventID :: "string option"

definition last_decision :: "string \<Rightarrow> run_manager \<Rightarrow> string option" where
  "last_decision runID rm =
     (case map_get (rm_eventLogs rm) runID of
        None \<Rightarrow> None
      | Some el \<Rightarrow> map_option ev_EventID (find (\<lambda>e. ev_Type e = EventTypeDecision) (rev (GetAll el))))"

definition view_of :: "RunRecord \<Rightarrow> string option \<Rightarrow> RunView" where
  "view_of record lastDecision =
     \<lparr>rv_RunID = rr_RunID record, rv_ExecutionID = rr_ExecutionID record, rv_State = rr_State record,
      rv_ScenarioID = rr_ScenarioID record, rv_ConfigHash = rr_ConfigHash record,
      rv_CreatedAtMs = rr_CreatedAtMs record, rv_UpdatedAtMs = rr_UpdatedAtMs record,
      rv_ActiveStage = rr_ActiveStage record, rv_StopReason = rr_StopReason record,
      rv_LastDecisionEventID = lastDecision\<rparr>"

definition ListRuns :: "run_manager \<Rightarrow> RunView list" where
  "ListRuns rm = map (\<lambda>(_, record). view_of record (last_decision (rr_RunID record) rm)) (rm_runs rm)"

definition GetRun :: "string \<Rightarrow> run_manager \<Rightarrow> run_error + RunView" where
  "GetRun runID rm =
     (case get_run rm runID of
        None \<Rightarrow> Inl (NewNotFoundError runID)
      | Some record \<Rightarrow> Inr (view_of record (last_decision runID rm)))"

definition ListStoppingRunsForWorker :: "string \<Rightarrow> run_manager \<Rightarrow> string list" where
  "ListStoppingRunsForWorker workerID rm =
     (if \<not> rm_hasLeaseManager rm then []
      else filter (\<lambda>runID. case get_run rm runID of None \<Rightarrow> False
               | Some record \<Rightarrow> rr_State record = RunStateStopping \<or> rr_State record = RunStateCompleted
                   \<or> rr_State record = RunStateFailed \<or> rr_State record = RunStateAborted)
             (ListWorkerRunIDs workerID (rm_leases rm)))"

definition ListImmediateStopRunsForWorker :: "string \<Rightarrow> run_manager \<Rightarrow> string list" where
  "ListImmediateStopRunsForWorker workerID rm =
     (if \<not> rm_hasLeaseManager rm then []
      else filter (\<lambda>runID. case get_run rm runID of None \<Rightarrow> False | Some record \<Rightarrow> rr_immediateStop record)
             (ListWorkerRunIDs workerID (rm_leases rm)))"

definition GetRunConfig :: "string \<Rightarrow> run_manager \<Rightarrow> run_error + raw_config" where
  "GetRunConfig runID rm =
     (case get_run rm runID of
        None \<Rightarrow> Inl (NewNotFoundError runID)
      | Some record \<Rightarrow>
          if rr_Config record = NilConfig then Inl (NewConfigNotAvailableError runID) else Inr (rr_Config record))"

definition CloneRun :: "environment \<Rightarrow> string \<Rightarrow> string \<Rightarrow> run_manager \<Rightarrow> (run_error + string) \<times> run_manager" where
  "CloneRun E sourceRunID actor rm =
     (case GetRunConfig sourceRunID rm of
        Inl err \<Rightarrow> (Inl err, rm)
      | Inr config \<Rightarrow> CreateRun E config actor rm)"

record server_telemetry =
  srt_Enabled :: bool
  srt_PairKey :: string

record pair_key_config =
  pkc_ServerTelemetry :: server_telemetry

definition GetRunServerTelemetryPairKey :: "string \<Rightarrow> run_manager \<Rightarrow> string" where
  "GetRunServerTelemetryPairKey runID rm =
     (case get_run rm runID of
        None \<Rightarrow> []
      | Some record \<Rightarrow>
          (case Unmarshal (dec_struct [fld ''server_telemetry'' pkc_ServerTelemetry pkc_ServerTelemetry_update (dec_struct
                  [fld ''enabled'' srt_Enabled srt_Enabled_update dec_bool,
                   fld ''pair_key'' srt_PairKey srt_PairKey_update dec_string])])
                  \<lparr>pkc_ServerTelemetry = \<lparr>srt_Enabled = False, srt_PairKey = []\<rparr>\<rparr> (rr_Config record) of
             None \<Rightarrow> []
           | Some c \<Rightarrow> srt_PairKey (pkc_ServerTelemetry c)))"

definition TailEvents :: "string \<Rightarrow> int \<Rightarrow> int \<Rightarrow> run_manager \<Rightarrow> (run_error + RunEvent list) option" where
  "TailEvents runID cursor limit rm =
     (case map_get (rm_eventLogs rm) runID of
        None \<Rightarrow> Some (Inl (NewNotFoundError runID))
      | Some el \<Rightarrow> map_option (map_sum PlainError id) (Tail cursor limit el))"

definition GetEventCount :: "string \<Rightarrow> run_manager \<Rightarrow> nat" where
  "GetEventCount runID rm = (case map_get (rm_eventLogs rm) runID of None \<Rightarrow> 0 | Some el \<Rightarrow> Len el)"

definition FindEventIndexOfRun :: "string \<Rightarrow> string \<Rightarrow> run_manager \<Rightarrow> int" where
  "FindEventIndexOfRun runID eventID rm =
     (case map_get (rm_eventLogs rm) runID of None \<Rightarrow> -1 | Some el \<Rightarrow> FindEventIndex eventID el)"

end
