(* ===== verification/Run_Lifecycle.thy ===== *)
theory Run_Lifecycle
  imports Run_Failure Run_Queries
begin

text \<open>
  All interleavings of the run manager: a step relation with one rule per critical section, per call
  into a shared component and per move of a finalizer goroutine. A section takes any arguments, so the
  relation allows at least every execution of the program. Invariants hold in every reachable state,
  and the operations of the other theories are runs of the relation.
\<close>

section \<open>Frames\<close>

named_theorems frames "what the primitives leave alone"

lemma upd_run_frames [frames]:
  "rm_eventLogs (upd_run rid f rm) = rm_eventLogs rm" "rm_eventIDCounter (upd_run rid f rm) = rm_eventIDCounter rm"
  "rm_now (upd_run rid f rm) = rm_now rm" "rm_go (upd_run rid f rm) = rm_go rm" "rm_panic (upd_run rid f rm) = rm_panic rm"
  "rm_nextChan (upd_run rid f rm) = rm_nextChan rm" "rm_closedChans (upd_run rid f rm) = rm_closedChans rm"
  "rm_leases (upd_run rid f rm) = rm_leases rm" "rm_registry (upd_run rid f rm) = rm_registry rm"
  "rm_sent (upd_run rid f rm) = rm_sent rm" "rm_hasTelemetry (upd_run rid f rm) = rm_hasTelemetry rm"
  "rm_hasArtifacts (upd_run rid f rm) = rm_hasArtifacts rm" "rm_nextCtx (upd_run rid f rm) = rm_nextCtx rm"
  "get_run (upd_run rid f rm) k = (if k = rid then map_option f (get_run rm rid) else get_run rm k)"
  "keys_distinct (rm_runs (upd_run rid f rm)) = keys_distinct (rm_runs rm)"
  by (simp_all add: upd_run_def)

lemma spawn_frames [frames]:
  "rm_eventLogs (spawn g rm) = rm_eventLogs rm" "rm_eventIDCounter (spawn g rm) = rm_eventIDCounter rm"
  "rm_now (spawn g rm) = rm_now rm" "rm_go (spawn g rm) = rm_go rm @ [g]" "rm_panic (spawn g rm) = rm_panic rm"
  "rm_nextChan (spawn g rm) = rm_nextChan rm" "rm_closedChans (spawn g rm) = rm_closedChans rm"
  "rm_leases (spawn g rm) = rm_leases rm" "rm_registry (spawn g rm) = rm_registry rm" "rm_sent (spawn g rm) = rm_sent rm"
  "rm_runs (spawn g rm) = rm_runs rm" "rm_hasTelemetry (spawn g rm) = rm_hasTelemetry rm"
  by (simp_all add: spawn_def)

lemma cancel_ctx_frames [frames]:
  "rm_eventLogs (cancel_ctx c rm) = rm_eventLogs rm" "rm_eventIDCounter (cancel_ctx c rm) = rm_eventIDCounter rm"
  "rm_now (cancel_ctx c rm) = rm_now rm" "rm_go (cancel_ctx c rm) = rm_go rm" "rm_panic (cancel_ctx c rm) = rm_panic rm"
  "rm_nextChan (cancel_ctx c rm) = rm_nextChan rm" "rm_closedChans (cancel_ctx c rm) = rm_closedChans rm"
  "rm_leases (cancel_ctx c rm) = rm_leases rm" "rm_registry (cancel_ctx c rm) = rm_registry rm" "rm_sent (cancel_ctx c rm) = rm_sent rm"
  "rm_runs (cancel_ctx c rm) = rm_runs rm" "rm_hasTelemetry (cancel_ctx c rm) = rm_hasTelemetry rm"
  by (cases c; simp)+

lemma stop_timers_frames [frames]:
  "rm_eventLogs (stop_timers ts rm) = rm_eventLogs rm" "rm_eventIDCounter (stop_timers ts rm) = rm_eventIDCounter rm"
  "rm_now (stop_timers ts rm) = rm_now rm" "rm_go (stop_timers ts rm) = rm_go rm" "rm_panic (stop_timers ts rm) = rm_panic rm"
  "rm_nextChan (stop_timers ts rm) = rm_nextChan rm" "rm_closedChans (stop_timers ts rm) = rm_closedChans rm"
  "rm_leases (stop_timers ts rm) = rm_leases rm" "rm_registry (stop_timers ts rm) = rm_registry rm" "rm_sent (stop_timers ts rm) = rm_sent rm"
  "rm_runs (stop_timers ts rm) = rm_runs rm" "rm_hasTelemetry (stop_timers ts rm) = rm_hasTelemetry rm"
  by (simp_all add: stop_timers_def)

lemma append_frames [frames]:
  "rm_now (appendEventWithLog rid e rm) = rm_now rm" "rm_go (appendEventWithLog rid e rm) = rm_go rm"
  "rm_nextChan (appendEventWithLog rid e rm) = rm_nextChan rm" "rm_closedChans (appendEventWithLog rid e rm) = rm_closedChans rm"
  "rm_leases (appendEventWithLog rid e rm) = rm_leases rm" "rm_registry (appendEventWithLog rid e rm) = rm_registry rm"
  "rm_sent (appendEventWithLog rid e rm) = rm_sent rm" "rm_runs (appendEventWithLog rid e rm) = rm_runs rm"
  "rm_hasTelemetry (appendEventWithLog rid e rm) = rm_hasTelemetry rm"
  "rm_hasArtifacts (appendEventWithLog rid e rm) = rm_hasArtifacts rm"
  "map fst (rm_eventLogs (appendEventWithLog rid e rm)) = map fst (rm_eventLogs rm)"
  by (auto simp: appendEventWithLog_def case_prod_unfold Let_def split: option.split)

lemma metadata_frames [frames]:
  "rm_eventLogs (SetRunMetadata a b c rm) = rm_eventLogs rm" "rm_eventIDCounter (SetRunMetadata a b c rm) = rm_eventIDCounter rm"
  "rm_now (SetRunMetadata a b c rm) = rm_now rm" "rm_go (SetRunMetadata a b c rm) = rm_go rm" "rm_panic (SetRunMetadata a b c rm) = rm_panic rm"
  "rm_nextChan (SetRunMetadata a b c rm) = rm_nextChan rm" "rm_closedChans (SetRunMetadata a b c rm) = rm_closedChans rm"
  "rm_leases (SetRunMetadata a b c rm) = rm_leases rm" "rm_registry (SetRunMetadata a b c rm) = rm_registry rm" "rm_sent (SetRunMetadata a b c rm) = rm_sent rm"
  "rm_runs (SetRunMetadata a b c rm) = rm_runs rm"
  by (simp_all add: SetRunMetadata_def)

lemma now_ms_frames [frames]:
  "now_ms (upd_run rid f rm) = now_ms rm" "now_ms (spawn g rm) = now_ms rm" "now_ms (cancel_ctx c rm) = now_ms rm"
  "now_ms (stop_timers ts rm) = now_ms rm" "now_ms (appendEventWithLog rid e rm) = now_ms rm"
  "now_ms (SetRunMetadata x y z rm) = now_ms rm"
  by (simp_all add: now_ms_def frames)

text \<open>The helpers built from them.\<close>

definition clear_progression :: "RunRecord \<Rightarrow> RunRecord" where
  "clear_progression r = r\<lparr>rr_progressionCancel := None, rr_rampCancel := None, rr_progressionTimers := []\<rparr>"

lemma cancelStage_get [frames]: "get_run (cancelStageProgressionLocked rid rm) k =
    (if k = rid then map_option clear_progression (get_run rm rid) else get_run rm k)"
  by (auto simp: cancelStageProgressionLocked_def Let_def frames clear_progression_def split: option.split)

lemma stopEval_get [frames]: "get_run (stopStopConditionEvaluatorLocked rid rm) k =
    (if k = rid then map_option (\<lambda>r. r\<lparr>rr_stopConditionsCancel := None\<rparr>) (get_run rm rid) else get_run rm k)"
  by (auto simp: stopStopConditionEvaluatorLocked_def frames split: option.split)

lemma cancelStage_frames [frames]:
  "rm_eventLogs (cancelStageProgressionLocked rid rm) = rm_eventLogs rm"
  "rm_eventIDCounter (cancelStageProgressionLocked rid rm) = rm_eventIDCounter rm"
  "rm_now (cancelStageProgressionLocked rid rm) = rm_now rm" "rm_go (cancelStageProgressionLocked rid rm) = rm_go rm"
  "rm_panic (cancelStageProgressionLocked rid rm) = rm_panic rm" "rm_nextChan (cancelStageProgressionLocked rid rm) = rm_nextChan rm"
  "rm_closedChans (cancelStageProgressionLocked rid rm) = rm_closedChans rm" "rm_leases (cancelStageProgressionLocked rid rm) = rm_leases rm"
  "rm_registry (cancelStageProgressionLocked rid rm) = rm_registry rm" "rm_sent (cancelStageProgressionLocked rid rm) = rm_sent rm"
  "rm_hasTelemetry (cancelStageProgressionLocked rid rm) = rm_hasTelemetry rm"
  "keys_distinct (rm_runs (cancelStageProgressionLocked rid rm)) = keys_distinct (rm_runs rm)"
  by (auto simp: cancelStageProgressionLocked_def Let_def frames split: option.split)

lemma stopEval_frames [frames]:
  "rm_eventLogs (stopStopConditionEvaluatorLocked rid rm) = rm_eventLogs rm"
  "rm_eventIDCounter (stopStopConditionEvaluatorLocked rid rm) = rm_eventIDCounter rm"
  "rm_now (stopStopConditionEvaluatorLocked rid rm) = rm_now rm" "rm_go (stopStopConditionEvaluatorLocked rid rm) = rm_go rm"
  "rm_panic (stopStopConditionEvaluatorLocked rid rm) = rm_panic rm" "rm_nextChan (stopStopConditionEvaluatorLocked rid rm) = rm_nextChan rm"
  "rm_closedChans (stopStopConditionEvaluatorLocked rid rm) = rm_closedChans rm" "rm_leases (stopStopConditionEvaluatorLocked rid rm) = rm_leases rm"
  "rm_registry (stopStopConditionEvaluatorLocked rid rm) = rm_registry rm" "rm_sent (stopStopConditionEvaluatorLocked rid rm) = rm_sent rm"
  "rm_hasTelemetry (stopStopConditionEvaluatorLocked rid rm) = rm_hasTelemetry rm"
  "keys_distinct (rm_runs (stopStopConditionEvaluatorLocked rid rm)) = keys_distinct (rm_runs rm)"
  by (auto simp: stopStopConditionEvaluatorLocked_def Let_def frames split: option.split)

definition with_drain :: "nat \<Rightarrow> RunRecord \<Rightarrow> RunRecord" where
  "with_drain c r = (if rr_drainCancel r = None then r\<lparr>rr_drainCancel := Some c\<rparr> else r)"

lemma init_drain_get [frames]: "get_run (init_drainCancel rid rm) k =
    (if k = rid then map_option (with_drain (rm_nextChan rm)) (get_run rm rid) else get_run rm k)"
  by (auto simp: init_drainCancel_def new_chan_def frames with_drain_def split: option.split)

lemma init_drain_frames [frames]:
  "rm_eventLogs (init_drainCancel rid rm) = rm_eventLogs rm" "rm_eventIDCounter (init_drainCancel rid rm) = rm_eventIDCounter rm"
  "rm_now (init_drainCancel rid rm) = rm_now rm" "rm_go (init_drainCancel rid rm) = rm_go rm"
  "rm_panic (init_drainCancel rid rm) = rm_panic rm" "rm_closedChans (init_drainCancel rid rm) = rm_closedChans rm"
  "rm_leases (init_drainCancel rid rm) = rm_leases rm" "rm_registry (init_drainCancel rid rm) = rm_registry rm"
  "rm_sent (init_drainCancel rid rm) = rm_sent rm" "rm_hasTelemetry (init_drainCancel rid rm) = rm_hasTelemetry rm"
  "keys_distinct (rm_runs (init_drainCancel rid rm)) = keys_distinct (rm_runs rm)"
  "rm_nextChan rm \<le> rm_nextChan (init_drainCancel rid rm)"
  by (auto simp: init_drainCancel_def new_chan_def frames split: option.split)

lemma close_drain_get [frames]: "get_run (close_drainCancel rid rm) k =
    (if k = rid then map_option (\<lambda>r. r\<lparr>rr_drainCancel := None\<rparr>) (get_run rm rid) else get_run rm k)"
  by (auto simp: close_drainCancel_def close_chan_def frames split: option.splits)

lemma close_drain_frames [frames]:
  "rm_eventLogs (close_drainCancel rid rm) = rm_eventLogs rm" "rm_eventIDCounter (close_drainCancel rid rm) = rm_eventIDCounter rm"
  "rm_now (close_drainCancel rid rm) = rm_now rm" "rm_go (close_drainCancel rid rm) = rm_go rm"
  "rm_nextChan (close_drainCancel rid rm) = rm_nextChan rm"
  "rm_leases (close_drainCancel rid rm) = rm_leases rm" "rm_registry (close_drainCancel rid rm) = rm_registry rm"
  "rm_sent (close_drainCancel rid rm) = rm_sent rm"
  "keys_distinct (rm_runs (close_drainCancel rid rm)) = keys_distinct (rm_runs rm)"
  by (auto simp: close_drainCancel_def close_chan_def frames split: option.splits)

section \<open>Steps\<close>

text \<open>The moves a run can make: those of the table and, when there are no stores, from \<open>stopping\<close> straight
  to \<open>completed\<close>.\<close>

definition moves :: "RunState \<Rightarrow> RunState \<Rightarrow> bool" where
  "moves s t \<longleftrightarrow> CanTransition s t \<or> (s = RunStateStopping \<and> t = RunStateCompleted)"

definition transition_legal :: "RunEvent \<Rightarrow> bool" where
  "transition_legal e \<longleftrightarrow> (ev_Type e = EventTypeStateTransition \<longrightarrow>
     (\<exists>kvs s t. ev_Payload e = Some (JObj kvs) \<and> map_of kvs ''from_state'' = Some (js_state s)
        \<and> map_of kvs ''to_state'' = Some (js_state t) \<and> moves s t))"

text \<open>The assignment names a lease that was issued, and agrees with it while the lease exists.\<close>

definition lease_matches :: "lease_manager \<Rightarrow> WorkerID \<times> WorkerAssignment \<Rightarrow> bool" where
  "lease_matches lm = (\<lambda>(w, wa).
     (\<exists>ts c. clock_ms ts \<and> c \<le> lm_counter lm \<and> wa_LeaseID wa = stamp_id ''lse_'' ts c)
     \<and> (\<forall>l. map_get (leases lm) (wa_LeaseID wa) = Some l \<longrightarrow> l_WorkerID l = w
          \<and> l_Assignment l = \<lparr>as_RunID = wa_RunID wa, as_StageID = wa_StageID wa,
              as_VUIDRange = \<lparr>Start = wa_VUIDStart wa, End = wa_VUIDEnd wa\<rparr>\<rparr>))"

definition insert_new :: "environment \<Rightarrow> raw_config \<Rightarrow> string \<Rightarrow> run_manager \<Rightarrow> run_manager" where
  "insert_new E config actor rm =
     (let (runID, rm1) = generateRunID rm; (exe, rm2) = generateExecutionID rm1
      in insert_run (new_record E runID exe config actor (int (now_ms rm2))) rm2)"

definition go_swap :: "goroutine \<Rightarrow> goroutine list \<Rightarrow> run_manager \<Rightarrow> run_manager" where
  "go_swap g gs rm = rm\<lparr>rm_go := remove1 g (rm_go rm) @ gs\<rparr>"

fun is_finalizer :: "goroutine \<Rightarrow> bool" where
  "is_finalizer (GoFinalize _ _ _) = True"
| "is_finalizer _ = False"

inductive rm_step :: "environment \<Rightarrow> run_manager \<Rightarrow> run_manager \<Rightarrow> bool" for E where
  tick: "clock_ms (t div 1000000) \<Longrightarrow> rm_step E rm (rm\<lparr>rm_now := t\<rparr>)"
| shutdown: "rm_step E rm (Shutdown rm)"
| set_scheduler: "rm_step E rm (SetScheduler a b c rm)"
| set_sender: "rm_step E rm (SetAssignmentSender a rm)"
| set_artifacts: "rm_step E rm (SetArtifactStore a rm)"
| set_telemetry: "rm_step E rm (SetTelemetryStore a rm)"
| registry: "registry_step (rm_registry rm) r \<Longrightarrow> rm_step E rm (rm\<lparr>rm_registry := r\<rparr>)"
| lease: "lease_step (rm_leases rm) lm \<Longrightarrow> rm_step E rm (rm\<lparr>rm_leases := lm\<rparr>)"
| send: "lease_matches (rm_leases rm) (w, wa) \<Longrightarrow> rm_step E rm (AddAssignment w wa rm)"
| log: "get_run rm rid \<noteq> None \<Longrightarrow> ev_RunID e = rid \<Longrightarrow> ev_EventID e = [] \<Longrightarrow> transition_legal e \<Longrightarrow>
    rm_step E rm (appendEventWithLog rid e rm)"
| metadata: "rm_step E rm (SetRunMetadata rid sid why rm)"
| create: "get_run rm (fst (generateRunID rm)) = None \<Longrightarrow> rm_step E rm (insert_new E config actor rm)"
| start: "rm_step E rm (snd (start_commit rid exe actor rm))"
| start_failed: "rm_step E rm (transitionToFailedFromCreated rid exe actor why rm)"
| progress: "rm_step E rm (install_progression rid sid cfg actor rm)"
| baseline: "rm_step E rm (snd (baseline_enter rid actor rm))"
| ramp_enter: "rm_step E rm (snd (stage_enter RunStateBaselineRunning RunStateRampRunning op rid rm))"
| soak_enter: "rm_step E rm (snd (stage_enter RunStateRampRunning RunStateSoakRunning op rid rm))"
| active: "rm_step E rm (set_active_stage rid name sid rm)"
| evaluator: "rm_step E rm (install_evaluator rid stage rm)"
| ramp: "rm_step E rm (snd (install_ramp rid rm))"
| timer: "rm_step E rm (snd (new_timer rm))"
| timer_stopped: "rm_step E rm (stopTimer t rm)"
| timer_added: "rm_step E rm (addStageTimer rid timer rm)"
| timer_removed: "rm_step E rm (removeStageTimer rid timer rm)"
| request_stop: "rm_step E rm (snd (requestStopWithReason rid mode actor why ev rm))"
| emergency: "rm_step E rm (snd (EmergencyStop rid actor rm))"
| fail_fast: "get_run rm rid = Some r \<Longrightarrow> isRunningState (rr_State r) \<Longrightarrow> rm_step E rm (handleFailFastLocked rid wid rm)"
| drain_lost: "get_run rm rid = Some r \<Longrightarrow> rr_State r = RunStateStopping \<Longrightarrow> rm_step E rm (close_drainCancel rid rm)"
| fin_now: "GoFinalize rid actor (FinStart t) \<in> set (rm_go rm) \<Longrightarrow> t \<le> 0 \<Longrightarrow>
    rm_step E rm (go_swap (GoFinalize rid actor (FinStart t)) [GoFinalize rid actor FinCheck] rm)"
| fin_wait: "GoFinalize rid actor (FinStart t) \<in> set (rm_go rm) \<Longrightarrow> t > 0 \<Longrightarrow> finalize_begin rid rm = Some (c, rm1) \<Longrightarrow>
    rm_step E rm (go_swap (GoFinalize rid actor (FinStart t)) [GoFinalize rid actor (FinWait c)] rm1)"
| fin_gone: "GoFinalize rid actor (FinStart t) \<in> set (rm_go rm) \<Longrightarrow> t > 0 \<Longrightarrow> finalize_begin rid rm = None \<Longrightarrow>
    rm_step E rm (go_swap (GoFinalize rid actor (FinStart t)) [] rm)"
| fin_timer: "GoFinalize rid actor (FinWait c) \<in> set (rm_go rm) \<Longrightarrow>
    rm_step E rm (go_swap (GoFinalize rid actor (FinWait c)) [GoFinalize rid actor FinCheck] rm)"
| fin_cancelled: "GoFinalize rid actor (FinWait c) \<in> set (rm_go rm) \<Longrightarrow> c \<in> set (rm_closedChans rm) \<Longrightarrow>
    rm_step E rm (go_swap (GoFinalize rid actor (FinWait c))
      [GoFinalize rid actor (if is_immediate_stop rid rm then FinSleep else FinCheck)] rm)"
| fin_awake: "GoFinalize rid actor FinSleep \<in> set (rm_go rm) \<Longrightarrow>
    rm_step E rm (go_swap (GoFinalize rid actor FinSleep) [GoFinalize rid actor FinCheck] rm)"
| fin_check: "GoFinalize rid actor FinCheck \<in> set (rm_go rm) \<Longrightarrow>
    rm_step E rm (go_swap (GoFinalize rid actor FinCheck)
      (case finalize_check rid rm of None \<Rightarrow> [] | Some pc \<Rightarrow> [GoFinalize rid actor pc]) rm)"
| fin_complete: "GoFinalize rid actor FinComplete \<in> set (rm_go rm) \<Longrightarrow>
    rm_step E rm (go_swap (GoFinalize rid actor FinComplete) [] (transitionToCompleted rid actor ''no_telemetry'' rm))"
| fin_analyze: "GoFinalize rid actor FinAnalyze \<in> set (rm_go rm) \<Longrightarrow>
    rm_step E rm (go_swap (GoFinalize rid actor FinAnalyze) [GoAnalyze rid] (snd (analyzing_enter rid actor rm)))"
| analyzed: "rm_step E rm (completeAnalysis rid rm)"
| analysis_failed: "rm_step E rm (failAnalysis rid why details rm)"
| go_started: "\<not> is_finalizer g \<Longrightarrow> rm_step E rm (spawn g rm)"
| go_ended: "\<not> is_finalizer g \<Longrightarrow> rm_step E rm (go_swap g [] rm)"

section \<open>Evolution of a run\<close>

definition same_run :: "RunRecord \<Rightarrow> RunRecord \<Rightarrow> bool" where
  "same_run r r' \<longleftrightarrow> rr_RunID r' = rr_RunID r \<and> rr_ExecutionID r' = rr_ExecutionID r \<and> rr_ConfigHash r' = rr_ConfigHash r
     \<and> rr_ScenarioID r' = rr_ScenarioID r \<and> rr_CreatedAtMs r' = rr_CreatedAtMs r \<and> rr_Actor r' = rr_Actor r
     \<and> rr_Config r' = rr_Config r"

definition run_le :: "RunRecord \<Rightarrow> RunRecord \<Rightarrow> bool" where
  "run_le r r' \<longleftrightarrow> same_run r r' \<and> moves\<^sup>*\<^sup>* (rr_State r) (rr_State r')"

definition evolves :: "run_manager \<Rightarrow> run_manager \<Rightarrow> bool" where
  "evolves rm rm' \<longleftrightarrow> (\<forall>rid r. get_run rm rid = Some r \<longrightarrow> (\<exists>r'. get_run rm' rid = Some r' \<and> run_le r r'))"

lemma run_le_refl [simp]: "run_le r r"
  by (simp add: run_le_def same_run_def)

lemma run_le_trans: "run_le r r' \<Longrightarrow> run_le r' r'' \<Longrightarrow> run_le r r''"
  by (auto simp: run_le_def same_run_def)

lemma evolves_refl [simp]: "evolves rm rm"
  by (simp add: evolves_def)

lemma evolves_trans: "evolves a b \<Longrightarrow> evolves b c \<Longrightarrow> evolves a c"
  unfolding evolves_def by (meson run_le_trans)

lemma evolves_runs: "rm_runs rm' = rm_runs rm \<Longrightarrow> evolves rm rm'"
  by (simp add: evolves_def)

lemma run_le_move: "same_run r r' \<Longrightarrow> moves (rr_State r) (rr_State r') \<Longrightarrow> run_le r r'"
  by (simp add: run_le_def)

lemma run_le_same: "same_run r r' \<Longrightarrow> rr_State r' = rr_State r \<Longrightarrow> run_le r r'"
  by (simp add: run_le_def)

lemma evolves_at: "(\<And>k. k \<noteq> rid \<Longrightarrow> get_run rm' k = get_run rm k) \<Longrightarrow>
    (\<And>r. get_run rm rid = Some r \<Longrightarrow> \<exists>r'. get_run rm' rid = Some r' \<and> run_le r r') \<Longrightarrow> evolves rm rm'"
  unfolding evolves_def by (metis run_le_refl)

lemmas run_local = same_run_def clear_progression_def with_drain_def moves_def CanTransition_def

lemma evolves_start: "evolves rm (snd (start_commit rid exe actor rm))"
  by (rule evolves_at [of rid])
    (auto simp: start_commit_def frames Let_def run_local split: option.split intro!: run_le_move)

lemma evolves_start_failed: "evolves rm (transitionToFailedFromCreated rid exe actor why rm)"
  by (rule evolves_at [of rid])
    (auto simp: transitionToFailedFromCreated_def frames Let_def run_local split: option.split intro!: run_le_move)

lemma evolves_baseline: "evolves rm (snd (baseline_enter rid actor rm))"
proof (rule evolves_at [of rid])
  fix r assume r: "get_run rm rid = Some r"
  have m: "moves\<^sup>*\<^sup>* RunStatePreflightRunning RunStateBaselineRunning"
    by (rule converse_rtranclp_into_rtranclp [of _ _ RunStatePreflightPassed])
      (auto simp: moves_def CanTransition_def)
  with r show "\<exists>r'. get_run (snd (baseline_enter rid actor rm)) rid = Some r' \<and> run_le r r'"
    by (auto simp: baseline_enter_def frames Let_def CanTransition_def run_le_def same_run_def)
qed (auto simp: baseline_enter_def frames Let_def split: option.split)

lemma evolves_enter: "evolves rm (snd (stage_enter from to op rid rm))"
  by (rule evolves_at [of rid])
    (auto simp: stage_enter_def frames same_run_def moves_def split: option.split intro!: run_le_move)

lemma evolves_request_stop: "evolves rm (snd (requestStopWithReason rid mode actor why ev rm))"
  by (rule evolves_at [of rid])
    (auto simp: requestStopWithReason_def frames Let_def same_run_def clear_progression_def with_drain_def moves_def
      run_le_def split: option.split intro: r_into_rtranclp)

lemma evolves_emergency: "evolves rm (snd (EmergencyStop rid actor rm))"
  by (rule evolves_at [of rid])
    (auto simp: EmergencyStop_def frames Let_def same_run_def clear_progression_def moves_def
      run_le_def split: option.split intro: r_into_rtranclp)

lemma evolves_fail_fast: "get_run rm rid = Some r \<Longrightarrow> isRunningState (rr_State r) \<Longrightarrow> evolves rm (handleFailFastLocked rid wid rm)"
  by (rule evolves_at [of rid])
    (auto simp: handleFailFastLocked_def frames Let_def same_run_def clear_progression_def with_drain_def moves_def
      dest: running_can_stop intro!: run_le_move)

lemma evolves_completed: "evolves rm (transitionToCompleted rid actor why rm)"
  by (rule evolves_at [of rid])
    (auto simp: transitionToCompleted_def frames Let_def run_local split: option.split intro!: run_le_move)

lemma evolves_analyzing: "evolves rm (snd (analyzing_enter rid actor rm))"
  by (rule evolves_at [of rid])
    (auto simp: analyzing_enter_def frames Let_def run_local split: option.split intro!: run_le_move)

lemma evolves_analyzed: "evolves rm (completeAnalysis rid rm)"
  by (rule evolves_at [of rid])
    (auto simp: completeAnalysis_def analysis_outcome_def frames Let_def run_local split: option.splits intro!: run_le_move)

lemma evolves_analysis_failed: "evolves rm (failAnalysis rid why details rm)"
  by (rule evolves_at [of rid])
    (auto simp: failAnalysis_def frames Let_def run_local split: option.split intro!: run_le_move)

text \<open>The sections that only touch the other fields of a run.\<close>

lemma evolves_keep: "(\<And>k. get_run rm' k = (if k = rid then map_option f (get_run rm rid) else get_run rm k)) \<Longrightarrow>
    (\<And>r. same_run r (f r) \<and> rr_State (f r) = rr_State r) \<Longrightarrow> evolves rm rm'"
  by (rule evolves_at [of rid]) (auto intro: run_le_same)

lemma evolves_progress: "evolves rm (install_progression rid sid cfg actor rm)"
  by (rule evolves_at [of rid])
    (auto simp: install_progression_def new_ctx_def frames Let_def same_run_def split: option.split intro!: run_le_same)

lemma evolves_evaluator: "evolves rm (install_evaluator rid stage rm)"
  by (rule evolves_at [of rid])
    (auto simp: install_evaluator_def new_ctx_def frames Let_def same_run_def split: option.split intro!: run_le_same)

lemma evolves_ramp: "evolves rm (snd (install_ramp rid rm))"
  by (rule evolves_at [of rid])
    (auto simp: install_ramp_def new_ctx_def frames Let_def same_run_def intro!: run_le_same)

lemma evolves_active: "evolves rm (set_active_stage rid name sid rm)"
  by (rule evolves_at [of rid]) (auto simp: set_active_stage_def frames same_run_def intro!: run_le_same)

lemma evolves_timer_added: "evolves rm (addStageTimer rid t rm)"
  by (rule evolves_at [of rid])
    (auto simp: addStageTimer_def frames same_run_def split: option.split intro!: run_le_same)

lemma evolves_timer_removed: "evolves rm (removeStageTimer rid t rm)"
  by (rule evolves_at [of rid])
    (auto simp: removeStageTimer_def frames same_run_def split: option.split intro!: run_le_same)

lemma evolves_init_drain: "evolves rm (init_drainCancel rid rm)"
  by (rule evolves_at [of rid]) (auto simp: frames with_drain_def same_run_def intro!: run_le_same)

lemma evolves_close_drain: "evolves rm (close_drainCancel rid rm)"
  by (rule evolves_at [of rid]) (auto simp: frames same_run_def intro!: run_le_same)

lemma evolves_insert: "get_run rm (fst (generateRunID rm)) = None \<Longrightarrow> evolves rm (insert_new E config actor rm)"
  by (auto simp: evolves_def insert_new_def insert_run_def generateRunID_def generateExecutionID_def new_record_def Let_def)

lemma finalize_begin_Some: "finalize_begin rid rm = Some (c, rm1) \<Longrightarrow> rm1 = init_drainCancel rid rm
    \<and> (\<exists>r. get_run rm rid = Some r \<and> rr_drainCancel (with_drain (rm_nextChan rm) r) = Some c)"
  by (auto simp: finalize_begin_def frames Let_def split: option.splits)

lemma go_swap_frames [frames]:
  "rm_eventLogs (go_swap g gs rm) = rm_eventLogs rm" "rm_eventIDCounter (go_swap g gs rm) = rm_eventIDCounter rm"
  "rm_now (go_swap g gs rm) = rm_now rm" "rm_panic (go_swap g gs rm) = rm_panic rm"
  "rm_nextChan (go_swap g gs rm) = rm_nextChan rm" "rm_closedChans (go_swap g gs rm) = rm_closedChans rm"
  "rm_leases (go_swap g gs rm) = rm_leases rm" "rm_registry (go_swap g gs rm) = rm_registry rm" "rm_sent (go_swap g gs rm) = rm_sent rm"
  "rm_runs (go_swap g gs rm) = rm_runs rm" "rm_go (go_swap g gs rm) = remove1 g (rm_go rm) @ gs"
  by (simp_all add: go_swap_def)

lemma evolves_swap: "evolves rm rm1 \<Longrightarrow> evolves rm (go_swap g gs rm1)"
  by (simp add: evolves_def frames)

lemma setter_runs [simp]: "rm_runs (Shutdown rm) = rm_runs rm" "rm_runs (SetScheduler a b c rm) = rm_runs rm"
  "rm_runs (SetAssignmentSender a rm) = rm_runs rm" "rm_runs (SetArtifactStore a rm) = rm_runs rm"
  "rm_runs (SetTelemetryStore a rm) = rm_runs rm" "rm_runs (AddAssignment w wa rm) = rm_runs rm"
  "rm_runs (snd (new_timer rm)) = rm_runs rm"
  by (simp_all add: Shutdown_def SetScheduler_def SetAssignmentSender_def SetArtifactStore_def SetTelemetryStore_def
      AddAssignment_def new_timer_def)

lemma stopTimer_runs [simp]: "rm_runs (stopTimer t rm) = rm_runs rm"
  by (cases t) (simp_all add: frames)

lemmas evolves_sections = evolves_start evolves_start_failed evolves_baseline evolves_enter evolves_request_stop
  evolves_emergency evolves_fail_fast evolves_completed evolves_analyzing evolves_analyzed evolves_analysis_failed
  evolves_progress evolves_evaluator evolves_ramp evolves_active evolves_timer_added evolves_timer_removed
  evolves_init_drain evolves_close_drain evolves_insert evolves_swap evolves_refl

lemma rm_step_evolves: "rm_step E rm rm' \<Longrightarrow> evolves rm rm'"
  by (induction rule: rm_step.induct)
    (auto intro: evolves_sections evolves_runs simp: frames dest: finalize_begin_Some)

lemma moves_terminal: "terminal s \<Longrightarrow> moves\<^sup>*\<^sup>* s t \<Longrightarrow> t = s"
  by (erule converse_rtranclpE) (auto simp: moves_def dest: terminal_stuck)

lemma moves_rank: "moves\<^sup>*\<^sup>* s t \<Longrightarrow> s = t \<or> state_rank s < state_rank t"
proof (induction rule: rtranclp_induct)
  case (step t u)
  have "t = u \<or> state_rank t < state_rank u"
    using step.hyps(2) transition_rank [of t u] unfolding moves_def by auto
  with step.IH show ?case by auto
qed simp

section \<open>Channels and logs\<close>

text \<open>
  No panic so far; every run has a log; the channel a run holds is open and its own; the logs are well
  formed and only record legal transitions.
\<close>

definition chan_inv :: "run_manager \<Rightarrow> bool" where
  "chan_inv rm \<longleftrightarrow> \<not> rm_panic rm \<and> keys_distinct (rm_runs rm)
     \<and> (\<forall>rid. get_run rm rid \<noteq> None \<longrightarrow> map_get (rm_eventLogs rm) rid \<noteq> None)
     \<and> (\<forall>c \<in> set (rm_closedChans rm). c < rm_nextChan rm)
     \<and> (\<forall>rid r c. get_run rm rid = Some r \<longrightarrow> rr_drainCancel r = Some c \<longrightarrow> c < rm_nextChan rm \<and> c \<notin> set (rm_closedChans rm))
     \<and> (\<forall>rid r rid' r' c. get_run rm rid = Some r \<longrightarrow> get_run rm rid' = Some r' \<longrightarrow>
          rr_drainCancel r = Some c \<longrightarrow> rr_drainCancel r' = Some c \<longrightarrow> rid = rid')"

definition logs_inv :: "run_manager \<Rightarrow> bool" where
  "logs_inv rm \<longleftrightarrow> clock_ms (now_ms rm) \<and> (\<forall>rid el. map_get (rm_eventLogs rm) rid = Some el \<longrightarrow>
     log_ok (rm_eventIDCounter rm) rid el \<and> (\<forall>e \<in> set (el_events el). transition_legal e))"

definition base_inv :: "run_manager \<Rightarrow> bool" where
  "base_inv rm \<longleftrightarrow> chan_inv rm \<and> logs_inv rm"

lemma base_cong: "base_inv rm \<Longrightarrow> rm_runs rm' = rm_runs rm \<Longrightarrow> rm_eventLogs rm' = rm_eventLogs rm \<Longrightarrow>
    rm_eventIDCounter rm' = rm_eventIDCounter rm \<Longrightarrow> now_ms rm' = now_ms rm \<Longrightarrow> rm_panic rm' = rm_panic rm \<Longrightarrow>
    rm_nextChan rm' = rm_nextChan rm \<Longrightarrow> rm_closedChans rm' = rm_closedChans rm \<Longrightarrow> base_inv rm'"
  by (simp add: base_inv_def chan_inv_def logs_inv_def)

lemma base_upd:
  assumes "base_inv rm" and "\<And>r. get_run rm rid = Some r \<Longrightarrow> rr_drainCancel (f r) = rr_drainCancel r"
  shows "base_inv (upd_run rid f rm)"
proof -
  have "chan_inv (upd_run rid f rm)"
    using assms unfolding base_inv_def chan_inv_def frames
    by (auto split: if_splits) (metis assms(2))+
  then show ?thesis using assms(1) by (simp add: base_inv_def logs_inv_def frames)
qed

lemma transition_legal_stamp: "transition_legal (stamp_event ts i e) = transition_legal e"
  by (simp add: transition_legal_def stamp_event_def)

lemma base_append:
  assumes inv: "base_inv rm" and run: "get_run rm rid \<noteq> None"
    and e: "ev_RunID e = rid" "ev_EventID e = []" "transition_legal e"
  shows "base_inv (appendEventWithLog rid e rm)"
proof -
  from inv run obtain el where el: "map_get (rm_eventLogs rm) rid = Some el"
    by (auto simp: base_inv_def chan_inv_def)
  obtain err n el1 where a: "Append (now_ms rm) e (rm_eventIDCounter rm) el = (err, n, el1)"
    by (cases "Append (now_ms rm) e (rm_eventIDCounter rm) el")
  from inv el have ok: "log_ok (rm_eventIDCounter rm) rid el" "clock_ms (now_ms rm)" "\<forall>x \<in> set (el_events el). transition_legal x"
    by (auto simp: base_inv_def logs_inv_def)
  from Append_ok [OF ok(1,2) e(1,2) a] have ok1: "log_ok n rid el1" "rm_eventIDCounter rm \<le> n" by auto
  have legal: "\<forall>x \<in> set (el_events el1). transition_legal x"
    using a ok(3) e(3)
    by (auto simp: Append_def Let_def store_event_events case_prod_unfold transition_legal_stamp
        split: option.splits if_splits)
  have "appendEventWithLog rid e rm = rm\<lparr>rm_eventLogs := map_upd rid (\<lambda>_. el1) (rm_eventLogs rm), rm_eventIDCounter := n\<rparr>"
    by (simp add: appendEventWithLog_def el a)
  moreover have "logs_inv \<dots>"
    using inv el ok1 legal by (auto simp: base_inv_def logs_inv_def now_ms_def intro: log_ok_mono)
  moreover have "chan_inv (rm\<lparr>rm_eventLogs := map_upd rid (\<lambda>_. el1) (rm_eventLogs rm), rm_eventIDCounter := n\<rparr>)"
    using inv el unfolding base_inv_def chan_inv_def by simp
  ultimately show ?thesis by (simp add: base_inv_def)
qed

lemma base_init_drain: "base_inv rm \<Longrightarrow> base_inv (init_drainCancel rid rm)"
proof -
  assume inv: "base_inv rm"
  show ?thesis
  proof (cases "\<exists>r. get_run rm rid = Some r \<and> rr_drainCancel r = None")
    case False
    then have "init_drainCancel rid rm = rm"
      by (auto simp: init_drainCancel_def split: option.split)
    with inv show ?thesis by simp
  next
    case True
    then have d: "init_drainCancel rid rm =
        upd_run rid (\<lambda>r. r\<lparr>rr_drainCancel := Some (rm_nextChan rm)\<rparr>) (rm\<lparr>rm_nextChan := rm_nextChan rm + 1\<rparr>)"
      by (auto simp: init_drainCancel_def new_chan_def)
    have "chan_inv (init_drainCancel rid rm)"
      using inv unfolding d base_inv_def chan_inv_def by (auto simp: frames less_SucI split: if_splits) (metis less_irrefl)+
    then show ?thesis using inv by (simp add: base_inv_def logs_inv_def frames now_ms_def)
  qed
qed

lemma base_close_drain: "base_inv rm \<Longrightarrow> base_inv (close_drainCancel rid rm)"
proof -
  assume inv: "base_inv rm"
  show ?thesis
  proof (cases "\<exists>r c. get_run rm rid = Some r \<and> rr_drainCancel r = Some c")
    case False
    then have "close_drainCancel rid rm = rm"
      by (auto simp: close_drainCancel_def split: option.split)
    with inv show ?thesis by simp
  next
    case True
    then obtain r c where r: "get_run rm rid = Some r" "rr_drainCancel r = Some c" by blast
    with inv have c: "c \<notin> set (rm_closedChans rm)" "c < rm_nextChan rm" by (auto simp: base_inv_def chan_inv_def)
    with r have d: "close_drainCancel rid rm =
        upd_run rid (\<lambda>r. r\<lparr>rr_drainCancel := None\<rparr>) (rm\<lparr>rm_closedChans := c # rm_closedChans rm\<rparr>)"
      by (simp add: close_drainCancel_def close_chan_def)
    have "chan_inv (close_drainCancel rid rm)"
      using inv r c unfolding d base_inv_def chan_inv_def by (auto simp: frames split: if_splits)
    then show ?thesis using inv by (simp add: base_inv_def logs_inv_def frames now_ms_def)
  qed
qed

lemma base_spawn: "base_inv rm \<Longrightarrow> base_inv (spawn g rm)"
  by (erule base_cong) (simp_all add: frames)

lemma base_cancel: "base_inv rm \<Longrightarrow> base_inv (cancel_ctx c rm)"
  by (erule base_cong) (simp_all add: frames)

lemma base_timers: "base_inv rm \<Longrightarrow> base_inv (stop_timers ts rm)"
  by (erule base_cong) (simp_all add: frames)

lemma base_metadata: "base_inv rm \<Longrightarrow> base_inv (SetRunMetadata a b c rm)"
  by (erule base_cong) (simp_all add: frames)

lemma base_swap: "base_inv rm \<Longrightarrow> base_inv (go_swap g gs rm)"
  by (erule base_cong) (simp_all add: frames now_ms_def)

lemma base_ctx: "base_inv rm \<Longrightarrow> base_inv (rm\<lparr>rm_nextCtx := n\<rparr>)"
  by (erule base_cong) (simp_all add: now_ms_def)

lemma base_cancelStage: "base_inv rm \<Longrightarrow> base_inv (cancelStageProgressionLocked rid rm)"
  by (auto simp: cancelStageProgressionLocked_def Let_def split: option.split
      intro!: base_upd base_timers base_cancel)

lemma base_stopEval: "base_inv rm \<Longrightarrow> base_inv (stopStopConditionEvaluatorLocked rid rm)"
  by (auto simp: stopStopConditionEvaluatorLocked_def split: option.split intro!: base_upd base_cancel)

lemmas base_intros = base_upd base_append base_init_drain base_close_drain base_spawn base_cancel base_timers
  base_metadata base_swap base_ctx base_cancelStage base_stopEval

lemma event_fields [simp]: "ev_RunID (mk_event rid exe typ actor corr pl ev) = rid"
  "ev_EventID (mk_event rid exe typ actor corr pl ev) = []" "ev_Type (mk_event rid exe typ actor corr pl ev) = typ"
  "ev_Payload (mk_event rid exe typ actor corr pl ev) = Some (JObj pl)"
  by (simp_all add: mk_event_def)

lemma transition_event_fields [simp]: "ev_RunID (transition_event rid exe actor s t why ev) = rid"
  "ev_EventID (transition_event rid exe actor s t why ev) = []"
  by (simp_all add: transition_event_def)

lemma legal_other [simp]: "typ \<noteq> EventTypeStateTransition \<Longrightarrow> transition_legal (mk_event rid exe typ actor corr pl ev)"
  by (simp add: transition_legal_def)

lemma legal_transition: "moves s t \<Longrightarrow> transition_legal (transition_event rid exe actor s t why ev)"
  by (auto simp: transition_legal_def transition_event_def)

lemma legal_payload: "map_of kvs ''from_state'' = Some (js_state s) \<Longrightarrow> map_of kvs ''to_state'' = Some (js_state t) \<Longrightarrow>
    moves s t \<Longrightarrow> transition_legal (mk_event rid exe EventTypeStateTransition actor corr kvs ev)"
  by (auto simp: transition_legal_def)

text \<open>Every section keeps it.\<close>

lemma base_start: "base_inv rm \<Longrightarrow> base_inv (snd (start_commit rid exe actor rm))"
  by (auto simp: start_commit_def Let_def frames moves_def CanTransition_def split: option.split
      intro!: base_intros legal_transition)

lemma base_start_failed: "base_inv rm \<Longrightarrow> base_inv (transitionToFailedFromCreated rid exe actor why rm)"
  by (auto simp: transitionToFailedFromCreated_def Let_def frames moves_def CanTransition_def split: option.split
      intro!: base_intros legal_transition)

lemma base_progress: "base_inv rm \<Longrightarrow> base_inv (install_progression rid sid cfg actor rm)"
  by (auto simp: install_progression_def new_ctx_def Let_def frames split: option.split intro!: base_intros)
    (erule base_cong, simp_all add: now_ms_def)

lemma base_evaluator: "base_inv rm \<Longrightarrow> base_inv (install_evaluator rid stage rm)"
  by (auto simp: install_evaluator_def new_ctx_def Let_def frames simp del: cancel_ctx.simps split: option.split intro!: base_intros)

lemma base_ramp: "base_inv rm \<Longrightarrow> base_inv (snd (install_ramp rid rm))"
  by (auto simp: install_ramp_def new_ctx_def Let_def intro!: base_intros)

lemma base_baseline: "base_inv rm \<Longrightarrow> base_inv (snd (baseline_enter rid actor rm))"
  by (auto simp: baseline_enter_def Let_def frames moves_def CanTransition_def split: option.split
      intro!: base_intros legal_transition)

lemma base_enter: "base_inv rm \<Longrightarrow> base_inv (snd (stage_enter from to op rid rm))"
  by (auto simp: stage_enter_def split: option.split intro!: base_intros)

lemma base_active: "base_inv rm \<Longrightarrow> base_inv (set_active_stage rid name sid rm)"
  by (auto simp: set_active_stage_def intro!: base_intros)

lemma base_timer: "base_inv rm \<Longrightarrow> base_inv (snd (new_timer rm))"
  by (erule base_cong) (simp_all add: new_timer_def now_ms_def)

lemma base_stopTimer: "base_inv rm \<Longrightarrow> base_inv (stopTimer t rm)"
  by (cases t) (auto intro!: base_intros)

lemma base_timer_added: "base_inv rm \<Longrightarrow> base_inv (addStageTimer rid t rm)"
  by (auto simp: addStageTimer_def split: option.split intro!: base_intros)

lemma base_timer_removed: "base_inv rm \<Longrightarrow> base_inv (removeStageTimer rid t rm)"
  by (auto simp: removeStageTimer_def split: option.split intro!: base_intros)

lemma base_request_stop: "base_inv rm \<Longrightarrow> base_inv (snd (requestStopWithReason rid mode actor why ev rm))"
  by (auto simp: requestStopWithReason_def Let_def frames moves_def split: option.split
      intro!: base_intros legal_transition)

lemma base_emergency: "base_inv rm \<Longrightarrow> base_inv (snd (EmergencyStop rid actor rm))"
  by (auto simp: EmergencyStop_def Let_def frames moves_def split: option.split
      intro!: base_intros legal_transition)

lemma base_fail_fast: "base_inv rm \<Longrightarrow> get_run rm rid = Some r \<Longrightarrow> isRunningState (rr_State r) \<Longrightarrow>
    base_inv (handleFailFastLocked rid wid rm)"
  by (auto simp: handleFailFastLocked_def Let_def frames
      intro!: base_intros legal_payload [where s = "rr_State r" and t = RunStateStopping])
    (auto simp: moves_def dest: running_can_stop)

lemma base_completed: "base_inv rm \<Longrightarrow> base_inv (transitionToCompleted rid actor why rm)"
  by (auto simp: transitionToCompleted_def Let_def frames moves_def split: option.split
      intro!: base_intros legal_transition)

lemma base_analyzing: "base_inv rm \<Longrightarrow> base_inv (snd (analyzing_enter rid actor rm))"
  by (auto simp: analyzing_enter_def Let_def frames moves_def split: option.split
      intro!: base_intros legal_transition)

lemma base_analyzed: "base_inv rm \<Longrightarrow> base_inv (completeAnalysis rid rm)"
  by (auto simp: completeAnalysis_def Let_def frames moves_def analysis_outcome_def CanTransition_def split: option.splits
      intro!: base_intros legal_transition)

lemma base_analysis_failed: "base_inv rm \<Longrightarrow> base_inv (failAnalysis rid why details rm)"
  by (auto simp: failAnalysis_def Let_def frames split: option.split
      intro!: base_intros legal_payload [where s = RunStateAnalyzing and t = RunStateFailed])
    (auto simp: moves_def CanTransition_def)

lemma base_insert: "base_inv rm \<Longrightarrow> get_run rm (fst (generateRunID rm)) = None \<Longrightarrow> base_inv (insert_new E config actor rm)"
  by (auto simp: base_inv_def chan_inv_def logs_inv_def insert_new_def insert_run_def generateRunID_def
      generateExecutionID_def new_record_def now_ms_def Let_def keys_distinct_put log_ok_new)
    (simp add: NewEventLog_def NewEventLogWithLimit_def)

lemma base_other: "base_inv rm \<Longrightarrow> base_inv (Shutdown rm)" "base_inv rm \<Longrightarrow> base_inv (SetScheduler a b c rm)"
  "base_inv rm \<Longrightarrow> base_inv (SetAssignmentSender a rm)" "base_inv rm \<Longrightarrow> base_inv (SetArtifactStore a rm)"
  "base_inv rm \<Longrightarrow> base_inv (SetTelemetryStore a rm)" "base_inv rm \<Longrightarrow> base_inv (AddAssignment w wa rm)"
  "base_inv rm \<Longrightarrow> base_inv (rm\<lparr>rm_registry := r\<rparr>)" "base_inv rm \<Longrightarrow> base_inv (rm\<lparr>rm_leases := lm\<rparr>)"
  by (erule base_cong; simp add: Shutdown_def SetScheduler_def SetAssignmentSender_def SetArtifactStore_def
      SetTelemetryStore_def AddAssignment_def now_ms_def)+

lemma base_tick: "base_inv rm \<Longrightarrow> clock_ms (t div 1000000) \<Longrightarrow> base_inv (rm\<lparr>rm_now := t\<rparr>)"
  by (auto simp: base_inv_def chan_inv_def logs_inv_def now_ms_def)

lemmas base_sections = base_start base_start_failed base_progress base_evaluator base_ramp base_baseline base_enter
  base_active base_timer base_stopTimer base_timer_added base_timer_removed base_request_stop base_emergency
  base_fail_fast base_completed base_analyzing base_analyzed base_analysis_failed base_insert base_other base_tick
  base_metadata base_close_drain base_init_drain base_swap base_spawn base_append

lemma rm_step_base: "rm_step E rm rm' \<Longrightarrow> base_inv rm \<Longrightarrow> base_inv rm'"
  by (induction rule: rm_step.induct) (auto intro: base_sections dest: finalize_begin_Some)

section \<open>The scheduler behind the run manager\<close>

definition sched_inv :: "run_manager \<Rightarrow> bool" where
  "sched_inv rm \<longleftrightarrow> registry_inv (rm_registry rm) \<and> lease_inv (rm_leases rm)
     \<and> (\<forall>x \<in> set (rm_sent rm). lease_matches (rm_leases rm) x)"

lemma lease_matches_step:
  assumes inv: "lease_inv lm" and step: "lease_step lm lm'" and m: "lease_matches lm x"
  shows "lease_matches lm' x"
proof -
  obtain w wa where x: "x = (w, wa)" by (cases x)
  from m x obtain ts c where id: "clock_ms ts" "c \<le> lm_counter lm" "wa_LeaseID wa = stamp_id ''lse_'' ts c"
    by (auto simp: lease_matches_def)
  from lh.step_rel [OF inv step] have h: "lm_counter lm \<le> lm_counter lm'"
      "lease_opt_le (map_get (leases lm) (wa_LeaseID wa)) (map_get (leases lm') (wa_LeaseID wa))"
    using id by (auto simp: lease_history_def)
  from id h(1) have 1: "\<exists>ts c. clock_ms ts \<and> c \<le> lm_counter lm' \<and> wa_LeaseID wa = stamp_id ''lse_'' ts c"
    by (meson le_trans)
  have 2: "l_WorkerID l' = w \<and> l_Assignment l' = \<lparr>as_RunID = wa_RunID wa, as_StageID = wa_StageID wa,
              as_VUIDRange = \<lparr>Start = wa_VUIDStart wa, End = wa_VUIDEnd wa\<rparr>\<rparr>"
    if "map_get (leases lm') (wa_LeaseID wa) = Some l'" for l'
    using that h(2) m x by (cases "map_get (leases lm) (wa_LeaseID wa)") (auto simp: lease_matches_def lease_le_def)
  from 1 2 show ?thesis by (simp add: lease_matches_def x)
qed

lemma sched_cong: "sched_inv rm \<Longrightarrow> rm_registry rm' = rm_registry rm \<Longrightarrow> rm_leases rm' = rm_leases rm \<Longrightarrow>
    rm_sent rm' = rm_sent rm \<Longrightarrow> sched_inv rm'"
  by (simp add: sched_inv_def)

text \<open>The three components a section leaves alone.\<close>

abbreviation sched_of :: "run_manager \<Rightarrow> registry \<times> lease_manager \<times> (WorkerID \<times> WorkerAssignment) list" where
  "sched_of rm \<equiv> (rm_registry rm, rm_leases rm, rm_sent rm)"

lemma sched_sections:
  "sched_of (snd (start_commit rid exe actor rm)) = sched_of rm"
  "sched_of (transitionToFailedFromCreated rid exe actor why rm) = sched_of rm"
  "sched_of (install_progression rid sid cfg actor rm) = sched_of rm"
  "sched_of (snd (baseline_enter rid actor rm)) = sched_of rm"
  "sched_of (snd (stage_enter from to op rid rm)) = sched_of rm"
  "sched_of (set_active_stage rid name sid rm) = sched_of rm"
  "sched_of (install_evaluator rid stage rm) = sched_of rm"
  "sched_of (snd (install_ramp rid rm)) = sched_of rm"
  "sched_of (addStageTimer rid t rm) = sched_of rm"
  "sched_of (removeStageTimer rid t rm) = sched_of rm"
  "sched_of (transitionToCompleted rid actor why rm) = sched_of rm"
  "sched_of (snd (analyzing_enter rid actor rm)) = sched_of rm"
  "sched_of (completeAnalysis rid rm) = sched_of rm"
  "sched_of (failAnalysis rid why details rm) = sched_of rm"
  "sched_of (insert_new E config actor rm) = sched_of rm"
  by (auto simp: start_commit_def transitionToFailedFromCreated_def install_progression_def baseline_enter_def
      stage_enter_def set_active_stage_def install_evaluator_def install_ramp_def addStageTimer_def removeStageTimer_def
      transitionToCompleted_def analyzing_enter_def completeAnalysis_def failAnalysis_def insert_new_def insert_run_def
      generateRunID_def generateExecutionID_def new_ctx_def analysis_outcome_def frames Let_def split: option.split)

lemma sched_stops:
  "sched_of (snd (requestStopWithReason rid mode actor why ev rm)) = sched_of rm"
  "sched_of (snd (EmergencyStop rid actor rm)) = sched_of rm"
  "sched_of (handleFailFastLocked rid wid rm) = sched_of rm"
  by (auto simp: requestStopWithReason_def EmergencyStop_def handleFailFastLocked_def frames Let_def split: option.split)

lemma sched_other:
  "sched_of (Shutdown rm) = sched_of rm" "sched_of (SetScheduler a b c rm) = sched_of rm"
  "sched_of (SetAssignmentSender a rm) = sched_of rm" "sched_of (SetArtifactStore a rm) = sched_of rm"
  "sched_of (SetTelemetryStore a rm) = sched_of rm" "sched_of (snd (new_timer rm)) = sched_of rm"
  by (simp_all add: Shutdown_def SetScheduler_def SetAssignmentSender_def SetArtifactStore_def SetTelemetryStore_def new_timer_def)

lemma sched_stopTimer: "sched_of (stopTimer t rm) = sched_of rm"
  by (cases t) (simp_all add: frames)

lemma sched_same: "sched_of rm' = sched_of rm \<Longrightarrow> sched_inv rm \<Longrightarrow> sched_inv rm'"
  by (simp add: sched_inv_def)

lemma rm_step_sched: "rm_step E rm rm' \<Longrightarrow> sched_inv rm \<Longrightarrow> sched_inv rm'"
proof (induction rule: rm_step.induct)
  case (registry rm r)
  then show ?case by (auto simp: sched_inv_def intro: registry_step_inv)
next
  case (lease rm lm)
  then show ?case by (auto simp: sched_inv_def intro: lease_step_inv lease_matches_step)
next
  case (send rm w wa)
  then show ?case by (simp add: sched_inv_def AddAssignment_def)
next
  case (fin_wait rid actor t rm c rm1)
  then have "rm1 = init_drainCancel rid rm" by (auto dest: finalize_begin_Some)
  then show ?case using fin_wait(4) by (auto elim: sched_same [rotated] simp: frames)
qed (erule sched_same [rotated],
     simp add: sched_sections [simplified] sched_stops [simplified] sched_other [simplified] sched_stopTimer [simplified] frames)+

section \<open>Stop reasons and finalizers\<close>

text \<open>
  A record names its run; a run that is stopping or being analyzed knows why; before it stops it has no
  reason, no drain channel and no immediate stop; an immediate stop is an emergency.
\<close>

definition run_wf :: "string \<Rightarrow> RunRecord \<Rightarrow> bool" where
  "run_wf rid r \<longleftrightarrow> rr_RunID r = rid \<and> rr_ExecutionID r \<noteq> []
     \<and> (rr_State r = RunStateStopping \<or> rr_State r = RunStateAnalyzing \<longrightarrow> rr_StopReason r \<noteq> None)
     \<and> (state_rank (rr_State r) < 6 \<longrightarrow> rr_drainCancel r = None \<and> rr_StopReason r = None \<and> \<not> rr_immediateStop r)
     \<and> (rr_immediateStop r \<longrightarrow> (\<exists>why. rr_StopReason r = Some why \<and> sr_Reason why = ''emergency_stop''))"

definition runs_inv :: "run_manager \<Rightarrow> bool" where
  "runs_inv rm \<longleftrightarrow> (\<forall>rid r. get_run rm rid = Some r \<longrightarrow> run_wf rid r)"

text \<open>Goroutines that finalize a run exist only from \<open>stopping\<close> on, and a stopping run has one.\<close>

definition fin_inv :: "run_manager \<Rightarrow> bool" where
  "fin_inv rm \<longleftrightarrow>
     (\<forall>rid actor pc. GoFinalize rid actor pc \<in> set (rm_go rm) \<longrightarrow> (\<exists>r. get_run rm rid = Some r \<and> 6 \<le> state_rank (rr_State r)))
     \<and> (\<forall>rid r. get_run rm rid = Some r \<longrightarrow> rr_State r = RunStateStopping \<longrightarrow>
          (\<exists>actor pc. GoFinalize rid actor pc \<in> set (rm_go rm)))"

lemma runs_at: "runs_inv rm \<Longrightarrow> (\<And>k. k \<noteq> rid \<Longrightarrow> get_run rm' k = get_run rm k) \<Longrightarrow>
    (get_run rm rid = None \<Longrightarrow> get_run rm' rid = None) \<Longrightarrow>
    (\<And>r r'. get_run rm rid = Some r \<Longrightarrow> run_wf rid r \<Longrightarrow> get_run rm' rid = Some r' \<Longrightarrow> run_wf rid r') \<Longrightarrow> runs_inv rm'"
  unfolding runs_inv_def by (metis option.exhaust)

lemma runs_cong: "runs_inv rm \<Longrightarrow> rm_runs rm' = rm_runs rm \<Longrightarrow> runs_inv rm'"
  by (simp add: runs_inv_def)

lemmas runs_auto = frames Let_def run_wf_def clear_progression_def with_drain_def

lemma runs_start: "runs_inv rm \<Longrightarrow> runs_inv (snd (start_commit rid exe actor rm))"
  by (erule runs_at [of _ rid]) (auto simp: start_commit_def runs_auto split: option.splits if_splits)+

lemma runs_start_failed: "runs_inv rm \<Longrightarrow> runs_inv (transitionToFailedFromCreated rid exe actor why rm)"
  by (erule runs_at [of _ rid]) (auto simp: transitionToFailedFromCreated_def runs_auto split: option.splits if_splits)+

lemma runs_progress: "runs_inv rm \<Longrightarrow> runs_inv (install_progression rid sid cfg actor rm)"
  by (erule runs_at [of _ rid]) (auto simp: install_progression_def new_ctx_def runs_auto split: option.splits if_splits)+

lemma runs_evaluator: "runs_inv rm \<Longrightarrow> runs_inv (install_evaluator rid stage rm)"
  by (erule runs_at [of _ rid]) (auto simp: install_evaluator_def new_ctx_def runs_auto split: option.splits if_splits)+

lemma runs_ramp: "runs_inv rm \<Longrightarrow> runs_inv (snd (install_ramp rid rm))"
  by (erule runs_at [of _ rid]) (auto simp: install_ramp_def new_ctx_def runs_auto)+

lemma runs_baseline: "runs_inv rm \<Longrightarrow> runs_inv (snd (baseline_enter rid actor rm))"
  by (erule runs_at [of _ rid]) (auto simp: baseline_enter_def CanTransition_def runs_auto split: option.splits if_splits)+

lemma rank_7_only: "6 \<le> state_rank s \<Longrightarrow> s = RunStateStopping \<or> s = RunStateAnalyzing \<or> terminal s"
  by (cases s) simp_all

text \<open>Ramp and soak are entered from states that have not stopped.\<close>

lemma runs_enter:
  assumes "runs_inv rm" and "state_rank from < 6" and "state_rank to < 6"
  shows "runs_inv (snd (stage_enter from to op rid rm))"
  using assms(1)
  by (rule runs_at [of _ rid]) (use assms in \<open>auto simp: stage_enter_def runs_auto split: option.splits if_splits\<close>)+

lemma runs_active: "runs_inv rm \<Longrightarrow> runs_inv (set_active_stage rid name sid rm)"
  by (erule runs_at [of _ rid]) (auto simp: set_active_stage_def runs_auto)+

lemma runs_timer_added: "runs_inv rm \<Longrightarrow> runs_inv (addStageTimer rid t rm)"
  by (erule runs_at [of _ rid]) (auto simp: addStageTimer_def runs_auto split: option.splits)+

lemma runs_timer_removed: "runs_inv rm \<Longrightarrow> runs_inv (removeStageTimer rid t rm)"
  by (erule runs_at [of _ rid]) (auto simp: removeStageTimer_def runs_auto split: option.splits)+

lemma stop_rank: "CanTransition s RunStateStopping \<Longrightarrow> s \<noteq> RunStateStopping \<Longrightarrow> state_rank s < 6"
  by (cases s) (auto simp: CanTransition_def)

lemma running_rank: "isRunningState s \<Longrightarrow> state_rank s < 6"
  by (cases s) simp_all

definition stop_record :: "StopReason \<Rightarrow> RunRecord \<Rightarrow> RunRecord" where
  "stop_record why r = r\<lparr>rr_State := RunStateStopping, rr_UpdatedAtMs := sr_AtMs why, rr_StopReason := Some why\<rparr>"

definition quiet_record :: "RunRecord \<Rightarrow> RunRecord" where
  "quiet_record r = (clear_progression r)\<lparr>rr_stopConditionsCancel := None\<rparr>"

lemma request_stop_get: "get_run rm rid = Some r \<Longrightarrow>
    get_run (snd (requestStopWithReason rid mode actor why ev rm)) rid = Some
      (if terminal (rr_State r) then r
       else if rr_State r = RunStateStopping \<or> \<not> CanTransition (rr_State r) RunStateStopping then quiet_record r
       else with_drain (rm_nextChan rm) (stop_record \<lparr>sr_Mode = mode, sr_Reason = why, sr_Actor = actor, sr_AtMs = int (now_ms rm)\<rparr>
         (quiet_record r)))"
  by (cases "rr_State r")
    (simp_all add: requestStopWithReason_def frames Let_def quiet_record_def stop_record_def CanTransition_def)

lemma emergency_get: "get_run rm rid = Some r \<Longrightarrow>
    get_run (snd (EmergencyStop rid actor rm)) rid = Some
      (let why = \<lparr>sr_Mode = StopModeImmediate, sr_Reason = ''emergency_stop'', sr_Actor = actor, sr_AtMs = int (now_ms rm)\<rparr>
       in if terminal (rr_State r) then r
          else if rr_State r = RunStateStopping
          then (stop_record why (clear_progression r))\<lparr>rr_immediateStop := True, rr_drainCancel := None\<rparr>
          else if \<not> CanTransition (rr_State r) RunStateStopping then clear_progression r
          else stop_record why (clear_progression r))"
  by (cases "rr_State r")
    (simp_all add: EmergencyStop_def frames Let_def stop_record_def clear_progression_def CanTransition_def)

lemma fail_fast_get: "get_run rm rid = Some r \<Longrightarrow>
    get_run (handleFailFastLocked rid wid rm) rid = Some (with_drain (rm_nextChan rm)
      (stop_record \<lparr>sr_Mode = StopModeImmediate, sr_Reason = ''worker_failure: worker '' @ wid @ '' lost'',
         sr_Actor = ActorSystem, sr_AtMs = int (now_ms rm)\<rparr> (quiet_record r)))"
  by (simp add: handleFailFastLocked_def frames Let_def quiet_record_def stop_record_def)

lemma stops_elsewhere: "k \<noteq> rid \<Longrightarrow> get_run (snd (requestStopWithReason rid mode actor why ev rm)) k = get_run rm k"
  "k \<noteq> rid \<Longrightarrow> get_run (snd (EmergencyStop rid actor rm)) k = get_run rm k"
  "k \<noteq> rid \<Longrightarrow> get_run (handleFailFastLocked rid wid rm) k = get_run rm k"
  by (auto simp: requestStopWithReason_def EmergencyStop_def handleFailFastLocked_def frames Let_def split: option.split)

lemma stops_nowhere: "get_run rm rid = None \<Longrightarrow> get_run (snd (requestStopWithReason rid mode actor why ev rm)) rid = None"
  "get_run rm rid = None \<Longrightarrow> get_run (snd (EmergencyStop rid actor rm)) rid = None"
  "get_run rm rid = None \<Longrightarrow> get_run (handleFailFastLocked rid wid rm) rid = None"
  by (simp_all add: requestStopWithReason_def EmergencyStop_def handleFailFastLocked_def)

lemma run_wf_quiet: "run_wf rid r \<Longrightarrow> run_wf rid (quiet_record r)"
  by (simp add: run_wf_def quiet_record_def clear_progression_def)

lemma run_wf_clear: "run_wf rid r \<Longrightarrow> run_wf rid (clear_progression r)"
  by (simp add: run_wf_def clear_progression_def)

lemma run_wf_stop: "run_wf rid r \<Longrightarrow> state_rank (rr_State r) < 6 \<Longrightarrow> run_wf rid (stop_record why r)"
  by (simp add: run_wf_def stop_record_def)

lemma run_wf_drain: "run_wf rid r \<Longrightarrow> 6 \<le> state_rank (rr_State r) \<Longrightarrow> run_wf rid (with_drain c r)"
  by (simp add: run_wf_def with_drain_def)

lemma record_states [simp]: "rr_State (quiet_record r) = rr_State r" "rr_State (clear_progression r) = rr_State r"
  "rr_State (stop_record why r) = RunStateStopping" "rr_State (with_drain c r) = rr_State r"
  by (simp_all add: quiet_record_def clear_progression_def stop_record_def with_drain_def)

lemma runs_request_stop: "runs_inv rm \<Longrightarrow> runs_inv (snd (requestStopWithReason rid mode actor why ev rm))"
proof (erule runs_at [of _ rid])
  fix r r' assume r: "get_run rm rid = Some r" "run_wf rid r"
    and "get_run (snd (requestStopWithReason rid mode actor why ev rm)) rid = Some r'"
  then show "run_wf rid r'"
    by (auto simp: request_stop_get [OF r(1)] intro!: run_wf_quiet run_wf_stop run_wf_drain stop_rank split: if_splits)
qed (auto simp: stops_elsewhere stops_nowhere)

lemma runs_emergency: "runs_inv rm \<Longrightarrow> runs_inv (snd (EmergencyStop rid actor rm))"
proof (erule runs_at [of _ rid])
  fix r r' assume r: "get_run rm rid = Some r" "run_wf rid r" and "get_run (snd (EmergencyStop rid actor rm)) rid = Some r'"
  then show "run_wf rid r'"
    by (auto simp: emergency_get [OF r(1)] Let_def intro!: run_wf_clear run_wf_stop stop_rank split: if_splits)
      (simp add: run_wf_def stop_record_def clear_progression_def)
qed (auto simp: stops_elsewhere stops_nowhere)

lemma runs_fail_fast: "runs_inv rm \<Longrightarrow> get_run rm rid = Some r \<Longrightarrow> isRunningState (rr_State r) \<Longrightarrow>
    runs_inv (handleFailFastLocked rid wid rm)"
  by (erule runs_at [of _ rid])
    (auto simp: fail_fast_get stops_elsewhere intro!: run_wf_quiet run_wf_stop run_wf_drain running_rank)

lemma runs_completed: "runs_inv rm \<Longrightarrow> runs_inv (transitionToCompleted rid actor why rm)"
  by (erule runs_at [of _ rid]) (auto simp: transitionToCompleted_def runs_auto split: option.splits if_splits)

lemma runs_analyzing: "runs_inv rm \<Longrightarrow> runs_inv (snd (analyzing_enter rid actor rm))"
  by (erule runs_at [of _ rid]) (auto simp: analyzing_enter_def runs_auto split: option.splits if_splits)

lemma runs_analyzed: "runs_inv rm \<Longrightarrow> runs_inv (completeAnalysis rid rm)"
  by (erule runs_at [of _ rid]) (auto simp: completeAnalysis_def analysis_outcome_def runs_auto split: option.splits if_splits)

lemma runs_analysis_failed: "runs_inv rm \<Longrightarrow> runs_inv (failAnalysis rid why details rm)"
  by (erule runs_at [of _ rid]) (auto simp: failAnalysis_def runs_auto split: option.splits if_splits)

lemma runs_close_drain: "runs_inv rm \<Longrightarrow> runs_inv (close_drainCancel rid rm)"
  by (erule runs_at [of _ rid]) (auto simp: runs_auto)

lemma runs_insert: "runs_inv rm \<Longrightarrow> runs_inv (insert_new E config actor rm)"
  by (auto simp: runs_inv_def run_wf_def insert_new_def insert_run_def new_record_def generateRunID_def generateExecutionID_def Let_def)

lemma runs_wait:
  assumes "runs_inv rm" and "fin_inv rm" and "GoFinalize rid actor (FinStart t) \<in> set (rm_go rm)"
    and "finalize_begin rid rm = Some (c, rm1)"
  shows "runs_inv rm1"
proof -
  from finalize_begin_Some [OF assms(4)] have rm1: "rm1 = init_drainCancel rid rm" by simp
  from assms(2,3) obtain r where "get_run rm rid = Some r" "6 \<le> state_rank (rr_State r)" unfolding fin_inv_def by blast
  with assms(1) show ?thesis unfolding rm1
    by (elim runs_at [of _ rid]) (auto simp: frames intro: run_wf_drain)
qed

lemma runs_swap: "runs_inv rm \<Longrightarrow> runs_inv (go_swap g gs rm)"
  by (erule runs_cong) (simp add: frames)

lemmas runs_sections = runs_start runs_start_failed runs_progress runs_evaluator runs_ramp runs_baseline runs_enter
  runs_active runs_timer_added runs_timer_removed runs_request_stop runs_emergency runs_fail_fast runs_completed
  runs_analyzing runs_analyzed runs_analysis_failed runs_close_drain runs_insert runs_wait runs_swap

lemma rm_step_runs: "rm_step E rm rm' \<Longrightarrow> runs_inv rm \<Longrightarrow> fin_inv rm \<Longrightarrow> runs_inv rm'"
  by (induction rule: rm_step.induct) (auto intro: runs_sections runs_cong simp: frames)

text \<open>Finalizers: what a step may do to them.\<close>

definition only_was_stopping :: "run_manager \<Rightarrow> run_manager \<Rightarrow> string \<Rightarrow> bool" where
  "only_was_stopping rm rm' k \<longleftrightarrow> (\<forall>r'. get_run rm' k = Some r' \<longrightarrow> rr_State r' = RunStateStopping \<longrightarrow>
     (\<exists>r. get_run rm k = Some r \<and> rr_State r = RunStateStopping))"

lemma rank_evolves: "evolves rm rm' \<Longrightarrow> get_run rm k = Some r \<Longrightarrow> 6 \<le> state_rank (rr_State r) \<Longrightarrow>
    \<exists>r'. get_run rm' k = Some r' \<and> 6 \<le> state_rank (rr_State r')"
  unfolding evolves_def run_le_def by (metis moves_rank le_trans less_imp_le)

lemma fin_finalizers:
  assumes "fin_inv rm" and "evolves rm rm'" and "GoFinalize rid actor pc \<in> set (rm_go rm)"
  shows "\<exists>r. get_run rm' rid = Some r \<and> 6 \<le> state_rank (rr_State r)"
  using assms unfolding fin_inv_def by (metis rank_evolves)

lemma fin_keep:
  assumes "fin_inv rm" and "evolves rm rm'" and "\<And>g. is_finalizer g \<Longrightarrow> g \<in> set (rm_go rm') \<longleftrightarrow> g \<in> set (rm_go rm)"
    and "\<And>k. only_was_stopping rm rm' k"
  shows "fin_inv rm'"
  unfolding fin_inv_def
proof (intro conjI allI impI)
  fix rid actor pc assume "GoFinalize rid actor pc \<in> set (rm_go rm')"
  with assms(3) [of "GoFinalize rid actor pc"] have "GoFinalize rid actor pc \<in> set (rm_go rm)" by simp
  with fin_finalizers [OF assms(1,2)] show "\<exists>r. get_run rm' rid = Some r \<and> 6 \<le> state_rank (rr_State r)" by blast
next
  fix rid r assume "get_run rm' rid = Some r" "rr_State r = RunStateStopping"
  with assms(1,4) [unfolded only_was_stopping_def fin_inv_def]
  obtain actor pc where "GoFinalize rid actor pc \<in> set (rm_go rm)" by blast
  with assms(3) [of "GoFinalize rid actor pc"] show "\<exists>actor pc. GoFinalize rid actor pc \<in> set (rm_go rm')" by auto
qed

lemma fin_new:
  assumes "fin_inv rm" and "evolves rm rm'" and "rm_go rm' = rm_go rm @ [GoFinalize rid actor pc]"
    and "\<exists>r. get_run rm' rid = Some r \<and> rr_State r = RunStateStopping" and "\<And>k. k \<noteq> rid \<Longrightarrow> only_was_stopping rm rm' k"
  shows "fin_inv rm'"
  unfolding fin_inv_def
proof (intro conjI allI impI)
  fix k a p assume "GoFinalize k a p \<in> set (rm_go rm')"
  with assms(3) have "GoFinalize k a p \<in> set (rm_go rm) \<or> k = rid" by auto
  with fin_finalizers [OF assms(1,2)] assms(4) show "\<exists>r. get_run rm' k = Some r \<and> 6 \<le> state_rank (rr_State r)"
    by (metis le_refl state_rank.simps(8))
next
  fix k r assume k: "get_run rm' k = Some r" "rr_State r = RunStateStopping"
  show "\<exists>a p. GoFinalize k a p \<in> set (rm_go rm')"
  proof (cases "k = rid")
    case True
    with assms(3) show ?thesis by auto
  next
    case False
    with k assms(1,5) obtain a p where "GoFinalize k a p \<in> set (rm_go rm)"
      unfolding only_was_stopping_def fin_inv_def by blast
    with assms(3) show ?thesis by auto
  qed
qed

lemma fin_swap:
  assumes "fin_inv rm" and "evolves rm rm1" and "rm_go rm1 = rm_go rm" and "GoFinalize rid actor pc \<in> set (rm_go rm)"
    and "(\<exists>a p. GoFinalize rid a p \<in> set gs) \<or> (\<forall>r. get_run rm1 rid = Some r \<longrightarrow> rr_State r \<noteq> RunStateStopping)"
    and "\<And>k a p. GoFinalize k a p \<in> set gs \<Longrightarrow> k = rid" and "\<And>k. k \<noteq> rid \<Longrightarrow> only_was_stopping rm rm1 k"
  shows "fin_inv (go_swap (GoFinalize rid actor pc) gs rm1)"
  unfolding fin_inv_def frames assms(3)
proof (intro conjI allI impI)
  fix k a p assume "GoFinalize k a p \<in> set (remove1 (GoFinalize rid actor pc) (rm_go rm) @ gs)"
  then have "GoFinalize k a p \<in> set (rm_go rm) \<or> k = rid" using assms(6) by (auto dest: notin_set_remove1)
  with fin_finalizers [OF assms(1,2)] assms(4) show "\<exists>r. get_run rm1 k = Some r \<and> 6 \<le> state_rank (rr_State r)"
    by blast
next
  fix k r assume k: "get_run rm1 k = Some r" "rr_State r = RunStateStopping"
  show "\<exists>a p. GoFinalize k a p \<in> set (remove1 (GoFinalize rid actor pc) (rm_go rm) @ gs)"
  proof (cases "k = rid")
    case True
    with assms(5) k show ?thesis by auto
  next
    case False
    with k assms(1,7) obtain a p where "GoFinalize k a p \<in> set (rm_go rm)"
      unfolding only_was_stopping_def fin_inv_def by blast
    with False have "GoFinalize k a p \<in> set (remove1 (GoFinalize rid actor pc) (rm_go rm))" by simp
    then show ?thesis by auto
  qed
qed

lemma was_stopping_eq: "get_run rm' k = get_run rm k \<Longrightarrow> only_was_stopping rm rm' k"
  by (simp add: only_was_stopping_def)

lemma was_stopping_init: "only_was_stopping rm (init_drainCancel rid rm) k"
  by (auto simp: only_was_stopping_def frames)

text \<open>The sections that stop no run and start no finalizer.\<close>

lemma quiet_sections:
  "only_was_stopping rm (snd (start_commit rid exe actor rm)) k"
  "only_was_stopping rm (transitionToFailedFromCreated rid exe actor why rm) k"
  "only_was_stopping rm (install_progression rid sid cfg actor rm) k"
  "only_was_stopping rm (snd (baseline_enter rid actor rm)) k"
  "only_was_stopping rm (snd (stage_enter RunStateBaselineRunning RunStateRampRunning op rid rm)) k"
  "only_was_stopping rm (snd (stage_enter RunStateRampRunning RunStateSoakRunning op rid rm)) k"
  "only_was_stopping rm (set_active_stage rid name sid rm) k"
  "only_was_stopping rm (install_evaluator rid stage rm) k"
  "only_was_stopping rm (snd (install_ramp rid rm)) k"
  "only_was_stopping rm (addStageTimer rid t rm) k"
  "only_was_stopping rm (removeStageTimer rid t rm) k"
  "only_was_stopping rm (completeAnalysis rid rm) k"
  "only_was_stopping rm (failAnalysis rid why details rm) k"
  "only_was_stopping rm (close_drainCancel rid rm) k"
  "only_was_stopping rm (insert_new E config actor rm) k"
  by (auto simp: only_was_stopping_def start_commit_def transitionToFailedFromCreated_def install_progression_def baseline_enter_def
      stage_enter_def set_active_stage_def install_evaluator_def install_ramp_def addStageTimer_def removeStageTimer_def
      completeAnalysis_def failAnalysis_def insert_new_def insert_run_def new_record_def
      generateRunID_def generateExecutionID_def new_ctx_def analysis_outcome_def frames Let_def CanTransition_def
      split: option.splits if_splits)

lemma quiet_go:
  "is_finalizer g \<Longrightarrow> g \<in> set (rm_go (snd (start_commit rid exe actor rm))) \<longleftrightarrow> g \<in> set (rm_go rm)"
  "is_finalizer g \<Longrightarrow> g \<in> set (rm_go (transitionToFailedFromCreated rid exe actor why rm)) \<longleftrightarrow> g \<in> set (rm_go rm)"
  "is_finalizer g \<Longrightarrow> g \<in> set (rm_go (install_progression rid sid cfg actor rm)) \<longleftrightarrow> g \<in> set (rm_go rm)"
  "is_finalizer g \<Longrightarrow> g \<in> set (rm_go (snd (baseline_enter rid actor rm))) \<longleftrightarrow> g \<in> set (rm_go rm)"
  "is_finalizer g \<Longrightarrow> g \<in> set (rm_go (snd (stage_enter from to op rid rm))) \<longleftrightarrow> g \<in> set (rm_go rm)"
  "is_finalizer g \<Longrightarrow> g \<in> set (rm_go (set_active_stage rid name sid rm)) \<longleftrightarrow> g \<in> set (rm_go rm)"
  "is_finalizer g \<Longrightarrow> g \<in> set (rm_go (install_evaluator rid stage rm)) \<longleftrightarrow> g \<in> set (rm_go rm)"
  "is_finalizer g \<Longrightarrow> g \<in> set (rm_go (snd (install_ramp rid rm))) \<longleftrightarrow> g \<in> set (rm_go rm)"
  "is_finalizer g \<Longrightarrow> g \<in> set (rm_go (addStageTimer rid t rm)) \<longleftrightarrow> g \<in> set (rm_go rm)"
  "is_finalizer g \<Longrightarrow> g \<in> set (rm_go (removeStageTimer rid t rm)) \<longleftrightarrow> g \<in> set (rm_go rm)"
  "is_finalizer g \<Longrightarrow> g \<in> set (rm_go (completeAnalysis rid rm)) \<longleftrightarrow> g \<in> set (rm_go rm)"
  "is_finalizer g \<Longrightarrow> g \<in> set (rm_go (failAnalysis rid why details rm)) \<longleftrightarrow> g \<in> set (rm_go rm)"
  "is_finalizer g \<Longrightarrow> g \<in> set (rm_go (insert_new E config actor rm)) \<longleftrightarrow> g \<in> set (rm_go rm)"
  by (auto simp: start_commit_def transitionToFailedFromCreated_def install_progression_def baseline_enter_def
      stage_enter_def set_active_stage_def install_evaluator_def install_ramp_def addStageTimer_def removeStageTimer_def
      completeAnalysis_def failAnalysis_def insert_new_def insert_run_def new_record_def
      generateRunID_def generateExecutionID_def new_ctx_def analysis_outcome_def frames Let_def
      split: option.splits if_splits)

lemma request_stop_go: "rm_go (snd (requestStopWithReason rid mode actor why ev rm)) =
    rm_go rm @ (case get_run rm rid of None \<Rightarrow> []
      | Some r \<Rightarrow> if CanTransition (rr_State r) RunStateStopping \<and> rr_State r \<noteq> RunStateStopping
          then [GoFinalize rid actor (FinStart (getDrainTimeout (rr_Config r)))] else [])"
  by (auto simp: requestStopWithReason_def frames Let_def terminal_stuck split: option.split)

lemma emergency_go: "rm_go (snd (EmergencyStop rid actor rm)) =
    rm_go rm @ (case get_run rm rid of None \<Rightarrow> []
      | Some r \<Rightarrow> if CanTransition (rr_State r) RunStateStopping \<and> rr_State r \<noteq> RunStateStopping
          then [GoFinalize rid actor (FinStart 0)] else [])"
  by (auto simp: EmergencyStop_def frames Let_def terminal_stuck split: option.split)

lemma fail_fast_go: "get_run rm rid = Some r \<Longrightarrow> rm_go (handleFailFastLocked rid wid rm) =
    rm_go rm @ [GoFinalize rid ActorSystem (FinStart (getDrainTimeout (rr_Config r)))]"
  by (simp add: handleFailFastLocked_def frames Let_def)

text \<open>A stop that takes effect starts a finalizer; one that does not leaves the state of the run.\<close>

lemma fin_stop:
  assumes inv: "fin_inv rm" and ev: "evolves rm rm'" and other: "\<And>k. k \<noteq> rid \<Longrightarrow> get_run rm' k = get_run rm k"
    and none: "get_run rm rid = None \<Longrightarrow> get_run rm' rid = None"
    and go: "rm_go rm' = rm_go rm @ (case get_run rm rid of None \<Rightarrow> []
      | Some r \<Rightarrow> if CanTransition (rr_State r) RunStateStopping \<and> rr_State r \<noteq> RunStateStopping then [GoFinalize rid actor (pc r)] else [])"
    and state: "\<And>r. get_run rm rid = Some r \<Longrightarrow> \<exists>r'. get_run rm' rid = Some r' \<and>
      rr_State r' = (if CanTransition (rr_State r) RunStateStopping then RunStateStopping else rr_State r)"
  shows "fin_inv rm'"
proof (cases "\<exists>r. get_run rm rid = Some r \<and> CanTransition (rr_State r) RunStateStopping \<and> rr_State r \<noteq> RunStateStopping")
  case True
  then obtain r where r: "get_run rm rid = Some r" "CanTransition (rr_State r) RunStateStopping" "rr_State r \<noteq> RunStateStopping" by blast
  with go have "rm_go rm' = rm_go rm @ [GoFinalize rid actor (pc r)]" by simp
  then show ?thesis using state [OF r(1)] r(2) other by (intro fin_new [OF inv ev]) (auto intro: was_stopping_eq)
next
  case False
  have st: "only_was_stopping rm rm' k" for k
  proof (cases "k = rid")
    case True
    with False state none show ?thesis
      by (cases "get_run rm rid") (auto simp: only_was_stopping_def split: if_splits)
  qed (simp add: other was_stopping_eq)
  have "rm_go rm' = rm_go rm" using go False by (auto split: option.splits)
  with st show ?thesis by (intro fin_keep [OF inv ev]) auto
qed

lemma stopping_self: "CanTransition RunStateStopping RunStateStopping"
  by (simp add: CanTransition_def)

lemma fin_request_stop: "fin_inv rm \<Longrightarrow> fin_inv (snd (requestStopWithReason rid mode actor why ev rm))"
  by (rule fin_stop [where rid = rid and actor = actor and pc = "\<lambda>r. FinStart (getDrainTimeout (rr_Config r))"])
    (auto simp: evolves_request_stop request_stop_get request_stop_go stops_elsewhere stops_nowhere terminal_stuck stopping_self)

lemma fin_emergency: "fin_inv rm \<Longrightarrow> fin_inv (snd (EmergencyStop rid actor rm))"
  by (rule fin_stop [where rid = rid and actor = actor and pc = "\<lambda>r. FinStart 0"])
    (auto simp: evolves_emergency emergency_get emergency_go stops_elsewhere stops_nowhere terminal_stuck stopping_self Let_def)

lemma fin_fail_fast: "fin_inv rm \<Longrightarrow> get_run rm rid = Some r \<Longrightarrow> isRunningState (rr_State r) \<Longrightarrow>
    fin_inv (handleFailFastLocked rid wid rm)"
  by (rule fin_new [OF _ evolves_fail_fast fail_fast_go])
    (auto simp: fail_fast_get stops_elsewhere intro: was_stopping_eq)

lemma completed_elsewhere: "k \<noteq> rid \<Longrightarrow> get_run (transitionToCompleted rid actor why rm) k = get_run rm k"
  "rm_go (transitionToCompleted rid actor why rm) = rm_go rm"
  "get_run (transitionToCompleted rid actor why rm) rid = Some r \<Longrightarrow> rr_State r \<noteq> RunStateStopping"
  by (auto simp: transitionToCompleted_def frames Let_def split: option.splits if_splits)

lemma analyzing_elsewhere: "k \<noteq> rid \<Longrightarrow> get_run (snd (analyzing_enter rid actor rm)) k = get_run rm k"
  "rm_go (snd (analyzing_enter rid actor rm)) = rm_go rm"
  "get_run (snd (analyzing_enter rid actor rm)) rid = Some r \<Longrightarrow> rr_State r \<noteq> RunStateStopping"
  by (auto simp: analyzing_enter_def frames Let_def CanTransition_def split: option.splits if_splits)

lemma finalize_begin_None: "finalize_begin rid rm = None \<Longrightarrow> get_run rm rid = None"
  by (auto simp: finalize_begin_def frames with_drain_def Let_def split: option.splits if_splits)

lemma finalize_check_None: "finalize_check rid rm = None \<Longrightarrow> get_run rm rid = Some r \<Longrightarrow> rr_State r \<noteq> RunStateStopping"
  by (auto simp: finalize_check_def split: if_splits)

lemma setter_go [simp]: "rm_go (Shutdown rm) = rm_go rm" "rm_go (SetScheduler a b c rm) = rm_go rm"
  "rm_go (SetAssignmentSender a rm) = rm_go rm" "rm_go (SetArtifactStore a rm) = rm_go rm"
  "rm_go (SetTelemetryStore a rm) = rm_go rm" "rm_go (AddAssignment w wa rm) = rm_go rm"
  "rm_go (snd (new_timer rm)) = rm_go rm" "rm_go (stopTimer t rm) = rm_go rm"
  by (simp_all add: Shutdown_def SetScheduler_def SetAssignmentSender_def SetArtifactStore_def SetTelemetryStore_def
      AddAssignment_def new_timer_def) (cases t; simp add: frames)

lemma fin_same: "fin_inv rm \<Longrightarrow> rm_runs rm' = rm_runs rm \<Longrightarrow> rm_go rm' = rm_go rm \<Longrightarrow> fin_inv rm'"
  by (simp add: fin_inv_def)

lemma fin_pc: "fin_inv rm \<Longrightarrow> GoFinalize rid actor pc \<in> set (rm_go rm) \<Longrightarrow>
    fin_inv (go_swap (GoFinalize rid actor pc) [GoFinalize rid actor pc'] rm)"
  by (rule fin_swap) (auto intro: was_stopping_eq)

lemma close_drain_in_go: "g \<in> set (rm_go (close_drainCancel rid rm)) \<longleftrightarrow> g \<in> set (rm_go rm)"
  by (simp add: frames)

lemmas fin_sections =
  fin_keep [OF _ evolves_start quiet_go(1) quiet_sections(1)]
  fin_keep [OF _ evolves_start_failed quiet_go(2) quiet_sections(2)]
  fin_keep [OF _ evolves_progress quiet_go(3) quiet_sections(3)]
  fin_keep [OF _ evolves_baseline quiet_go(4) quiet_sections(4)]
  fin_keep [OF _ evolves_enter quiet_go(5) quiet_sections(5)]
  fin_keep [OF _ evolves_enter quiet_go(5) quiet_sections(6)]
  fin_keep [OF _ evolves_active quiet_go(6) quiet_sections(7)]
  fin_keep [OF _ evolves_evaluator quiet_go(7) quiet_sections(8)]
  fin_keep [OF _ evolves_ramp quiet_go(8) quiet_sections(9)]
  fin_keep [OF _ evolves_timer_added quiet_go(9) quiet_sections(10)]
  fin_keep [OF _ evolves_timer_removed quiet_go(10) quiet_sections(11)]
  fin_keep [OF _ evolves_analyzed quiet_go(11) quiet_sections(12)]
  fin_keep [OF _ evolves_analysis_failed quiet_go(12) quiet_sections(13)]
  fin_keep [OF _ evolves_close_drain close_drain_in_go quiet_sections(14)]
  fin_keep [OF _ evolves_insert quiet_go(13) quiet_sections(15)]

lemma rm_step_fin: "rm_step E rm rm' \<Longrightarrow> fin_inv rm \<Longrightarrow> fin_inv rm'"
proof (induction rule: rm_step.induct)
  case (request_stop rm rid mode actor why ev)
  then show ?case by (rule fin_request_stop)
next
  case (emergency rm rid actor)
  then show ?case by (rule fin_emergency)
next
  case (fail_fast rm rid r wid)
  then show ?case by (intro fin_fail_fast)
next
  case (fin_wait rid actor t rm c rm1)
  then show ?case using finalize_begin_Some [OF fin_wait(3)]
    by (auto intro!: fin_swap evolves_init_drain was_stopping_init simp: frames)
next
  case (fin_gone rid actor t rm)
  then show ?case by (intro fin_swap) (auto intro: was_stopping_eq dest: finalize_begin_None)
next
  case (fin_check rid actor rm)
  show ?case
  proof (cases "finalize_check rid rm")
    case None
    then have "\<forall>r. get_run rm rid = Some r \<longrightarrow> rr_State r \<noteq> RunStateStopping" by (blast dest: finalize_check_None)
    then show ?thesis using fin_check None by (intro fin_swap) (auto intro: was_stopping_eq)
  next
    case (Some pc)
    then show ?thesis using fin_check by (auto intro: fin_pc)
  qed
next
  case (fin_complete rid actor rm)
  then show ?case
    by (intro fin_swap) (auto simp: completed_elsewhere evolves_completed intro: was_stopping_eq dest: completed_elsewhere(3))
next
  case (fin_analyze rid actor rm)
  then show ?case
    by (intro fin_swap) (auto simp: analyzing_elsewhere evolves_analyzing intro: was_stopping_eq dest: analyzing_elsewhere(3))
next
  case (go_started g rm)
  then show ?case by - (rule fin_keep [of rm], auto simp: frames intro: evolves_runs was_stopping_eq)
next
  case (go_ended g rm)
  have "h \<in> set (remove1 g (rm_go rm)) \<longleftrightarrow> h \<in> set (rm_go rm)" if "is_finalizer h" for h
    using that go_ended(1) by (metis in_set_remove1)
  with go_ended show ?case by - (rule fin_keep [of rm], auto simp: frames intro: evolves_runs was_stopping_eq)
qed ((erule (1) fin_pc | (erule fin_sections; simp; fail) | (erule fin_same; simp add: frames; fail))+)

end
