(* ===== verification/Run_System.thy ===== *)
theory Run_System
  imports Run_Lifecycle
begin

text \<open>
  The run manager as a whole: the invariants of \<open>Run_Lifecycle\<close> together, the operations of the server and
  of its goroutines as runs of the step relation, and what follows for every reachable state.
\<close>

section \<open>The invariant\<close>

definition rm_inv :: "run_manager \<Rightarrow> bool" where
  "rm_inv rm \<longleftrightarrow> base_inv rm \<and> sched_inv rm \<and> runs_inv rm \<and> fin_inv rm"

lemma rm_step_inv: "rm_inv rm \<Longrightarrow> rm_step E rm rm' \<Longrightarrow> rm_inv rm'"
  unfolding rm_inv_def by (blast intro: rm_step_base rm_step_sched rm_step_runs rm_step_fin)

interpretation rms: monotone_steps "rm_step E" rm_inv evolves for E
  by unfold_locales (auto intro: rm_step_inv rm_step_evolves evolves_trans)

definition server_start :: "nat \<Rightarrow> int \<Rightarrow> run_manager" where
  "server_start now ttlMs = NewRunManager now NewRegistry (NewLeaseManager ttlMs)"

lemma server_start_inv: "clock_ms (now div 1000000) \<Longrightarrow> rm_inv (server_start now ttl)"
  by (simp add: rm_inv_def server_start_def NewRunManager_def base_inv_def chan_inv_def logs_inv_def sched_inv_def
      runs_inv_def fin_inv_def now_ms_def registry_inv_def lease_inv_def NewRegistry_def NewLeaseManager_def)

definition reachable :: "environment \<Rightarrow> run_manager \<Rightarrow> bool" where
  "reachable E rm \<longleftrightarrow> (\<exists>now ttl. clock_ms (now div 1000000) \<and> (rm_step E)\<^sup>*\<^sup>* (server_start now ttl) rm)"

lemma reachable_inv: "reachable E rm \<Longrightarrow> rm_inv rm"
  unfolding reachable_def by (blast intro: rms.run_keeps server_start_inv)

lemma reachable_run: "reachable E rm \<Longrightarrow> (rm_step E)\<^sup>*\<^sup>* rm rm' \<Longrightarrow> reachable E rm'"
  unfolding reachable_def by (meson rtranclp_trans)

section \<open>Sections as runs\<close>

text \<open>\<open>sections E rid rm rm'\<close>: while run \<open>rid\<close> exists and the clock is sane, the steps lead from \<open>rm\<close> to \<open>rm'\<close>.\<close>

definition live :: "string \<Rightarrow> run_manager \<Rightarrow> bool" where
  "live rid rm \<longleftrightarrow> get_run rm rid \<noteq> None \<and> clock_ms (now_ms rm)"

definition sections :: "environment \<Rightarrow> string \<Rightarrow> run_manager \<Rightarrow> run_manager \<Rightarrow> bool" where
  "sections E rid rm rm' \<longleftrightarrow> (live rid rm \<longrightarrow> (rm_step E)\<^sup>*\<^sup>* rm rm')"

lemma appendEvent_now [simp]: "now_ms (appendEventWithLog rid e rm) = now_ms rm"
  by (simp add: now_ms_def frames)

lemma section_clocks:
  "rm_now (snd (start_commit rid exe actor rm)) = rm_now rm" "rm_now (transitionToFailedFromCreated rid exe actor why rm) = rm_now rm"
  "rm_now (install_progression rid sid cfg actor rm) = rm_now rm" "rm_now (snd (baseline_enter rid actor rm)) = rm_now rm"
  "rm_now (snd (stage_enter from to op rid rm)) = rm_now rm" "rm_now (set_active_stage rid name sid rm) = rm_now rm"
  "rm_now (install_evaluator rid stage rm) = rm_now rm" "rm_now (snd (install_ramp rid rm)) = rm_now rm"
  "rm_now (addStageTimer rid timer rm) = rm_now rm" "rm_now (removeStageTimer rid timer rm) = rm_now rm"
  "rm_now (completeAnalysis rid rm) = rm_now rm" "rm_now (failAnalysis rid why details rm) = rm_now rm"
  "rm_now (insert_new E config actor rm) = rm_now rm" "rm_now (snd (new_timer rm)) = rm_now rm"
  "rm_now (transitionToCompleted rid actor why rm) = rm_now rm" "rm_now (snd (analyzing_enter rid actor rm)) = rm_now rm"
  by (auto simp: start_commit_def transitionToFailedFromCreated_def install_progression_def baseline_enter_def
      stage_enter_def set_active_stage_def install_evaluator_def install_ramp_def addStageTimer_def removeStageTimer_def
      completeAnalysis_def failAnalysis_def insert_new_def insert_run_def new_record_def new_timer_def
      transitionToCompleted_def analyzing_enter_def
      generateRunID_def generateExecutionID_def new_ctx_def analysis_outcome_def frames Let_def
      split: option.splits if_splits)

lemma stop_clocks:
  "rm_now (snd (requestStopWithReason rid mode actor why ev rm)) = rm_now rm" "rm_now (snd (EmergencyStop rid actor rm)) = rm_now rm"
  "rm_now (handleFailFastLocked rid wid rm) = rm_now rm"
  by (auto simp: requestStopWithReason_def EmergencyStop_def handleFailFastLocked_def frames Let_def split: option.splits)

lemma setter_clocks: "rm_now (Shutdown rm) = rm_now rm" "rm_now (SetScheduler a b c rm) = rm_now rm"
  "rm_now (SetAssignmentSender a rm) = rm_now rm" "rm_now (SetArtifactStore a rm) = rm_now rm"
  "rm_now (SetTelemetryStore a rm) = rm_now rm" "rm_now (AddAssignment w wa rm) = rm_now rm" "rm_now (stopTimer t rm) = rm_now rm"
  "rm_now (SetRunMetadata rid sid why rm) = rm_now rm"
  by (simp_all add: Shutdown_def SetScheduler_def SetAssignmentSender_def SetArtifactStore_def SetTelemetryStore_def
      AddAssignment_def SetRunMetadata_def) (cases t; simp add: frames)

lemmas clocks = section_clocks stop_clocks setter_clocks

lemma step_clock: "rm_step E rm rm' \<Longrightarrow> clock_ms (now_ms rm) \<Longrightarrow> clock_ms (now_ms rm')"
  by (induction rule: rm_step.induct) (auto simp: now_ms_def clocks frames dest: finalize_begin_Some)

lemma run_live: "(rm_step E)\<^sup>*\<^sup>* rm rm' \<Longrightarrow> live rid rm \<Longrightarrow> live rid rm'"
proof (induction rule: rtranclp_induct)
  case (step y z)
  then have "live rid y" by simp
  with step.hyps(2) rm_step_evolves [OF step.hyps(2)] show ?case
    unfolding live_def evolves_def by (metis option.exhaust option.distinct(1) step_clock)
qed simp

lemma sections_refl [simp]: "sections E rid rm rm"
  by (simp add: sections_def)

lemma sections_trans: "sections E rid a b \<Longrightarrow> sections E rid b c \<Longrightarrow> sections E rid a c"
  unfolding sections_def by (blast intro: rtranclp_trans run_live)

lemma sections_step: "rm_step E rm rm' \<Longrightarrow> sections E rid rm rm'"
  by (auto simp: sections_def)

lemma sections_case: "(live rid rm \<Longrightarrow> sections E rid rm rm') \<Longrightarrow> sections E rid rm rm'"
  by (simp add: sections_def)

lemma sections_log: "typ \<noteq> EventTypeStateTransition \<Longrightarrow>
    sections E rid rm (appendEventWithLog rid (mk_event rid exe typ actor corr pl ev) rm)"
  unfolding sections_def live_def by (auto intro!: r_into_rtranclp rm_step.log simp: mk_event_def transition_legal_def)

lemma sections_move: "moves s t \<Longrightarrow> sections E rid rm (appendEventWithLog rid (transition_event rid exe actor s t why ev) rm)"
  using legal_transition [of s t rid exe actor why ev] unfolding sections_def live_def
  by (auto intro!: r_into_rtranclp rm_step.log)

lemmas sections_via = sections_trans [rotated]

section \<open>Dispatch\<close>

lemma sections_emit:
  "sections E rid rm (emitAllocationFailedEvent rid exe why details rm)"
  "sections E rid rm (emitWorkerAssignedEvent rid exe w lid a b sid name rm)"
  "sections E rid rm (emitRampStepEvent rid exe step n t why rm)"
  "sections E rid rm (emitReportGeneratedEvent rid exe i j rm)"
  "sections E rid rm (emitReallocationFailedDecision rid exe w why rm)"
  by (simp_all add: emitAllocationFailedEvent_def emitWorkerAssignedEvent_def emitRampStepEvent_def
      emitReportGeneratedEvent_def emitReallocationFailedDecision_def sections_log)

lemma sections_lease: "lease_step (rm_leases rm) lm \<or> lm = rm_leases rm \<Longrightarrow> sections E rid rm (rm\<lparr>rm_leases := lm\<rparr>)"
  by (auto intro: sections_step rm_step.lease)

lemma issue_step: "clock_ms ts \<Longrightarrow> lease_step lm (snd (IssueLease ts now w a lm)) \<or> snd (IssueLease ts now w a lm) = lm"
  by (auto simp: IssueLease_def intro: lease_step.issue)

lemma issue_matches:
  assumes "IssueLease ts now w a lm = (Inr lid, lm')" and "clock_ms ts"
  shows "lease_matches lm' (w, worker_assignment rid exe name lid a d cfg)"
proof -
  from assms(1) have "lid = stamp_id ''lse_'' ts (lm_counter lm + 1)" "lm_counter lm' = lm_counter lm + 1"
    and "map_get (leases lm') lid = Some \<lparr>l_LeaseID = lid, l_WorkerID = w, l_Assignment = a,
       l_State = LeaseStateActive, l_IssuedAt = now, l_ExpiresAt = now + lm_ttlMs lm, l_RevokedAt = None\<rparr>"
    by (auto simp: IssueLease_def IssueLease_locked_def generateLeaseID_def Let_def split: if_splits)
  with assms(2) show ?thesis by (auto simp: lease_matches_def worker_assignment_def)
qed

lemma sections_issue:
  assumes "\<And>e rm. sections E rid rm (refused w e rm)"
  shows "sections E rid rm (issue_and_send rid exe name sid d cfg refused w a rm)"
proof (rule sections_case)
  assume "live rid rm"
  then have clk: "clock_ms (now_ms rm)" by (simp add: live_def)
  obtain x lm where x: "IssueLease (now_ms rm) (int (now_ms rm)) w a (rm_leases rm) = (x, lm)" by fastforce
  then have "sections E rid rm (rm\<lparr>rm_leases := lm\<rparr>)"
    using issue_step [OF clk, of "rm_leases rm" "int (now_ms rm)" w a] by (intro sections_lease) auto
  moreover have "sections E rid (rm\<lparr>rm_leases := lm\<rparr>)
      (AddAssignment w (worker_assignment rid exe name lid a d cfg) (rm\<lparr>rm_leases := lm\<rparr>))" if "x = Inr lid" for lid
    using x clk that by (intro sections_step rm_step.send) (auto intro: issue_matches)
  ultimately show "sections E rid rm (issue_and_send rid exe name sid d cfg refused w a rm)"
    using x by (auto simp: issue_and_send_def Let_def split: sum.split intro: assms sections_emit elim!: sections_trans)
qed

lemma sections_fold: "(\<And>x rm. sections E rid rm (f x rm)) \<Longrightarrow> sections E rid rm (fold f xs rm)"
  by (induction xs arbitrary: rm) (auto intro: sections_trans)

lemma sections_dispatch: "(\<And>w e rm. sections E rid rm (refused w e rm)) \<Longrightarrow>
    sections E rid rm (dispatch_each rid exe name sid d cfg refused xs rm)"
  unfolding dispatch_each_def by (rule sections_fold) (auto intro: sections_issue)

lemma sections_target: "sections E rid rm (snd (stage_target rid exe config name rm))"
  by (auto simp: stage_target_def sections_emit split: option.split)

lemma sections_allocate: "sections E rid rm (snd (tryAllocateForStage E rid exe config name rm))"
proof -
  obtain x rm1 where x: "stage_target rid exe config name rm = (x, rm1)" by fastforce
  with sections_target [of E rid rm exe config name] have "sections E rid rm rm1" by simp
  then show ?thesis using x
    by (auto simp: tryAllocateForStage_def Let_def sections_emit split: option.split sum.split elim!: sections_trans)
qed

lemma sections_revoke: "sections E rid rm (rm\<lparr>rm_leases := snd (RevokeLeasesByRun now rid' (rm_leases rm))\<rparr>)"
  by (rule sections_lease) (auto simp: RevokeLeasesByRun_def intro: lease_step.revoke_run)

lemma sections_create_dispatch: "sections E rid rm (snd (createAndDispatchAssignmentsForStage E rid exe config name rm))"
proof -
  obtain x rm1 where x: "stage_target rid exe config name rm = (x, rm1)" by fastforce
  let ?rm2 = "rm1\<lparr>rm_leases := snd (RevokeLeasesByRun (int (now_ms rm1)) rid (rm_leases rm1))\<rparr>"
  from x sections_target [of E rid rm exe config name] have 1: "sections E rid rm rm1" by simp
  then have 2: "sections E rid rm ?rm2" by (rule sections_trans) (rule sections_revoke)
  show ?thesis using x 1
    by (auto simp: createAndDispatchAssignmentsForStage_def Let_def split: option.split sum.split
        intro!: sections_trans [OF 2] sections_emit sections_dispatch)
qed

lemma sections_ramp_dispatch: "sections E rid rm (dispatchRampAssignments E rid exe stage cfg n off rm)"
  by (auto simp: dispatchRampAssignments_def Let_def split: sum.split intro: sections_dispatch)

section \<open>Stages\<close>

lemma sections_timer: "sections E rid rm (snd (new_timer rm))" "sections E rid rm (stopTimer t rm)"
  "sections E rid rm (addStageTimer rid' timer rm)" "sections E rid rm (removeStageTimer rid' timer rm)"
  by (auto intro: sections_step rm_step.intros)

lemma sections_stop: "sections E rid rm (snd (requestStopWithReason rid' mode actor why ev rm))"
  by (auto intro: sections_step rm_step.intros)

lemma sections_metadata: "sections E rid rm (SetRunMetadata rid' sid why rm)"
  by (auto intro: sections_step rm_step.intros)

lemma sections_timeout: "sections E rid rm (handleStageTimeout rid stage actor rm)"
  by (auto simp: handleStageTimeout_def Let_def split: option.split intro!: sections_trans [OF sections_log sections_stop])

lemma sections_wait: "sections E rid rm (snd (waitForStageDurationWithTimeout chosen rid stage actor rm))"
proof -
  obtain t rm1 where t: "new_timer rm = (t, rm1)" by fastforce
  let ?rm2 = "addStageTimer rid t rm1"
  obtain u rm3 where u: "new_timer ?rm2 = (u, rm3)" by fastforce
  let ?rm4 = "addStageTimer rid u rm3"
  have 2: "sections E rid rm ?rm2"
    using sections_timer(1) [of E rid rm] t by (auto intro: sections_trans sections_timer)
  have 4: "sections E rid rm ?rm4"
    using sections_timer(1) [of E rid ?rm2] u by (auto intro: sections_trans [OF 2] sections_trans sections_timer)
  show ?thesis using t u
    by (auto simp: waitForStageDurationWithTimeout_def Let_def simp del: stopTimer.simps
        intro!: sections_trans [OF _ sections_timer(4)] sections_trans [OF _ sections_timer(2)]
          sections_trans [OF _ sections_timeout] 2 4)
qed

lemma sections_evaluator: "sections E rid rm (startStopConditionEvaluator rid' stage rm)"
  by (auto simp: startStopConditionEvaluator_def split: option.split intro: sections_step rm_step.evaluator)

lemma sections_trigger: "sections E rid rm (handleStopConditionTrigger E rid stage trigger rm)"
  by (auto simp: handleStopConditionTrigger_def Let_def split: option.split
      intro!: sections_trans [OF _ sections_stop] sections_trans [OF _ sections_metadata] sections_log)

lemma sections_ramp: "sections E rid rm (startAutoRamp E rid exe stage cfg rm)"
proof -
  have 1: "sections E rid rm (snd (install_ramp rid rm))" by (intro sections_step rm_step.ramp)
  have spawn: "sections E rid a (spawn (GoRamp c r x s g) b)" if "sections E rid a b" for a b c r x s g
    by (rule sections_trans [OF that]) (intro sections_step rm_step.go_started, simp)
  show ?thesis
    by (auto simp: startAutoRamp_def Let_def split: option.split prod.split
        intro!: spawn sections_trans [OF _ sections_ramp_dispatch] sections_trans [OF _ sections_emit(3)])
      (metis 1 snd_conv)
qed

lemma sections_ramp_loop: "sections E rid rm (ramp_loop E rid exe stage cfg p cases step n rm)"
proof (induction cases arbitrary: step n rm)
  case (Cons fired cases)
  obtain t rm1 where t: "new_timer rm = (t, rm1)" by fastforce
  let ?rm2 = "addStageTimer rid t rm1"
  let ?rm3 = "removeStageTimer rid t ?rm2"
  let ?rm4 = "dispatchRampAssignments E rid exe stage cfg (next_vus p step - n) n
    (emitRampStepEvent rid exe step (next_vus p step) (rp_target p) ''ramp_step'' ?rm3)"
  have 2: "sections E rid rm ?rm2"
    using sections_timer(1) [of E rid rm] t by (auto intro: sections_trans sections_timer)
  then have 3: "sections E rid rm ?rm3" by (rule sections_trans) (rule sections_timer)
  then have 4: "sections E rid rm ?rm4"
    by (rule sections_trans) (rule sections_trans [OF sections_emit(3) sections_ramp_dispatch])
  show ?case using t
    by (auto simp: Let_def simp del: stopTimer.simps split: option.split
        intro: 3 sections_trans [OF 2] sections_trans [OF sections_timer(2) sections_timer(4)]
          sections_trans [OF 3] sections_trans [OF 4] Cons.IH sections_emit)
qed simp

text \<open>The moves between stages.\<close>

lemma stage_moves: "moves RunStatePreflightPassed RunStateBaselineRunning" "moves RunStateBaselineRunning RunStateRampRunning"
  "moves RunStateRampRunning RunStateSoakRunning"
  by (simp_all add: moves_def CanTransition_def)

lemma sections_active: "sections E rid rm (set_active_stage rid' name sid rm)"
  by (intro sections_step rm_step.active)

lemma sections_baseline: "sections E rid rm (snd (TransitionToBaseline E rid actor rm))"
proof -
  obtain x rm1 where x: "baseline_enter rid actor rm = (x, rm1)" by fastforce
  have 1: "sections E rid rm rm1" using sections_step [OF rm_step.baseline [of E rm rid actor], of rid] x by simp
  show ?thesis using x 1
    by (auto simp: TransitionToBaseline_def Let_def split: sum.split option.split prod.split
        intro!: sections_trans [OF _ sections_evaluator] sections_trans [OF _ sections_create_dispatch]
          sections_trans [OF _ sections_move] stage_moves sections_trans [OF _ sections_active] 1)
qed

lemma sections_to_ramp: "sections E rid rm (snd (TransitionToRamp E rid actor rm))"
proof -
  obtain x rm1 where x: "stage_enter RunStateBaselineRunning RunStateRampRunning ''transition to ramp'' rid rm = (x, rm1)" by fastforce
  have 1: "sections E rid rm rm1" using sections_step [OF rm_step.ramp_enter [of E rm "''transition to ramp''" rid], of rid] x by simp
  show ?thesis using x 1
    by (auto simp: TransitionToRamp_def Let_def split: sum.split option.split prod.split
        intro!: sections_trans [OF _ sections_evaluator] sections_trans [OF _ sections_ramp]
          sections_trans [OF _ sections_move] stage_moves sections_trans [OF _ sections_active] 1)
qed

lemma sections_to_soak: "sections E rid rm (snd (TransitionToSoak E rid actor rm))"
proof -
  obtain x rm1 where x: "stage_enter RunStateRampRunning RunStateSoakRunning ''transition to soak'' rid rm = (x, rm1)" by fastforce
  have 1: "sections E rid rm rm1" using sections_step [OF rm_step.soak_enter [of E rm "''transition to soak''" rid], of rid] x by simp
  show ?thesis using x 1
    by (auto simp: TransitionToSoak_def Let_def split: sum.split option.split prod.split
        intro!: sections_trans [OF _ sections_evaluator] sections_trans [OF _ sections_create_dispatch]
          sections_trans [OF _ sections_move] stage_moves sections_trans [OF _ sections_active] 1)
qed

lemma sections_progress: "sections E rid rm (startStageProgression rid' config actor rm)"
  by (auto simp: startStageProgression_def split: option.split intro: sections_step rm_step.progress)

lemma sections_leave: "(\<And>rm. sections E rid rm (snd (f rm))) \<Longrightarrow>
    sections E rid rm (snd (leave_stage chosen f why rid stage actor rm))"
  unfolding leave_stage_def
  by (auto split: prod.split bool.split option.split intro!: sections_trans [OF _ sections_stop])
    (metis sections_trans sections_wait snd_conv)+

lemmas sections_stage = sections_leave [OF sections_baseline] sections_leave [OF sections_to_ramp] sections_wait sections_to_soak

lemma sections_pair: "f rm = (x, rm') \<Longrightarrow> sections E rid a rm \<Longrightarrow> (\<And>rm. sections E rid rm (snd (f rm))) \<Longrightarrow> sections E rid a rm'"
  by (metis sections_trans snd_conv)

lemma sections_progression: "sections E rid rm (progression E w1 w2 w3 w4 rid cfg actor rm)"
  by (auto simp: progression_def RequestStop_def split: prod.split bool.split option.split
      intro!: sections_trans [OF _ sections_stop] elim!: sections_pair intro: sections_stage)

lemma sections_start: "sections E rid rm (snd (StartRun E rid actor rm))"
proof -
  have fail: "sections E rid rm (transitionToFailedFromCreated rid exe actor why rm)" for exe why rm
    by (intro sections_step rm_step.start_failed)
  have commit: "sections E rid rm (snd (start_commit rid exe actor rm))" for exe rm
    by (intro sections_step rm_step.start)
  show ?thesis
    by (auto simp: StartRun_def Let_def split: sum.split prod.split option.split
        intro!: sections_trans [OF _ fail] sections_trans [OF _ sections_progress] sections_trans [OF _ sections_create_dispatch]
        elim!: sections_pair intro: commit sections_allocate)
qed

section \<open>Loss of a worker\<close>

lemma sections_fail_fast: "get_run rm rid = Some r \<Longrightarrow> isRunningState (rr_State r) \<Longrightarrow>
    sections E rid rm (handleFailFastLocked rid wid rm)"
  by (intro sections_step rm_step.fail_fast)

lemma sections_replace: "get_run rm rid = Some r \<Longrightarrow> isRunningState (rr_State r) \<Longrightarrow>
    sections E rid rm (handleReplaceIfPossibleLocked E rid wid rm)"
  unfolding handleReplaceIfPossibleLocked_def Let_def
  by (auto split: sum.split simp: emitReallocationFailedDecision_def frames
      intro!: sections_trans [OF sections_log sections_fail_fast]
        sections_trans [OF _ sections_log] sections_dispatch)

lemma sections_best_effort: "sections E rid rm (handleBestEffortLocked rid wid rm)"
  by (auto simp: handleBestEffortLocked_def Let_def split: option.split intro!: sections_trans [OF sections_log sections_log])

lemma sections_lost: "sections E rid rm (snd (HandleWorkerCapacityLost E rid wid rm))"
  unfolding HandleWorkerCapacityLost_def Let_def
  by (auto split: option.split intro: sections_fail_fast sections_replace sections_best_effort sections_step rm_step.drain_lost)

lemma run_of_sections: "clock_ms (now_ms rm) \<Longrightarrow> sections E rid rm rm' \<Longrightarrow> (get_run rm rid = None \<Longrightarrow> rm' = rm) \<Longrightarrow>
    (rm_step E)\<^sup>*\<^sup>* rm rm'"
  unfolding sections_def live_def by (cases "get_run rm rid") auto

lemma run_clock: "(rm_step E)\<^sup>*\<^sup>* rm rm' \<Longrightarrow> clock_ms (now_ms rm) \<Longrightarrow> clock_ms (now_ms rm')"
  by (induction rule: rtranclp_induct) (auto dest: step_clock)

lemma run_lost: "clock_ms (now_ms rm) \<Longrightarrow> (rm_step E)\<^sup>*\<^sup>* rm (snd (HandleWorkerCapacityLost E rid wid rm))"
  by (rule run_of_sections [OF _ sections_lost]) (auto simp: HandleWorkerCapacityLost_def)

lemma run_on_worker_lost: "clock_ms (now_ms rm) \<Longrightarrow> (rm_step E)\<^sup>*\<^sup>* rm (on_worker_lost E wid rids rm)"
  unfolding on_worker_lost_def
proof (induction rids arbitrary: rm)
  case (Cons rid rids)
  from Cons.prems have "(rm_step E)\<^sup>*\<^sup>* rm (snd (HandleWorkerCapacityLost E rid wid rm))" by (rule run_lost)
  with Cons.IH [OF run_clock [OF this Cons.prems]] show ?case by simp
qed simp

text \<open>The state of the run manager that shares the registry and the leases with the monitor.\<close>

definition shared :: "run_manager world \<Rightarrow> run_manager" where
  "shared w = (w_rest w)\<lparr>rm_registry := w_registry w, rm_leases := w_leases w\<rparr>"

lemma shared_leases: "lease_step (w_leases w) lm \<or> lm = w_leases w \<Longrightarrow> (rm_step E)\<^sup>*\<^sup>* (shared w) (shared (w\<lparr>w_leases := lm\<rparr>))"
  using rm_step.lease [of "shared w" lm E] by (auto simp: shared_def)

lemma shared_registry: "registry_step (w_registry w) r \<Longrightarrow> (rm_step E)\<^sup>*\<^sup>* (shared w) (shared (w\<lparr>w_registry := r\<rparr>))"
proof -
  assume "registry_step (w_registry w) r"
  then have "rm_step E (shared w) ((shared w)\<lparr>rm_registry := r\<rparr>)" by (intro rm_step.registry) (simp add: shared_def)
  moreover have "shared (w\<lparr>w_registry := r\<rparr>) = (shared w)\<lparr>rm_registry := r\<rparr>"
    by (cases "w_rest w") (simp add: shared_def)
  ultimately show ?thesis by (simp only: r_into_rtranclp)
qed

lemma shared_callback: "clock_ms (now_ms (shared w)) \<Longrightarrow> (rm_step E)\<^sup>*\<^sup>* (shared w) (shared (lost_cb_of E wid rids w))"
  using run_on_worker_lost [of "shared w" E wid rids] by (simp add: lost_cb_of_def shared_def Let_def)

lemma run_dead_worker:
  assumes "clock_ms (now_ms (shared w))"
  shows "(rm_step E)\<^sup>*\<^sup>* (shared w) (shared (handleDeadWorker now (Some (lost_cb_of E)) wid w))"
proof -
  let ?w1 = "w\<lparr>w_leases := snd (RevokeWorkerLeases now wid (w_leases w))\<rparr>"
  let ?w2 = "?w1\<lparr>w_registry := snd (RemoveWorker wid (w_registry w))\<rparr>"
  have 1: "(rm_step E)\<^sup>*\<^sup>* (shared w) (shared ?w1)"
    by (rule shared_leases) (auto simp: RevokeWorkerLeases_def intro: lease_step.revoke_worker)
  moreover have "(rm_step E)\<^sup>*\<^sup>* (shared ?w1) (shared ?w2)"
    by (rule shared_registry) (use registry_step.remove [of "w_registry w" wid] in simp)
  ultimately have 2: "(rm_step E)\<^sup>*\<^sup>* (shared w) (shared ?w2)" by (rule rtranclp_trans)
  have "(rm_step E)\<^sup>*\<^sup>* (shared ?w2) (shared (lost_cb_of E wid (ListWorkerRunIDs wid (w_leases w)) ?w2))"
    by (rule shared_callback) (use run_clock [OF 2 assms] in simp)
  with 2 have "(rm_step E)\<^sup>*\<^sup>* (shared w) (shared (lost_cb_of E wid (ListWorkerRunIDs wid (w_leases w)) ?w2))" by (rule rtranclp_trans)
  with 1 show ?thesis
    by (cases "RemoveWorker wid (w_registry w)") (auto simp: handleDeadWorker_def Let_def split: option.split)
qed

lemma run_dead_workers: "clock_ms (now_ms (shared w)) \<Longrightarrow>
    (rm_step E)\<^sup>*\<^sup>* (shared w) (shared (handle_dead_workers clk (Some (lost_cb_of E)) wids w))"
proof (induction wids arbitrary: clk w)
  case (Cons wid wids)
  have 1: "(rm_step E)\<^sup>*\<^sup>* (shared w) (shared (handleDeadWorker (clk 0) (Some (lost_cb_of E)) wid w))"
    by (rule run_dead_worker) (rule Cons.prems)
  with Cons.IH [OF run_clock [OF 1 Cons.prems], of "\<lambda>i. clk (Suc i)"] show ?case by simp
qed simp

lemma run_monitor: "clock_ms (now_ms rm) \<Longrightarrow> (rm_step E)\<^sup>*\<^sup>* rm (monitor_pass E timeoutMs rm)"
proof -
  assume clk: "clock_ms (now_ms rm)"
  let ?w = "\<lparr>w_registry = rm_registry rm, w_leases = rm_leases rm, w_rest = rm\<rparr> :: run_manager world"
  have rm: "shared ?w = rm" by (simp add: shared_def)
  have "(rm_step E)\<^sup>*\<^sup>* (shared ?w) (shared (handle_dead_workers c (Some (lost_cb_of E)) wids ?w))" for c wids
    using clk by (intro run_dead_workers) (simp add: rm)
  then have "(rm_step E)\<^sup>*\<^sup>* (shared ?w) (shared ((handle_dead_workers c (Some (lost_cb_of E)) wids ?w)
      \<lparr>w_leases := snd (ExpireLeases t (w_leases (handle_dead_workers c (Some (lost_cb_of E)) wids ?w)))\<rparr>))" for c wids t
    by (rule rtranclp_trans) (auto intro!: shared_leases lease_step.expire)
  then show ?thesis
    by (auto simp: monitor_pass_def checkWorkers_def DetectLostWorkers_def Let_def shared_def)
qed

section \<open>Creation and analysis\<close>

lemma insert_new_get: "get_run (insert_new E config actor rm) (fst (generateRunID rm)) \<noteq> None"
  by (simp add: insert_new_def insert_run_def new_record_def generateRunID_def generateExecutionID_def Let_def)

lemma run_create:
  assumes clk: "clock_ms (now_ms rm)" and new: "get_run rm (fst (generateRunID rm)) = None"
  shows "(rm_step E)\<^sup>*\<^sup>* rm (snd (CreateRun E config actor rm))"
proof (cases "ValidateRunConfig E config")
  case True
  let ?rid = "fst (generateRunID rm)"
  let ?rm1 = "insert_new E config actor rm"
  have step: "rm_step E rm ?rm1" using new by (rule rm_step.create)
  have "live ?rid ?rm1" using insert_new_get step_clock [OF step clk] by (simp add: live_def)
  then have "(rm_step E)\<^sup>*\<^sup>* ?rm1 (appendEventWithLog ?rid (mk_event ?rid exe EventTypeRunCreated actor no_correlation kvs []) ?rm1)" for exe kvs
    using sections_log [of EventTypeRunCreated E ?rid ?rm1 exe actor no_correlation kvs "[]"] by (simp add: sections_def)
  with step True show ?thesis
    by (auto simp: CreateRun_def insert_new_def Let_def case_prod_unfold intro: converse_rtranclp_into_rtranclp)
qed (simp add: CreateRun_def)

lemma run_clone: "clock_ms (now_ms rm) \<Longrightarrow> get_run rm (fst (generateRunID rm)) = None \<Longrightarrow>
    (rm_step E)\<^sup>*\<^sup>* rm (snd (CloneRun E source actor rm))"
  by (auto simp: CloneRun_def run_create split: sum.split)

lemma sections_analysis: "sections E rid rm (completeAnalysis rid' rm)" "sections E rid rm (failAnalysis rid' why details rm)"
  by (auto intro: sections_step rm_step.analyzed rm_step.analysis_failed)

lemma sections_analyze: "sections E rid rm (snd (analyzeRunWithContext A rid rm))"
  by (auto simp: analyzeRunWithContext_def split: option.split sum.split intro: sections_analysis
      intro!: sections_trans [OF sections_emit(4) sections_analysis(1)])

lemma sections_analyze_timeout: "sections E rid rm (snd (analyzeRunWithTimeout chosen A rid timeout rm))"
proof -
  have "sections E rid rm (spawn (GoAnalyze rid) rm)" by (intro sections_step rm_step.go_started) simp
  then show ?thesis
    by (auto simp: analyzeRunWithTimeout_def sections_analyze split: analysis_case.split
        intro: sections_trans [OF _ sections_analysis(2)])
qed

lemma run_stops: "(rm_step E)\<^sup>*\<^sup>* rm (snd (RequestStop rid mode actor rm))" "(rm_step E)\<^sup>*\<^sup>* rm (snd (EmergencyStop rid actor rm))"
  by (auto simp: RequestStop_def intro: rm_step.request_stop rm_step.emergency)

lemma run_start: "clock_ms (now_ms rm) \<Longrightarrow> (rm_step E)\<^sup>*\<^sup>* rm (snd (StartRun E rid actor rm))"
  by (rule run_of_sections [OF _ sections_start]) (auto simp: StartRun_def start_check_def)

section \<open>Run ids\<close>

lemma clock_nanos: "clock_ms (now_ms rm) \<Longrightarrow> rm_now rm < 16 ^ 16"
  by (simp add: clock_ms_def now_ms_def div_less_iff_less_mult)

lemma run_id_eq:
  assumes "clock_ms (now_ms rm)" and "clock_ms (now_ms rm')"
  shows "fst (generateRunID rm) = fst (generateRunID rm') \<longleftrightarrow>
    rm_now rm = rm_now rm' \<and> (rm_runIDCounter rm + 1) mod 65536 = (rm_runIDCounter rm' + 1) mod 65536"
proof -
  have "length (hex_pad 16 (rm_now rm)) = length (hex_pad 16 (rm_now rm'))"
    using clock_nanos [OF assms(1)] clock_nanos [OF assms(2)] hex_pad_length [of _ 15] by simp
  then show ?thesis by (auto simp: generateRunID_def Let_def dest: hex_pad_inj)
qed

section \<open>A small server\<close>

text \<open>Without a scheduler, and a validator that accepts everything: one run is created, started, and stopped.\<close>

definition plain_env :: environment where
  "plain_env = \<lparr>env_validator = Some (\<lambda>_. True), env_sha256 = id, env_range = id, env_sort = insertion_sort wc_maxVUs,
     env_fmtV = (\<lambda>_. []), env_fmtFixed = (\<lambda>_ _. [])\<rparr>"

definition small_start :: run_manager where
  "small_start = server_start 1700000000000000000 60000"

definition small_id :: string where
  "small_id = fst (generateRunID small_start)"

definition small_created :: run_manager where
  "small_created = snd (CreateRun plain_env sample_config ''user'' small_start)"

definition small_started :: run_manager where
  "small_started = snd (StartRun plain_env small_id ''user'' small_created)"

definition small_stopping :: run_manager where
  "small_stopping = snd (RequestStop small_id StopModeDrain ''user'' small_started)"

definition small_assignment :: Assignment where
  "small_assignment = \<lparr>as_RunID = small_id, as_StageID = ''stg'', as_VUIDRange = \<lparr>Start = 0, End = 5\<rparr>\<rparr>"

definition small_sent :: run_manager where
  "small_sent = issue_and_send small_id ''exe'' StageNamePreflight ''stg'' 1000 sample_parsed (\<lambda>_ _ rm. rm) ''w1'' small_assignment small_created"

lemma small_clock: "clock_ms (1700000000000000000 div 1000000)" "clock_ms (now_ms small_start)"
  by (simp_all add: clock_ms_def small_start_def server_start_def NewRunManager_def now_ms_def)

lemma small_start_reachable: "reachable E small_start"
  unfolding reachable_def small_start_def using small_clock(1) by blast

lemma small_created_reachable: "reachable plain_env small_created"
  unfolding small_created_def
  by (rule reachable_run [OF small_start_reachable run_create [OF small_clock(2)]])
    (simp add: small_start_def server_start_def NewRunManager_def)

lemma reachable_clock: "reachable E rm \<Longrightarrow> clock_ms (now_ms rm)"
  by (drule reachable_inv) (simp add: rm_inv_def base_inv_def logs_inv_def)

lemma small_started_reachable: "reachable plain_env small_started"
  unfolding small_started_def
  by (rule reachable_run [OF small_created_reachable run_start [OF reachable_clock [OF small_created_reachable]]])

lemma small_stopping_reachable: "reachable plain_env small_stopping"
  unfolding small_stopping_def by (rule reachable_run [OF small_started_reachable run_stops(1)])

lemma small_created_run: "\<exists>r. get_run small_created small_id = Some r \<and> rr_State r = RunStateCreated \<and> rr_Config r = sample_config"
  by (simp add: small_created_def CreateRun_def ValidateRunConfig_def plain_env_def Let_def case_prod_unfold frames
      insert_run_def new_record_def small_id_def)

lemma append_parts [frames]: "rm_hasRegistry (appendEventWithLog rid e rm) = rm_hasRegistry rm"
  "rm_hasAllocator (appendEventWithLog rid e rm) = rm_hasAllocator rm" "rm_hasLeaseManager (appendEventWithLog rid e rm) = rm_hasLeaseManager rm"
  "rm_hasSender (appendEventWithLog rid e rm) = rm_hasSender rm" "rm_hasArtifacts (appendEventWithLog rid e rm) = rm_hasArtifacts rm"
  "rm_runIDCounter (appendEventWithLog rid e rm) = rm_runIDCounter rm"
  by (simp_all add: appendEventWithLog_def case_prod_unfold Let_def split: option.split)

lemma create_eq: "ValidateRunConfig E config \<Longrightarrow>
    \<exists>e exe now. snd (CreateRun E config actor rm) = appendEventWithLog (fst (generateRunID rm)) e
      (insert_run (new_record E (fst (generateRunID rm)) exe config actor now) (snd (generateExecutionID (snd (generateRunID rm)))))"
  by (simp add: CreateRun_def Let_def case_prod_unfold) blast

lemma small_created_eq: "\<exists>e r. rr_RunID r = small_id \<and>
    small_created = appendEventWithLog small_id e (insert_run r (snd (generateExecutionID (snd (generateRunID small_start)))))"
proof -
  have "ValidateRunConfig plain_env sample_config" by (simp add: ValidateRunConfig_def plain_env_def)
  from create_eq [OF this, of "''user''" small_start] show ?thesis
    unfolding small_created_def [symmetric] small_id_def [symmetric] by (force simp: new_record_def)
qed

lemma small_created_parts: "\<not> rm_hasRegistry small_created" "\<not> rm_hasAllocator small_created" "\<not> rm_hasLeaseManager small_created"
  "\<not> rm_hasSender small_created" "\<not> rm_hasTelemetry small_created" "\<not> rm_hasArtifacts small_created"
  "rm_registry small_created = NewRegistry" "rm_leases small_created = NewLeaseManager 60000" "rm_sent small_created = []"
  "rm_runIDCounter small_created = 1" "\<exists>r. rm_runs small_created = [(small_id, r)]"
proof -
  obtain e r where eq: "rr_RunID r = small_id"
    "small_created = appendEventWithLog small_id e (insert_run r (snd (generateExecutionID (snd (generateRunID small_start)))))"
    using small_created_eq by blast
  note defs = insert_run_def generateRunID_def generateExecutionID_def Let_def small_start_def server_start_def NewRunManager_def
  show "\<not> rm_hasRegistry small_created" "\<not> rm_hasAllocator small_created" "\<not> rm_hasLeaseManager small_created"
    "\<not> rm_hasSender small_created" "\<not> rm_hasTelemetry small_created" "\<not> rm_hasArtifacts small_created"
    "rm_registry small_created = NewRegistry" "rm_leases small_created = NewLeaseManager 60000" "rm_sent small_created = []"
    "rm_runIDCounter small_created = 1" "\<exists>r. rm_runs small_created = [(small_id, r)]"
    by (simp_all add: eq frames defs)
qed

definition state_of :: "run_manager \<Rightarrow> string \<Rightarrow> RunState option" where
  "state_of rm rid = map_option rr_State (get_run rm rid)"

lemma state_of_Some: "state_of rm rid = Some s \<longleftrightarrow> (\<exists>r. get_run rm rid = Some r \<and> rr_State r = s)"
  by (auto simp: state_of_def)

lemma progress_state: "state_of (startStageProgression rid config actor rm) k = state_of rm k"
  by (auto simp: state_of_def startStageProgression_def install_progression_def new_ctx_def Let_def frames split: option.split)

lemma commit_state: "get_run rm rid = Some r \<Longrightarrow> rr_State r = RunStateCreated \<Longrightarrow>
    fst (start_commit rid exe actor rm) = None \<and>
    state_of (snd (start_commit rid exe actor rm)) rid = Some RunStatePreflightRunning"
  by (simp add: state_of_def start_commit_def Let_def frames)

lemma start_unscheduled:
  assumes "get_run rm rid = Some r" and "rr_State r = RunStateCreated"
    and "\<not> rm_hasRegistry rm" "\<not> rm_hasAllocator rm" "\<not> rm_hasLeaseManager rm" "\<not> rm_hasSender rm"
  shows "fst (StartRun E rid actor rm) = None \<and>
    state_of (snd (StartRun E rid actor rm)) rid = Some RunStatePreflightRunning"
proof -
  have "CanTransition RunStateCreated RunStatePreflightRunning" by (simp add: CanTransition_def)
  with assms commit_state [OF assms(1,2), of "rr_ExecutionID r" actor] show ?thesis
    by (auto simp: StartRun_def start_check_def scheduler_ready_def Let_def progress_state split: prod.split option.split)
qed

lemma small_started_run: "\<exists>r. get_run small_started small_id = Some r \<and> rr_State r = RunStatePreflightRunning"
proof -
  obtain r where "get_run small_created small_id = Some r" "rr_State r = RunStateCreated" using small_created_run by blast
  from start_unscheduled [OF this small_created_parts(1-4), of plain_env "''user''"] show ?thesis
    by (simp add: small_started_def state_of_Some)
qed

lemma small_stopping_run: "\<exists>r. get_run small_stopping small_id = Some r \<and> rr_State r = RunStateStopping"
  using small_started_run
  by (auto simp: small_stopping_def RequestStop_def request_stop_get CanTransition_def)

section \<open>The way out of stopping\<close>

lemma swap_in_go [simp]: "x \<in> set (rm_go (go_swap g (x # gs) rm))"
  by (simp add: frames)

lemma swap_state [simp]: "state_of (go_swap g gs rm) rid = state_of rm rid"
  by (simp add: state_of_def frames)

lemma to_check:
  assumes "GoFinalize rid actor pc \<in> set (rm_go rm)" and "pc \<noteq> FinComplete" "pc \<noteq> FinAnalyze" and "get_run rm rid \<noteq> None"
  shows "\<exists>rm'. (rm_step E)\<^sup>*\<^sup>* rm rm' \<and> GoFinalize rid actor FinCheck \<in> set (rm_go rm') \<and> state_of rm' rid = state_of rm rid"
proof -
  let ?P = "\<lambda>rm rm'. (rm_step E)\<^sup>*\<^sup>* rm rm' \<and> GoFinalize rid actor FinCheck \<in> set (rm_go rm') \<and> state_of rm' rid = state_of rm rid"
  have wait: "?P rm (go_swap (GoFinalize rid actor (FinWait c)) [GoFinalize rid actor FinCheck] rm)"
    if "GoFinalize rid actor (FinWait c) \<in> set (rm_go rm)" for c rm
    using rm_step.fin_timer [OF that] by auto
  show ?thesis
  proof (cases pc)
    case (FinStart t)
    show ?thesis
    proof (cases "t > 0")
      case True
      obtain c rm1 where b: "finalize_begin rid rm = Some (c, rm1)" using assms(4) finalize_begin_None by (metis not_None_eq surj_pair)
      let ?rm2 = "go_swap (GoFinalize rid actor (FinStart t)) [GoFinalize rid actor (FinWait c)] rm1"
      have "rm_step E rm ?rm2" using assms(1) FinStart True b by (intro rm_step.fin_wait) auto
      moreover have "state_of ?rm2 rid = state_of rm rid"
        using finalize_begin_Some [OF b] by (auto simp: state_of_def frames with_drain_def split: option.split)
      ultimately show ?thesis using wait [of c ?rm2] by (auto intro: converse_rtranclp_into_rtranclp)
    next
      case False
      with assms(1) FinStart have "rm_step E rm (go_swap (GoFinalize rid actor pc) [GoFinalize rid actor FinCheck] rm)"
        by (auto intro: rm_step.fin_now)
      then show ?thesis by (intro exI [of _ "go_swap (GoFinalize rid actor pc) [GoFinalize rid actor FinCheck] rm"]) auto
    qed
  next
    case (FinWait c)
    with assms(1) wait [of c rm] show ?thesis by blast
  next
    case FinSleep
    with assms(1) have "rm_step E rm (go_swap (GoFinalize rid actor FinSleep) [GoFinalize rid actor FinCheck] rm)"
      by (auto intro: rm_step.fin_awake)
    then show ?thesis by (intro exI [of _ "go_swap (GoFinalize rid actor FinSleep) [GoFinalize rid actor FinCheck] rm"]) auto
  qed (use assms in auto)
qed

lemma from_end:
  assumes "GoFinalize rid actor pc \<in> set (rm_go rm)" and "pc = FinComplete \<or> pc = FinAnalyze" and "state_of rm rid = Some RunStateStopping"
  shows "\<exists>rm' s. rm_step E rm rm' \<and> state_of rm' rid = Some s \<and> s \<in> {RunStateAnalyzing, RunStateCompleted}"
proof -
  have "state_of (transitionToCompleted rid actor why rm) rid = Some RunStateCompleted" for why
    using assms(3) by (auto simp: state_of_def transitionToCompleted_def Let_def frames)
  moreover have "state_of (snd (analyzing_enter rid actor rm)) rid = Some RunStateAnalyzing"
    using assms(3) by (auto simp: state_of_def analyzing_enter_def Let_def frames CanTransition_def)
  ultimately show ?thesis
    using assms(1,2) rm_step.fin_complete [of rid actor rm E] rm_step.fin_analyze [of rid actor rm E] swap_state by (metis insertI1 insertI2)
qed

lemma from_check:
  assumes "GoFinalize rid actor FinCheck \<in> set (rm_go rm)" and "state_of rm rid = Some RunStateStopping"
  shows "\<exists>rm' s. (rm_step E)\<^sup>*\<^sup>* rm rm' \<and> state_of rm' rid = Some s \<and> s \<in> {RunStateAnalyzing, RunStateCompleted}"
proof -
  obtain pc where pc: "finalize_check rid rm = Some pc" "pc = FinComplete \<or> pc = FinAnalyze"
    using assms(2) by (cases "\<not> rm_hasTelemetry rm \<or> \<not> rm_hasArtifacts rm") (auto simp: finalize_check_def state_of_def)
  let ?rm1 = "go_swap (GoFinalize rid actor FinCheck) [GoFinalize rid actor pc] rm"
  have "rm_step E rm ?rm1" using rm_step.fin_check [OF assms(1), of E] pc(1) by simp
  moreover from from_end [of rid actor pc ?rm1 E] pc(2) assms(2)
  obtain rm' s where "rm_step E ?rm1 rm'" "state_of rm' rid = Some s" "s \<in> {RunStateAnalyzing, RunStateCompleted}" by auto
  ultimately show ?thesis by (meson converse_rtranclp_into_rtranclp r_into_rtranclp)
qed

section \<open>Properties\<close>



text \<open>C12: no interleaving of the operations makes the run manager panic: it never closes a channel twice and never
  writes to the log of a run that has none.\<close>
theorem never_panics:
  assumes "reachable E rm"
  shows "\<not> rm_panic rm"
  using reachable_inv [OF assms] by (simp add: rm_inv_def base_inv_def chan_inv_def)

theorem never_panics_witness: "\<not> rm_panic small_stopping"
  by (rule never_panics [OF small_stopping_reachable])

text \<open>C13: a run never gets stuck in stopping: in every reachable state a stopping run has a finalizing goroutine, and
  the steps of the goroutines lead it on to the analysis or to completion.\<close>
theorem stopping_leads_on:
  assumes "reachable E rm" and "state_of rm rid = Some RunStateStopping"
  shows "(\<exists>actor pc. GoFinalize rid actor pc \<in> set (rm_go rm))
    \<and> (\<exists>rm' s. (rm_step E)\<^sup>*\<^sup>* rm rm' \<and> state_of rm' rid = Some s \<and> s \<in> {RunStateAnalyzing, RunStateCompleted})"
proof -
  from reachable_inv [OF assms(1)] assms(2) obtain actor pc where g: "GoFinalize rid actor pc \<in> set (rm_go rm)"
    unfolding rm_inv_def fin_inv_def state_of_Some by blast
  show ?thesis
  proof (cases "pc = FinComplete \<or> pc = FinAnalyze")
    case True
    from from_end [OF g this assms(2)] g show ?thesis by (meson r_into_rtranclp)
  next
    case False
    with to_check [OF g, of E] assms(2) obtain rm1
      where "(rm_step E)\<^sup>*\<^sup>* rm rm1" "GoFinalize rid actor FinCheck \<in> set (rm_go rm1)" "state_of rm1 rid = Some RunStateStopping"
      by (auto simp: state_of_def)
    with from_check [of rid actor rm1 E] g show ?thesis by (meson rtranclp_trans)
  qed
qed

theorem stopping_leads_on_witness:
  "state_of small_stopping small_id = Some RunStateStopping
   \<and> (\<exists>actor pc. GoFinalize small_id actor pc \<in> set (rm_go small_stopping))"
  using small_stopping_run stopping_leads_on [OF small_stopping_reachable, of small_id] by (simp add: state_of_Some)



text \<open>C15: in every reachable state two assignments that were handed to workers, name active leases, belong to the same
  run and stage and share a virtual user are the same lease, held by the same worker: no virtual user is ever driven by
  two workers with valid leases. An assignment whose lease still exists agrees with it on worker, run, stage and range.\<close>
theorem sent_assignments_exclusive:
  assumes "reachable E rm" and "(w, wa) \<in> set (rm_sent rm)" and "(w', wa') \<in> set (rm_sent rm)"
    and "map_get (leases (rm_leases rm)) (wa_LeaseID wa) = Some l" and "l_State l = LeaseStateActive"
    and "map_get (leases (rm_leases rm)) (wa_LeaseID wa') = Some l'" and "l_State l' = LeaseStateActive"
    and "wa_RunID wa = wa_RunID wa'" and "wa_StageID wa = wa_StageID wa'"
    and "wa_VUIDStart wa \<le> v" and "v < wa_VUIDEnd wa" and "wa_VUIDStart wa' \<le> v" and "v < wa_VUIDEnd wa'"
  shows "wa_LeaseID wa = wa_LeaseID wa' \<and> w = w' \<and> l_WorkerID l = w
    \<and> l_Assignment l = \<lparr>as_RunID = wa_RunID wa, as_StageID = wa_StageID wa, as_VUIDRange = \<lparr>Start = wa_VUIDStart wa, End = wa_VUIDEnd wa\<rparr>\<rparr>"
proof -
  from reachable_inv [OF assms(1)] have inv: "lease_inv (rm_leases rm)"
    and m: "\<And>x. x \<in> set (rm_sent rm) \<Longrightarrow> lease_matches (rm_leases rm) x" by (auto simp: rm_inv_def sched_inv_def)
  from m [OF assms(2)] assms(4) have l: "l_WorkerID l = w"
    "l_Assignment l = \<lparr>as_RunID = wa_RunID wa, as_StageID = wa_StageID wa, as_VUIDRange = \<lparr>Start = wa_VUIDStart wa, End = wa_VUIDEnd wa\<rparr>\<rparr>"
    by (auto simp: lease_matches_def)
  from m [OF assms(3)] assms(6) have l': "l_WorkerID l' = w'"
    "l_Assignment l' = \<lparr>as_RunID = wa_RunID wa', as_StageID = wa_StageID wa', as_VUIDRange = \<lparr>Start = wa_VUIDStart wa', End = wa_VUIDEnd wa'\<rparr>\<rparr>"
    by (auto simp: lease_matches_def)
  have "covers l (wa_RunID wa) (wa_StageID wa) v" "covers l' (wa_RunID wa) (wa_StageID wa) v"
    using assms l l' by (auto simp: covers_def)
  then have "clash l l'" by (auto simp: clash_covers)
  with inv assms(4,6) have "wa_LeaseID wa = wa_LeaseID wa'" unfolding lease_inv_def by blast
  with l l' assms(4,6) show ?thesis by auto
qed

lemma small_sent_reachable: "reachable plain_env small_sent"
proof -
  have "live small_id small_created"
    using small_created_run reachable_clock [OF small_created_reachable] by (auto simp: live_def)
  with sections_issue [of plain_env small_id "\<lambda>_ _ rm. rm" "''w1''" small_created] have "(rm_step plain_env)\<^sup>*\<^sup>* small_created small_sent"
    by (simp add: small_sent_def sections_def)
  with small_created_reachable show ?thesis by (rule reachable_run)
qed

theorem sent_assignments_exclusive_witness:
  "\<exists>wa l. (''w1'', wa) \<in> set (rm_sent small_sent) \<and> map_get (leases (rm_leases small_sent)) (wa_LeaseID wa) = Some l
     \<and> l_State l = LeaseStateActive \<and> wa_VUIDStart wa \<le> 3 \<and> 3 < wa_VUIDEnd wa \<and> l_WorkerID l = ''w1''"
proof -
  obtain wa l where wa: "(''w1'', wa) \<in> set (rm_sent small_sent)" "map_get (leases (rm_leases small_sent)) (wa_LeaseID wa) = Some l"
    "l_State l = LeaseStateActive" "wa_VUIDStart wa = 0" "wa_VUIDEnd wa = 5"
    by (simp add: small_sent_def issue_and_send_def small_created_parts IssueLease_def IssueLease_locked_def NewLeaseManager_def generateLeaseID_def
        Let_def emitWorkerAssignedEvent_def frames AddAssignment_def worker_assignment_def small_assignment_def)
  from sent_assignments_exclusive [OF small_sent_reachable wa(1,1) wa(2,3,2,3) refl refl, of 3] wa show ?thesis by auto
qed



end
