(* ===== verification/Run_Delivery.thy ===== *)
theory Run_Delivery
  imports Run_System
begin

text \<open>
  From an allocation to owned virtual users: the dispatch loops over the contract of the lease manager, the ramp, the
  replacement of a lost worker, and the heartbeat monitor with the callback of the server.
\<close>

section \<open>The dispatch loop as a sequence of issued leases\<close>

definition clock_of :: "run_manager \<Rightarrow> nat \<times> int" where
  "clock_of rm = (now_ms rm, int (now_ms rm))"

definition at_clock :: "nat \<times> int \<Rightarrow> (WorkerID \<times> Assignment) list \<Rightarrow> ((nat \<times> int) \<times> WorkerID \<times> Assignment) list" where
  "at_clock c xs = map (\<lambda>(w, a). (c, w, a)) xs"

text \<open>What a loop does when a lease is refused: log it, or nothing.\<close>

definition harmless :: "(WorkerID \<Rightarrow> lease_error \<Rightarrow> run_manager \<Rightarrow> run_manager) \<Rightarrow> bool" where
  "harmless refused \<longleftrightarrow> (\<forall>w e rm. rm_leases (refused w e rm) = rm_leases rm \<and> rm_now (refused w e rm) = rm_now rm
     \<and> rm_sent (refused w e rm) = rm_sent rm \<and> rm_registry (refused w e rm) = rm_registry rm)"

lemma harmless_log [simp]: "harmless (\<lambda>w e. emitAllocationFailedEvent rid exe why (f w e))" "harmless (\<lambda>_ _ rm. rm)"
  by (simp_all add: harmless_def emitAllocationFailedEvent_def frames)

lemma issue_and_send_leases: "harmless refused \<Longrightarrow>
    rm_leases (issue_and_send rid exe name sid d cfg refused w a rm) = snd (IssueLease_at (clock_of rm) w a (rm_leases rm))
    \<and> rm_now (issue_and_send rid exe name sid d cfg refused w a rm) = rm_now rm
    \<and> rm_registry (issue_and_send rid exe name sid d cfg refused w a rm) = rm_registry rm
    \<and> rm_sent (issue_and_send rid exe name sid d cfg refused w a rm) = rm_sent rm @
        (case fst (IssueLease_at (clock_of rm) w a (rm_leases rm)) of Inl _ \<Rightarrow> [] | Inr lid \<Rightarrow> [(w, worker_assignment rid exe name lid a d cfg)])"
  by (auto simp: issue_and_send_def IssueLease_at_def clock_of_def emitWorkerAssignedEvent_def AddAssignment_def frames
      harmless_def Let_def split: prod.split sum.split)

lemma dispatch_leases: "harmless refused \<Longrightarrow>
    rm_leases (dispatch_each rid exe name sid d cfg refused xs rm) = snd (issue_each IssueLease_at (at_clock (clock_of rm) xs) (rm_leases rm))
    \<and> rm_registry (dispatch_each rid exe name sid d cfg refused xs rm) = rm_registry rm"
proof (induction xs arbitrary: rm)
  case (Cons x xs)
  obtain w a where x: "x = (w, a)" by (cases x)
  note one = issue_and_send_leases [OF Cons.prems, of rid exe name sid d cfg w a rm]
  then have "clock_of (issue_and_send rid exe name sid d cfg refused w a rm) = clock_of rm" by (simp add: clock_of_def now_ms_def)
  with one Cons.IH [OF Cons.prems, of "issue_and_send rid exe name sid d cfg refused w a rm"] x show ?case
    by (simp add: dispatch_each_def at_clock_def case_prod_unfold Let_def)
qed (simp add: dispatch_each_def at_clock_def)

fun sent_for :: "(lease_error + LeaseID) list \<Rightarrow> (WorkerID \<times> Assignment) list \<Rightarrow> (LeaseID \<Rightarrow> Assignment \<Rightarrow> WorkerAssignment)
    \<Rightarrow> (WorkerID \<times> WorkerAssignment) list" where
  "sent_for (Inr lid # rs) ((w, a) # xs) f = (w, f lid a) # sent_for rs xs f"
| "sent_for (Inl e # rs) ((w, a) # xs) f = sent_for rs xs f"
| "sent_for _ _ f = []"

lemma dispatch_sent: "harmless refused \<Longrightarrow>
    rm_sent (dispatch_each rid exe name sid d cfg refused xs rm) = rm_sent rm @
      sent_for (fst (issue_each IssueLease_at (at_clock (clock_of rm) xs) (rm_leases rm))) xs
        (\<lambda>lid a. worker_assignment rid exe name lid a d cfg)"
proof (induction xs arbitrary: rm)
  case (Cons x xs)
  obtain w a where x: "x = (w, a)" by (cases x)
  note one = issue_and_send_leases [OF Cons.prems, of rid exe name sid d cfg w a rm]
  then have "clock_of (issue_and_send rid exe name sid d cfg refused w a rm) = clock_of rm" by (simp add: clock_of_def now_ms_def)
  with one Cons.IH [OF Cons.prems, of "issue_and_send rid exe name sid d cfg refused w a rm"] x show ?case
    by (cases "fst (IssueLease_at (clock_of rm) w a (rm_leases rm))")
      (simp_all add: dispatch_each_def at_clock_def case_prod_unfold Let_def)
qed (simp add: dispatch_each_def at_clock_def)

lemma issue_each_length: "length (fst (issue_each issue xs s)) = length xs"
  by (induction xs arbitrary: s) (auto simp: case_prod_unfold Let_def)

lemma sent_for_all: "length rs = length xs \<Longrightarrow> (\<forall>r \<in> set rs. \<exists>k. r = Inr k) \<Longrightarrow>
    (\<And>lid a. wa_VUIDStart (f lid a) = Start (as_VUIDRange a) \<and> wa_VUIDEnd (f lid a) = End (as_VUIDRange a)) \<Longrightarrow>
    map (\<lambda>(w, wa). (w, wa_VUIDStart wa, wa_VUIDEnd wa)) (sent_for rs xs f) =
    map (\<lambda>(w, a). (w, Start (as_VUIDRange a), End (as_VUIDRange a))) xs"
  by (induction rs xs f rule: sent_for.induct) auto

lemma own_add_all_iff: "own_add_all xs f rid sid v = Some w \<Longrightarrow> f rid sid v = Some w \<or>
    (\<exists>c a. (c, w, a) \<in> set xs \<and> as_RunID a = rid \<and> as_StageID a = sid \<and> Start (as_VUIDRange a) \<le> v \<and> v < End (as_VUIDRange a))"
  by (induction xs f rule: own_add_all.induct) (fastforce simp: own_add_def split: if_splits)+

lemma own_add_all_covers: "(c, w, a) \<in> set xs \<Longrightarrow> as_RunID a = rid \<Longrightarrow> as_StageID a = sid \<Longrightarrow>
    Start (as_VUIDRange a) \<le> v \<Longrightarrow> v < End (as_VUIDRange a) \<Longrightarrow> own_add_all xs f rid sid v \<noteq> None"
proof (induction xs f rule: own_add_all.induct)
  case (2 c' w' a' xs f)
  have keep: "g rid sid v \<noteq> None \<Longrightarrow> own_add_all ys g rid sid v \<noteq> None" for g ys
    by (induction ys g rule: own_add_all.induct) (auto simp: own_add_def)
  show ?case
  proof (cases "(c, w, a) = (c', w', a')")
    case True
    with 2 have "own_add w' a' f rid sid v \<noteq> None" by (simp add: own_add_def)
    then show ?thesis by (simp only: own_add_all.simps keep not_False_eq_True)
  next
    case False
    with 2 show ?thesis by (simp only: own_add_all.simps) auto
  qed
qed simp

section \<open>Covering a stage\<close>

text \<open>What the server relies on: \<^verbatim>\<open>sort.Slice\<close> sorts, and ranging over a map visits every entry once.\<close>

locale control_plane =
  fixes E :: environment
  assumes sorts: "slice_sorter wc_maxVUs (env_sort E)"
    and ranges: "mset (env_range E m) = mset m"
begin

lemma range_set: "set (env_range E m) = set m"
  by (metis ranges set_mset_mset)

lemma range_pairs: "distinct m \<Longrightarrow> distinct (env_range E m)"
  by (metis ranges mset_eq_imp_distinct_iff)

end

interpretation plain: control_plane plain_env
  by unfold_locales (simp_all add: plain_env_def slice_sorter_insertion_sort)

lemma control_plane_range: "control_plane E \<Longrightarrow> set (env_range E m) = set m"
  by (rule control_plane.range_set)

lemma consecutive_apart:
  assumes "consecutive s (map as_VUIDRange as) e" and "a \<in> set as" "b \<in> set as" "a \<noteq> b"
  shows "apart a b"
proof -
  have "sorted_wrt (\<lambda>a b. End (as_VUIDRange a) \<le> Start (as_VUIDRange b)) as"
    using consecutive_disjoint [OF assms(1)] by (simp add: sorted_wrt_map)
  with assms(2-4) have "End (as_VUIDRange a) \<le> Start (as_VUIDRange b) \<or> End (as_VUIDRange b) \<le> Start (as_VUIDRange a)"
    by (induction as) auto
  then show ?thesis by (auto simp: apart_def Overlaps_def)
qed

lemma consecutive_distinct: "consecutive s (map as_VUIDRange as) e \<Longrightarrow> distinct as"
proof (induction as arbitrary: s)
  case (Cons a as)
  have "a \<notin> set as"
  proof
    assume "a \<in> set as"
    with Cons.prems consecutive_bounds [of "End (as_VUIDRange a)" "map as_VUIDRange as" e "as_VUIDRange a"] show False by auto
  qed
  with Cons show ?case by auto
qed simp

text \<open>When the ranges are free and apart, every lease is granted and every assignment is sent.\<close>

lemma dispatch_granted:
  assumes good: "lease_good (rm_leases rm)" and clk: "clock_ms (now_ms rm)" and h: "harmless refused"
    and apart: "pairwise apart (set (map snd xs))" and dist: "distinct (map snd xs)"
    and free: "\<forall>x \<in> set xs. range_free (snd x) (owner (rm_leases rm))"
  shows "owner (rm_leases (dispatch_each rid exe name sid d cfg refused xs rm)) = own_add_all (at_clock (clock_of rm) xs) (owner (rm_leases rm))
    \<and> (\<exists>sent. rm_sent (dispatch_each rid exe name sid d cfg refused xs rm) = rm_sent rm @ sent
        \<and> map (\<lambda>(w, wa). (w, wa_VUIDStart wa, wa_VUIDEnd wa)) sent = map (\<lambda>(w, a). (w, Start (as_VUIDRange a), End (as_VUIDRange a))) xs)"
proof -
  let ?xs = "at_clock (clock_of rm) xs"
  have snds: "map (\<lambda>x. snd (snd x)) ?xs = map snd xs" by (simp add: at_clock_def case_prod_unfold comp_def)
  have "(\<forall>r \<in> set (fst (issue_each IssueLease_at ?xs (rm_leases rm))). \<exists>k. r = Inr k)
      \<and> owner (snd (issue_each IssueLease_at ?xs (rm_leases rm))) = own_add_all ?xs (owner (rm_leases rm))"
  proof (rule lsrv.issue_each_all_granted [OF good])
    show "pairwise apart (set (map (\<lambda>x. snd (snd x)) ?xs))" "distinct (map (\<lambda>x. snd (snd x)) ?xs)"
      using apart dist by (simp_all only: snds)
  qed (use clk free in \<open>auto simp: at_clock_def clock_of_def\<close>)
  with dispatch_leases [OF h, of rid exe name sid d cfg xs rm] dispatch_sent [OF h, of rid exe name sid d cfg xs rm]
    sent_for_all [of "fst (issue_each IssueLease_at ?xs (rm_leases rm))" xs "\<lambda>lid a. worker_assignment rid exe name lid a d cfg"]
  show ?thesis by (simp add: issue_each_length at_clock_def worker_assignment_def)
qed

lemma owned_iff:
  assumes cons: "consecutive s (map as_VUIDRange (map snd ws)) e" and set: "set xs = set ws"
    and ids: "\<forall>x \<in> set ws. as_RunID (snd x) = rid \<and> as_StageID (snd x) = sid" and none: "\<forall>v. s \<le> v \<and> v < e \<longrightarrow> f rid sid v = None"
  shows "(\<forall>v. s \<le> v \<and> v < e \<longrightarrow> own_add_all (at_clock c xs) f rid sid v \<noteq> None)
    \<and> (\<forall>v w. s \<le> v \<longrightarrow> v < e \<longrightarrow> own_add_all (at_clock c xs) f rid sid v = Some w \<longrightarrow> w \<in> fst ` set ws)
    \<and> (\<forall>v. \<not> (s \<le> v \<and> v < e) \<longrightarrow> f rid sid v = None \<longrightarrow> own_add_all (at_clock c xs) f rid sid v = None)"
proof (intro conjI allI impI)
  fix v assume v: "s \<le> v \<and> v < e"
  from consecutive_covers [OF cons] v obtain w a where a: "(w, a) \<in> set ws" "Start (as_VUIDRange a) \<le> v" "v < End (as_VUIDRange a)" by fastforce
  with set have "(c, w, a) \<in> set (at_clock c xs)" by (force simp: at_clock_def)
  with a ids show "own_add_all (at_clock c xs) f rid sid v \<noteq> None" by (intro own_add_all_covers [of c w a]) auto
next
  fix v w assume v: "s \<le> v" "v < e" and w: "own_add_all (at_clock c xs) f rid sid v = Some w"
  from own_add_all_iff [OF w] none v obtain a where "(w, a) \<in> set xs" by (auto simp: at_clock_def)
  with set show "w \<in> fst ` set ws" by force
next
  fix v assume v: "\<not> (s \<le> v \<and> v < e)" and n: "f rid sid v = None"
  show "own_add_all (at_clock c xs) f rid sid v = None"
  proof (rule ccontr)
    assume "own_add_all (at_clock c xs) f rid sid v \<noteq> None"
    then obtain w where "own_add_all (at_clock c xs) f rid sid v = Some w" by blast
    from own_add_all_iff [OF this] n obtain a where "(w, a) \<in> set xs" "Start (as_VUIDRange a) \<le> v" "v < End (as_VUIDRange a)"
      by (auto simp: at_clock_def)
    with set consecutive_bounds [OF cons, of "as_VUIDRange a"] v show False by force
  qed
qed

lemma revoke_run_frees: "\<not> lm_closed lm \<Longrightarrow> owner (snd (RevokeLeasesByRun now rid lm)) rid sid v = None"
  by (auto simp: owner_None RevokeLeasesByRun_def RevokeLeasesByRun_locked_def on_leases_def revoke_at_def covers_def split: if_splits)

lemma revoke_run_good: "lease_good lm \<Longrightarrow> lease_good (snd (RevokeLeasesByRun now rid lm))"
  using lease_step_inv [OF _ lease_step.revoke_run, of lm now rid]
  by (auto simp: lease_good_def RevokeLeasesByRun_def RevokeLeasesByRun_locked_def on_leases_def)

lemma stage_target_Some: "stage_target rid exe config name rm = (Some (cfg, stage, n), rm1) \<longleftrightarrow>
    rm1 = rm \<and> parseRunConfig config = Some cfg \<and> findStageByName cfg name = Some stage
    \<and> 0 < ld_TargetVUs (st_Load stage) \<and> n = capped_target cfg (ld_TargetVUs (st_Load stage))"
  by (auto simp: stage_target_def split: option.splits if_splits)

lemma registry_distinct: "registry_inv r \<Longrightarrow> distinct (map wi_WorkerID (ListWorkers r))"
  by (simp add: ListWorkers_ids) (simp add: registry_inv_def keys_distinct_def)

definition capacities_ok :: "registry \<Rightarrow> bool" where
  "capacities_ok r \<longleftrightarrow> (\<forall>(wid, w) \<in> set (workers r). 0 \<le> MaxVUs (wi_EffectiveCapacity w))"

lemma allocated:
  assumes "control_plane E" and "registry_inv r" and "capacities_ok r"
    and "AllocateAssignments (env_sort E) r rid sid n (map wi_WorkerID (ListWorkers r)) = Inr (as, ws)"
  shows "consecutive 0 (map as_VUIDRange (map snd ws)) n \<and> (\<forall>x \<in> set ws. as_RunID (snd x) = rid \<and> as_StageID (snd x) = sid)
    \<and> (\<forall>(wid, a) \<in> set ws. wid \<in> registered r \<and>
         (\<exists>w. GetWorker wid r = Inr w \<and> End (as_VUIDRange a) - Start (as_VUIDRange a) \<le> MaxVUs (wi_EffectiveCapacity w)))"
proof -
  have nonneg: "\<forall>wid w. GetWorker wid r = Inr w \<longrightarrow> 0 \<le> MaxVUs (wi_EffectiveCapacity w)"
    using assms(3) by (fastforce simp: GetWorker_def capacities_ok_def split: if_splits option.splits dest: map_of_SomeD)
  have "fst ` set (workers r) = wi_WorkerID ` set (ListWorkers r)"
    using ListWorkers_ids [OF assms(2)] by (metis set_map)
  then have reg: "set (map wi_WorkerID (ListWorkers r)) = registered r" by (simp add: registered_def)
  from allocate_partition [OF control_plane.sorts [OF assms(1)] registry_distinct [OF assms(2)] nonneg assms(4)]
  obtain cs where cs: "lookup_workers r (map wi_WorkerID (ListWorkers r)) = Inr cs" "partitions rid sid n cs (as, ws)" by blast
  have cap: "wid \<in> registered r \<and> (\<exists>i. GetWorker wid r = Inr i \<and> d \<le> MaxVUs (wi_EffectiveCapacity i))"
    if "\<exists>w \<in> set cs. wc_workerID w = wid \<and> d \<le> wc_maxVUs w" for wid d
    using that lookup_workers_Inr [OF cs(1)] unfolding reg [symmetric] by (metis image_eqI set_map)
  from cs(2) have ids: "\<forall>(wid, a) \<in> set ws. as_RunID a = rid \<and> as_StageID a = sid
      \<and> (\<exists>w \<in> set cs. wc_workerID w = wid \<and> End (as_VUIDRange a) - Start (as_VUIDRange a) \<le> wc_maxVUs w)"
    by (simp add: partitions_def)
  then have "\<forall>(wid, a) \<in> set ws. wid \<in> registered r \<and>
      (\<exists>w. GetWorker wid r = Inr w \<and> End (as_VUIDRange a) - Start (as_VUIDRange a) \<le> MaxVUs (wi_EffectiveCapacity w))"
    using cap by blast
  with cs(2) ids show ?thesis by (auto simp: partitions_def)
qed

text \<open>The stage as the dispatch leaves it.\<close>

lemma create_dispatch_covers:
  assumes cp: "control_plane E" and inv: "sched_inv rm" and clk: "clock_ms (now_ms rm)"
    and caps: "capacities_ok (rm_registry rm)" and open_lm: "\<not> lm_closed (rm_leases rm)"
    and ok: "createAndDispatchAssignmentsForStage E rid exe config name rm = (Some stage, rm')"
  shows "\<exists>cfg n (ws :: (WorkerID \<times> Assignment) list) sent. parseRunConfig config = Some cfg \<and> findStageByName cfg name = Some stage
     \<and> n = capped_target cfg (ld_TargetVUs (st_Load stage))
     \<and> (\<forall>v. owner (rm_leases rm') rid (st_StageID stage) v \<noteq> None \<longleftrightarrow> 0 \<le> v \<and> v < n)
     \<and> (\<forall>v w. owner (rm_leases rm') rid (st_StageID stage) v = Some w \<longrightarrow> w \<in> registered (rm_registry rm))
     \<and> rm_sent rm' = rm_sent rm @ sent
     \<and> mset (map (\<lambda>(w, wa). (w, wa_VUIDStart wa, wa_VUIDEnd wa)) sent) =
        mset (map (\<lambda>(w, a). (w, Start (as_VUIDRange a), End (as_VUIDRange a))) ws)
     \<and> consecutive 0 (map (\<lambda>x. as_VUIDRange (snd x)) ws) n
     \<and> (\<forall>(wid, a) \<in> set ws. \<exists>w. GetWorker wid (rm_registry rm) = Inr w \<and> End (as_VUIDRange a) - Start (as_VUIDRange a) \<le> MaxVUs (wi_EffectiveCapacity w))"
proof -
  let ?sid = "st_StageID stage"
  define rm2 where "rm2 = rm\<lparr>rm_leases := snd (RevokeLeasesByRun (int (now_ms rm)) rid (rm_leases rm))\<rparr>"
  define refused where "refused = (\<lambda>wid err. emitAllocationFailedEvent rid exe ''lease_error'' (''worker '' @ wid @ '': '' @ lease_error_text err))"
  from ok obtain cfg n as ws where t: "stage_target rid exe config name rm = (Some (cfg, stage, n), rm)"
    and al: "AllocateAssignments (env_sort E) (rm_registry rm) rid ?sid n (map wi_WorkerID (ListWorkers (rm_registry rm))) = Inr (as, ws)"
    and rm': "rm' = dispatch_each rid exe name ?sid (st_DurationMs stage) cfg refused (env_range E ws) rm2"
    by (auto simp: createAndDispatchAssignmentsForStage_def stage_target_Some Let_def rm2_def refused_def
        split: option.splits prod.splits if_splits sum.splits)
  have good: "lease_good (rm_leases rm2)"
    using inv open_lm revoke_run_good [of "rm_leases rm"] by (simp add: rm2_def sched_inv_def lease_good_def)
  have free: "owner (rm_leases rm2) rid sid v = None" for sid v using open_lm by (simp add: rm2_def revoke_run_frees)
  have reg: "registry_inv (rm_registry rm)" using inv by (simp add: sched_inv_def)
  note ws = allocated [OF cp reg caps al]
  then have cons: "consecutive 0 (map as_VUIDRange (map snd ws)) n" and ids: "\<forall>x \<in> set ws. as_RunID (snd x) = rid \<and> as_StageID (snd x) = ?sid" by auto
  have set: "set (env_range E ws) = set ws" by (rule control_plane.range_set [OF cp])
  have dist: "distinct (map snd (env_range E ws))"
    using consecutive_distinct [OF cons] control_plane.ranges [OF cp, of ws] by (metis mset_eq_imp_distinct_iff mset_map)
  have "pairwise apart (set (map snd (env_range E ws)))"
    using consecutive_apart [OF cons] set by (auto simp: pairwise_def image_iff)
  moreover have "\<forall>x \<in> set (env_range E ws). range_free (snd x) (owner (rm_leases rm2))"
    using ids set free by (auto simp: range_free_def)
  ultimately obtain sent where own: "owner (rm_leases rm') = own_add_all (at_clock (clock_of rm2) (env_range E ws)) (owner (rm_leases rm2))"
    and sent: "rm_sent rm' = rm_sent rm2 @ sent"
      "map (\<lambda>(w, wa). (w, wa_VUIDStart wa, wa_VUIDEnd wa)) sent = map (\<lambda>(w, a). (w, Start (as_VUIDRange a), End (as_VUIDRange a))) (env_range E ws)"
    using dispatch_granted [OF good _ _ _ dist, of refused rid exe name ?sid "st_DurationMs stage" cfg] clk
    unfolding rm' by (auto simp: rm2_def refused_def now_ms_def)
  have "\<forall>v. 0 \<le> v \<and> v < n \<longrightarrow> owner (rm_leases rm2) rid ?sid v = None" by (simp add: free)
  note iff = owned_iff [where f = "owner (rm_leases rm2)" and c = "clock_of rm2", OF cons set ids this, folded own]
  note in_range = iff [THEN conjunct1, rule_format] and by_worker = iff [THEN conjunct2, THEN conjunct1, rule_format]
    and outside = iff [THEN conjunct2, THEN conjunct2, rule_format, OF _ free]
  have range: "\<forall>v. owner (rm_leases rm') rid ?sid v \<noteq> None \<longleftrightarrow> 0 \<le> v \<and> v < n" using in_range outside by metis
  have workers: "\<forall>v w. owner (rm_leases rm') rid ?sid v = Some w \<longrightarrow> w \<in> registered (rm_registry rm)"
  proof (intro allI impI)
    fix v w assume w: "owner (rm_leases rm') rid ?sid v = Some w"
    with range by_worker [OF _ _ w] have "w \<in> fst ` set ws" by auto
    with ws show "w \<in> registered (rm_registry rm)" by fastforce
  qed
  have "mset (map (\<lambda>(w, wa). (w, wa_VUIDStart wa, wa_VUIDEnd wa)) sent) =
      mset (map (\<lambda>(w, a). (w, Start (as_VUIDRange a), End (as_VUIDRange a))) ws)"
    using sent(2) control_plane.ranges [OF cp, of ws] by (simp add: mset_map)
  moreover from t have "parseRunConfig config = Some cfg" "findStageByName cfg name = Some stage"
    "n = capped_target cfg (ld_TargetVUs (st_Load stage))" by (simp_all add: stage_target_Some)
  moreover have "rm_sent rm' = rm_sent rm @ sent" using sent(1) by (simp add: rm2_def)
  moreover have "consecutive 0 (map (\<lambda>x. as_VUIDRange (snd x)) ws) n" using cons by (simp add: comp_def)
  moreover have "\<forall>(wid, a) \<in> set ws. \<exists>w. GetWorker wid (rm_registry rm) = Inr w \<and>
      End (as_VUIDRange a) - Start (as_VUIDRange a) \<le> MaxVUs (wi_EffectiveCapacity w)" using ws by fastforce
  ultimately show ?thesis using range workers
    by - (rule exI [of _ cfg], rule exI [of _ n], rule exI [of _ ws], rule exI [of _ sent], intro conjI)
qed

lemma consecutive_once: "consecutive s rs e \<Longrightarrow>
    length (filter (\<lambda>r. Start r \<le> v \<and> v < End r) rs) = (if s \<le> v \<and> v < e then 1 else 0)"
proof (induction rs arbitrary: s)
  case (Cons r rs)
  then have r: "Start r = s" "Start r < End r" "consecutive (End r) rs e" by auto
  from Cons.IH [OF r(3)] consecutive_le [OF r(3)] r(1,2) show ?case by auto
qed auto

lemma covered_once:
  fixes sent :: "(WorkerID \<times> WorkerAssignment) list" and ws :: "(WorkerID \<times> Assignment) list"
  assumes "mset (map (\<lambda>(w, wa). (w, wa_VUIDStart wa, wa_VUIDEnd wa)) sent) =
      mset (map (\<lambda>(w, a). (w, Start (as_VUIDRange a), End (as_VUIDRange a))) ws)"
    and "consecutive s (map (\<lambda>x. as_VUIDRange (snd x)) ws) e"
  shows "length (filter (\<lambda>(w, wa). wa_VUIDStart wa \<le> v \<and> v < wa_VUIDEnd wa) sent) = (if s \<le> v \<and> v < e then 1 else 0)"
proof -
  let ?P = "\<lambda>(w :: WorkerID, a, b). a \<le> v \<and> v < (b :: int)"
  have "length (filter (\<lambda>(w, wa). wa_VUIDStart wa \<le> v \<and> v < wa_VUIDEnd wa) sent) =
      length (filter ?P (map (\<lambda>(w, wa). (w, wa_VUIDStart wa, wa_VUIDEnd wa)) sent))"
    by (simp add: length_filter_map comp_def case_prod_unfold)
  also have "\<dots> = length (filter ?P (map (\<lambda>(w, a). (w, Start (as_VUIDRange a), End (as_VUIDRange a))) ws))"
    by (simp only: size_mset [symmetric] mset_filter assms(1))
  also have "\<dots> = length (filter (\<lambda>r. Start r \<le> v \<and> v < End r) (map (\<lambda>x. as_VUIDRange (snd x)) ws))"
    by (simp add: length_filter_map comp_def case_prod_unfold)
  finally show ?thesis using consecutive_once [OF assms(2), of v] by simp
qed

section \<open>A server with one worker\<close>

definition sched_registry :: registry where
  "sched_registry = snd (RegisterWorker 1700000000000 1700000000000 \<lparr>Hostname = ''h'', IPAddr = [], Platform = []\<rparr>
     \<lparr>MaxVUs = 10, MaxConcurrentOps = 5, MaxRPS = 100\<rparr> NewRegistry)"

definition sched_created :: run_manager where
  "sched_created = SetAssignmentSender True (SetScheduler True True True (small_created\<lparr>rm_registry := sched_registry\<rparr>))"

lemma sched_created_reachable: "reachable plain_env sched_created"
proof -
  have "registry_step (rm_registry small_created) sched_registry"
    unfolding small_created_parts sched_registry_def by (rule registry_step.register) (simp add: clock_ms_def)
  then have "rm_step plain_env small_created (small_created\<lparr>rm_registry := sched_registry\<rparr>)" by (rule rm_step.registry)
  moreover have "rm_step plain_env (small_created\<lparr>rm_registry := sched_registry\<rparr>)
      (SetScheduler True True True (small_created\<lparr>rm_registry := sched_registry\<rparr>))" by (rule rm_step.set_scheduler)
  moreover have "rm_step plain_env (SetScheduler True True True (small_created\<lparr>rm_registry := sched_registry\<rparr>)) sched_created"
    unfolding sched_created_def by (rule rm_step.set_sender)
  ultimately have "(rm_step plain_env)\<^sup>*\<^sup>* small_created sched_created" by (meson converse_rtranclp_into_rtranclp r_into_rtranclp)
  with small_created_reachable show ?thesis by (rule reachable_run)
qed

lemma sched_created_parts: "rm_registry sched_created = sched_registry" "rm_leases sched_created = NewLeaseManager 60000"
  "scheduler_ready sched_created" "capacities_ok sched_registry"
  by (simp_all add: sched_created_def SetAssignmentSender_def SetScheduler_def small_created_parts scheduler_ready_def
      sched_registry_def capacities_ok_def RegisterWorker_def NewRegistry_def generateWorkerID_def Let_def)

lemma sample_preflight: "findStageByName sample_parsed StageNamePreflight = Some (sample_stage ''p'' ''preflight'' 1000 (zero_load\<lparr>ld_TargetVUs := 2\<rparr>))"
  by (simp add: findStageByName_def sample_parsed_def sample_stage_def)

lemma sched_created_dispatches: "\<exists>stage rm'. createAndDispatchAssignmentsForStage plain_env rid exe sample_config StageNamePreflight sched_created = (Some stage, rm')"
proof -
  let ?s = "sample_stage ''p'' ''preflight'' 1000 (zero_load\<lparr>ld_TargetVUs := 2\<rparr>)"
  have t: "stage_target rid exe sample_config StageNamePreflight rm = (Some (sample_parsed, ?s, 2), rm)" for rm
    by (simp add: stage_target_Some parse_sample sample_preflight capped_target_def) (simp add: sample_parsed_def sample_stage_def)
  have a: "\<exists>al. AllocateAssignments (env_sort plain_env) sched_registry rid (st_StageID ?s) 2 (map wi_WorkerID (ListWorkers sched_registry)) = Inr al"
    by (simp add: AllocateAssignments_def ListWorkers_def sched_registry_def RegisterWorker_def NewRegistry_def generateWorkerID_def
        GetWorker_def total_capacity_def wrap64_def Let_def)
  show ?thesis using t a sched_created_parts
    by (auto simp: createAndDispatchAssignmentsForStage_def Let_def)
      (simp add: ListWorkers_def sched_registry_def RegisterWorker_def NewRegistry_def generateWorkerID_def Let_def)
qed

section \<open>The callback of the heartbeat monitor\<close>

lemma active_workers_issue: "active_workers (snd (IssueLease_at c w a lm)) \<subseteq> insert w (active_workers lm)"
proof -
  have put: "snd ` set (map_put k x m) \<subseteq> insert x (snd ` set m)" for k :: string and x :: Lease and m
    by (induction m) auto
  show ?thesis
    by (auto simp: active_workers_def IssueLease_at_def IssueLease_def IssueLease_locked_def generateLeaseID_def Let_def
        dest!: subsetD [OF put, OF imageI])
qed

lemma active_workers_issue_each: "active_workers (snd (issue_each IssueLease_at xs lm)) \<subseteq> (\<lambda>x. fst (snd x)) ` set xs \<union> active_workers lm"
proof (induction xs arbitrary: lm)
  case (Cons x xs)
  obtain c w a where x: "x = (c, w, a)" by (cases x)
  show ?case
    using Cons.IH [of "snd (IssueLease_at c w a lm)"] active_workers_issue [of c w a lm] x
    by (auto simp: case_prod_unfold Let_def)
qed simp

lemma closed_issue_each: "lm_closed (snd (issue_each IssueLease_at xs lm)) = lm_closed lm"
proof (induction xs arbitrary: lm)
  case (Cons x xs)
  have "lm_closed (snd (IssueLease_at c w a lm)) = lm_closed lm" for c w a by (simp add: IssueLease_at_def IssueLease_def)
  with Cons.IH show ?case by (cases x) (simp add: case_prod_unfold Let_def)
qed simp

text \<open>What the callback may do to the scheduler.\<close>

definition gentle :: "run_manager \<Rightarrow> run_manager \<Rightarrow> bool" where
  "gentle rm rm' \<longleftrightarrow> rm_registry rm' = rm_registry rm \<and> lm_closed (rm_leases rm') = lm_closed (rm_leases rm)
     \<and> active_workers (rm_leases rm') \<subseteq> active_workers (rm_leases rm) \<union> registered (rm_registry rm)"

lemma gentle_refl [simp]: "gentle rm rm"
  by (simp add: gentle_def)

lemma gentle_trans: "gentle a b \<Longrightarrow> gentle b c \<Longrightarrow> gentle a c"
  by (auto simp: gentle_def)

lemma gentle_frame: "rm_registry rm' = rm_registry rm \<Longrightarrow> rm_leases rm' = rm_leases rm \<Longrightarrow> gentle rm rm'"
  by (simp add: gentle_def)

lemma gentle_fail_fast: "gentle rm (handleFailFastLocked rid wid rm)"
  by (rule gentle_frame) (auto simp: handleFailFastLocked_def frames Let_def split: option.split)

lemma gentle_best_effort: "gentle rm (handleBestEffortLocked rid wid rm)"
  by (rule gentle_frame) (auto simp: handleBestEffortLocked_def frames Let_def split: option.split)

text \<open>Even without assumptions on the environment.\<close>

lemma replace_keeps: "rm_registry (handleReplaceIfPossibleLocked E rid wid rm) = rm_registry rm
    \<and> lm_closed (rm_leases (handleReplaceIfPossibleLocked E rid wid rm)) = lm_closed (rm_leases rm)"
  using gentle_fail_fast [of _ rid wid]
  by (auto simp: handleReplaceIfPossibleLocked_def Let_def gentle_def emitReallocationFailedDecision_def frames
      dispatch_leases closed_issue_each split: option.split sum.split)

lemma lost_keeps: "rm_registry (snd (HandleWorkerCapacityLost E rid wid rm)) = rm_registry rm
    \<and> lm_closed (rm_leases (snd (HandleWorkerCapacityLost E rid wid rm))) = lm_closed (rm_leases rm)"
  using replace_keeps [of E rid wid rm] gentle_fail_fast [of rm rid wid] gentle_best_effort [of rm rid wid]
  by (auto simp: HandleWorkerCapacityLost_def Let_def gentle_def frames split: option.split)

lemma on_lost_keeps: "rm_registry (on_worker_lost E wid rids rm) = rm_registry rm
    \<and> lm_closed (rm_leases (on_worker_lost E wid rids rm)) = lm_closed (rm_leases rm)"
  unfolding on_worker_lost_def by (induction rids arbitrary: rm) (simp_all add: lost_keeps)

context control_plane
begin

lemma reallocated_ids:
  assumes "registry_inv r" and "ReallocateAssignments (env_sort E) r rid sid n ex = Inr (as, ws)"
  shows "fst ` set ws \<subseteq> registered r"
proof -
  let ?cs = "map (\<lambda>w. \<lparr>wc_workerID = wi_WorkerID w, wc_maxVUs = MaxVUs (wi_EffectiveCapacity w)\<rparr>)
    (filter (\<lambda>w. wi_WorkerID w \<notin> set ex) (ListWorkers r))"
  have s: "sort_slice wc_maxVUs (env_sort E)" using sorts by (simp add: sort_slice_iff)
  let ?ps = "pack rid sid (env_sort E ?cs) 0 n"
  have "distinct (map wc_workerID ?cs)"
    using registry_distinct [OF assms(1)] by (simp add: comp_def distinct_map_filter)
  then have "distinct (map fst ?ps)" by (intro pack_distinct sort_slice.distinct_map_srt [OF s])
  with assms(2) have "ws = ?ps"
    by (auto simp: ReallocateAssignments_def Let_def allocation_of_distinct split: if_splits)
  moreover have "fst ` set ?ps \<subseteq> wi_WorkerID ` set (ListWorkers r)"
    using pack_ids [of _ rid sid "env_sort E ?cs" 0 n] sort_slice.set_srt [OF s, of ?cs] by fastforce
  moreover have "wi_WorkerID ` set (ListWorkers r) = registered r"
    using ListWorkers_ids [OF assms(1)] unfolding registered_def by (metis set_map)
  ultimately show ?thesis by simp
qed

lemma gentle_replace:
  assumes "registry_inv (rm_registry rm)"
  shows "gentle rm (handleReplaceIfPossibleLocked E rid wid rm)"
proof (cases "get_run rm rid")
  case (Some r)
  show ?thesis
  proof (cases "plan_replacement E rid r wid rm")
    case (Inl why)
    have "gentle rm (emitReallocationFailedDecision rid (rr_ExecutionID r) wid why rm)"
      by (rule gentle_frame) (simp_all add: emitReallocationFailedDecision_def frames)
    with gentle_fail_fast gentle_trans Some Inl show ?thesis by (fastforce simp: handleReplaceIfPossibleLocked_def Let_def)
  next
    case (Inr x)
    then obtain act cfg n as ws where x: "x = (act, cfg, n, as, ws)"
      and al: "ReallocateAssignments (env_sort E) (rm_registry rm) rid (ai_StageID act) n [wid] = Inr (as, ws)"
      by (cases x) (auto simp: plan_replacement_def Let_def split: option.splits if_splits sum.splits)
    have sub: "fst ` set (env_range E ws) \<subseteq> registered (rm_registry rm)"
      using reallocated_ids [OF assms al] by (simp add: range_set)
    have d: "gentle rm (dispatch_each rid exe name sid d cfg (\<lambda>_ _ rm. rm) (env_range E ws) rm)" for exe name sid d
      using dispatch_leases [of "\<lambda>_ _ rm. rm" rid exe name sid d cfg "env_range E ws" rm] sub
        active_workers_issue_each [of "at_clock (clock_of rm) (env_range E ws)" "rm_leases rm"]
      by (simp add: gentle_def closed_issue_each at_clock_def image_image) blast
    have app: "gentle rm' (appendEventWithLog k e rm')" for k e rm' by (rule gentle_frame) (simp_all add: frames)
    show ?thesis using Some Inr x
      by (auto simp: handleReplaceIfPossibleLocked_def Let_def intro!: gentle_trans [OF _ app] d)
  qed
qed (simp add: handleReplaceIfPossibleLocked_def)

lemma gentle_lost: "registry_inv (rm_registry rm) \<Longrightarrow> gentle rm (snd (HandleWorkerCapacityLost E rid wid rm))"
  unfolding HandleWorkerCapacityLost_def Let_def
  by (auto split: option.split intro: gentle_fail_fast gentle_best_effort gentle_replace gentle_frame simp: frames)

lemma gentle_on_lost: "registry_inv (rm_registry rm) \<Longrightarrow> gentle rm (on_worker_lost E wid rids rm)"
  unfolding on_worker_lost_def
proof (induction rids arbitrary: rm)
  case (Cons rid rids)
  have 1: "gentle rm (snd (HandleWorkerCapacityLost E rid wid rm))" using Cons.prems by (rule gentle_lost)
  with Cons.IH [of "snd (HandleWorkerCapacityLost E rid wid rm)"] Cons.prems show ?case
    by (auto intro: gentle_trans simp: gentle_def)
qed simp

end

sublocale control_plane \<subseteq> cb: lost_callback "lost_cb_of E"
proof unfold_locales
  fix wid rids and w :: "run_manager world"
  let ?rm = "(w_rest w)\<lparr>rm_registry := w_registry w, rm_leases := w_leases w\<rparr>"
  have keep: "rm_registry (on_worker_lost E wid rids rm) = rm_registry rm \<and>
      lm_closed (rm_leases (on_worker_lost E wid rids rm)) = lm_closed (rm_leases rm)" for rm
    by (rule on_lost_keeps)
  show "w_registry (lost_cb_of E wid rids w) = w_registry w"
    "lm_closed (w_leases (lost_cb_of E wid rids w)) = lm_closed (w_leases w)"
    using keep [of ?rm] by (simp_all add: lost_cb_of_def Let_def)
  show "active_workers (w_leases (lost_cb_of E wid rids w)) \<subseteq> active_workers (w_leases w) \<union> registered (w_registry w)"
    if "registry_inv (w_registry w)"
    using gentle_on_lost [of ?rm wid rids] that by (simp add: lost_cb_of_def Let_def gentle_def)
qed

section \<open>Properties\<close>

text \<open>C17: dispatching a stage. When it succeeds, afterwards the virtual users of the stage that have an owner are exactly
  those below the capped target; the owners are registered workers; the assignments handed out cover each of them exactly
  once and give no worker more than its effective capacity. Capacities must not be negative, and the lease manager must
  be open.\<close>
theorem dispatch_covers_stage:
  assumes "reachable E rm" and "control_plane E" and "capacities_ok (rm_registry rm)" and "\<not> lm_closed (rm_leases rm)"
    and "createAndDispatchAssignmentsForStage E rid exe config name rm = (Some stage, rm')"
  shows "\<exists>cfg n sent. parseRunConfig config = Some cfg \<and> findStageByName cfg name = Some stage
     \<and> n = capped_target cfg (ld_TargetVUs (st_Load stage))
     \<and> (\<forall>v. owner (rm_leases rm') rid (st_StageID stage) v \<noteq> None \<longleftrightarrow> 0 \<le> v \<and> v < n)
     \<and> (\<forall>v w. owner (rm_leases rm') rid (st_StageID stage) v = Some w \<longrightarrow> w \<in> registered (rm_registry rm))
     \<and> rm_sent rm' = rm_sent rm @ sent
     \<and> (\<forall>v. length (filter (\<lambda>(w, wa). wa_VUIDStart wa \<le> v \<and> v < wa_VUIDEnd wa) sent) = (if 0 \<le> v \<and> v < n then 1 else 0))
     \<and> (\<forall>(wid, wa) \<in> set sent. \<exists>w. GetWorker wid (rm_registry rm) = Inr w \<and> wa_VUIDEnd wa - wa_VUIDStart wa \<le> MaxVUs (wi_EffectiveCapacity w))"
proof -
  have "sched_inv rm" using reachable_inv [OF assms(1)] by (simp add: rm_inv_def)
  from create_dispatch_covers [OF assms(2) this reachable_clock [OF assms(1)] assms(3-5)]
  obtain cfg n and ws :: "(WorkerID \<times> Assignment) list" and sent where c: "parseRunConfig config = Some cfg" "findStageByName cfg name = Some stage"
    "n = capped_target cfg (ld_TargetVUs (st_Load stage))"
    "\<forall>v. owner (rm_leases rm') rid (st_StageID stage) v \<noteq> None \<longleftrightarrow> 0 \<le> v \<and> v < n"
    "\<forall>v w. owner (rm_leases rm') rid (st_StageID stage) v = Some w \<longrightarrow> w \<in> registered (rm_registry rm)"
    "rm_sent rm' = rm_sent rm @ sent"
    and m: "mset (map (\<lambda>(w, wa). (w, wa_VUIDStart wa, wa_VUIDEnd wa)) sent) =
        mset (map (\<lambda>(w, a). (w, Start (as_VUIDRange a), End (as_VUIDRange a))) ws)"
    and cons: "consecutive 0 (map (\<lambda>x. as_VUIDRange (snd x)) ws) n"
    and cap: "\<forall>(wid, a) \<in> set ws. \<exists>w. GetWorker wid (rm_registry rm) = Inr w \<and> End (as_VUIDRange a) - Start (as_VUIDRange a) \<le> MaxVUs (wi_EffectiveCapacity w)"
    by (elim exE conjE) (rule that)
  have "\<exists>w. GetWorker wid (rm_registry rm) = Inr w \<and> wa_VUIDEnd wa - wa_VUIDStart wa \<le> MaxVUs (wi_EffectiveCapacity w)"
    if "(wid, wa) \<in> set sent" for wid wa
  proof -
    from m have "set (map (\<lambda>(w, wa). (w, wa_VUIDStart wa, wa_VUIDEnd wa)) sent) =
        set (map (\<lambda>(w, a). (w, Start (as_VUIDRange a), End (as_VUIDRange a))) ws)" by (rule mset_eq_setD)
    with that have "(wid, wa_VUIDStart wa, wa_VUIDEnd wa) \<in> set (map (\<lambda>(w, a). (w, Start (as_VUIDRange a), End (as_VUIDRange a))) ws)" by force
    then obtain a where "(wid, a) \<in> set ws" "Start (as_VUIDRange a) = wa_VUIDStart wa" "End (as_VUIDRange a) = wa_VUIDEnd wa" by auto
    with cap show ?thesis by fastforce
  qed
  then have "\<forall>(wid, wa) \<in> set sent. \<exists>w. GetWorker wid (rm_registry rm) = Inr w \<and> wa_VUIDEnd wa - wa_VUIDStart wa \<le> MaxVUs (wi_EffectiveCapacity w)"
    by blast
  with c covered_once [OF m cons] show ?thesis by - (rule exI [of _ cfg], rule exI [of _ n], rule exI [of _ sent], simp)
qed

theorem dispatch_covers_stage_witness:
  "\<exists>stage rm'. createAndDispatchAssignmentsForStage plain_env small_id ''exe'' sample_config StageNamePreflight sched_created = (Some stage, rm')
     \<and> owner (rm_leases rm') small_id (st_StageID stage) 1 \<noteq> None \<and> owner (rm_leases rm') small_id (st_StageID stage) 2 = None"
proof -
  obtain stage rm' where ok: "createAndDispatchAssignmentsForStage plain_env small_id ''exe'' sample_config StageNamePreflight sched_created = (Some stage, rm')"
    using sched_created_dispatches by blast
  from dispatch_covers_stage [OF sched_created_reachable plain.control_plane_axioms _ _ ok]
  have "\<forall>v. owner (rm_leases rm') small_id (st_StageID stage) v \<noteq> None \<longleftrightarrow> 0 \<le> v \<and> v < 2"
    by (simp add: sched_created_parts NewLeaseManager_def parse_sample sample_preflight capped_target_def)
      (auto simp: sample_parsed_def sample_stage_def)
  with ok show ?thesis by auto
qed

context control_plane
begin

lemmas lost_handled = cb.handle_all

end

text \<open>C18: a pass of the heartbeat monitor on a running server. It removes exactly the workers whose last heartbeat is
  older than the timeout, and afterwards none of them holds an active lease, although the callback may have issued
  new leases to the survivors on the way.\<close>
theorem monitor_pass_removes_dead:
  assumes "reachable E rm" and "control_plane E" and "\<not> reg_closed (rm_registry rm)" and "\<not> lm_closed (rm_leases rm)"
  shows "rm_registry (monitor_pass E timeoutMs rm) = (rm_registry rm)\<lparr>workers :=
           filter (\<lambda>(wid, w). int (now_ms rm) - wi_LastHeartbeat w \<le> timeoutMs) (workers (rm_registry rm))\<rparr>
    \<and> (\<forall>(wid, w) \<in> set (workers (rm_registry rm)). int (now_ms rm) - wi_LastHeartbeat w > timeoutMs \<longrightarrow>
         wid \<notin> active_workers (rm_leases (monitor_pass E timeoutMs rm)))"
proof -
  let ?r = "rm_registry rm" and ?late = "\<lambda>w. int (now_ms rm) - wi_LastHeartbeat w > timeoutMs"
  let ?w = "\<lparr>w_registry = ?r, w_leases = rm_leases rm, w_rest = rm\<rparr> :: run_manager world"
  let ?dead = "map wi_WorkerID (filter ?late (ListWorkers ?r))"
  let ?w1 = "handle_dead_workers (\<lambda>_. int (now_ms rm)) (Some (lost_cb_of E)) ?dead ?w"
  have inv: "registry_inv ?r" using reachable_inv [OF assms(1)] by (simp add: rm_inv_def sched_inv_def)
  have ids: "(wid, w) \<in> set (workers ?r) \<Longrightarrow> wi_WorkerID w = wid" for wid w using registry_inv_id [OF inv] by blast
  have dead: "wid \<in> set ?dead \<longleftrightarrow> ?late w" if "(wid, w) \<in> set (workers ?r)" for wid w
  proof -
    have uniq: "w' = w" if "(wid, w') \<in> set (workers ?r)" for w'
      using that \<open>(wid, w) \<in> set (workers ?r)\<close> inv by (auto simp: registry_inv_def keys_distinct_def dest: eq_key_imp_eq_value)
    have "wid \<in> set ?dead \<longleftrightarrow> (\<exists>k w'. (k, w') \<in> set (workers ?r) \<and> ?late w' \<and> wi_WorkerID w' = wid)"
      by (simp add: ListWorkers_def image_iff) fastforce
    also have "\<dots> \<longleftrightarrow> ?late w" using ids uniq that by metis
    finally show ?thesis .
  qed
  have "distinct ?dead" using registry_distinct [OF inv] by (simp add: distinct_map_filter)
  moreover have "set ?dead \<subseteq> registered ?r" using ids by (force simp: ListWorkers_def registered_def)
  ultimately have all: "w_registry ?w1 = ?r\<lparr>workers := filter (\<lambda>p. fst p \<notin> set ?dead) (workers ?r)\<rparr>"
      "active_workers (w_leases ?w1) \<inter> set ?dead = {}"
    using control_plane.lost_handled [OF assms(2), of ?w ?dead "{}" "\<lambda>_. int (now_ms rm)"] assms(3,4) inv by auto
  have "filter (\<lambda>p. fst p \<notin> set ?dead) (workers ?r) = filter (\<lambda>(wid, w). \<not> ?late w) (workers ?r)"
    using dead by (intro filter_cong [OF refl]) (clarify, simp only: fst_conv prod.case)
  moreover have pass: "rm_registry (monitor_pass E timeoutMs rm) = w_registry ?w1"
    "rm_leases (monitor_pass E timeoutMs rm) = snd (ExpireLeases (int (now_ms rm)) (w_leases ?w1))"
    by (simp_all add: monitor_pass_def checkWorkers_def DetectLostWorkers_def Let_def)
  moreover have "wid \<notin> active_workers (rm_leases (monitor_pass E timeoutMs rm))" if "(wid, w) \<in> set (workers ?r)" "?late w" for wid w
    using dead [OF that(1)] that(2) all(2) active_workers_expire [of "int (now_ms rm)" "w_leases ?w1"] unfolding pass(2) by blast
  ultimately show ?thesis using all(1) by (auto simp: not_less)
qed

theorem monitor_pass_removes_dead_witness:
  "workers (rm_registry sched_created) \<noteq> [] \<and> workers (rm_registry (monitor_pass plain_env (-1) sched_created)) = []"
proof -
  obtain e r where eq: "small_created = appendEventWithLog small_id e
      (insert_run r (snd (generateExecutionID (snd (generateRunID small_start)))))"
    using small_created_eq by blast
  have "now_ms sched_created = 1700000000000"
    by (simp add: sched_created_def SetAssignmentSender_def SetScheduler_def now_ms_def frames eq insert_run_def
        generateRunID_def generateExecutionID_def Let_def small_start_def server_start_def NewRunManager_def)
  moreover have "\<exists>wid w. workers sched_registry = [(wid, w)] \<and> wi_LastHeartbeat w = 1700000000000"
    by (simp add: sched_registry_def RegisterWorker_def NewRegistry_def generateWorkerID_def Let_def)
  moreover have "\<not> reg_closed sched_registry" by (simp add: sched_registry_def RegisterWorker_def NewRegistry_def generateWorkerID_def Let_def)
  ultimately show ?thesis
    using monitor_pass_removes_dead [OF sched_created_reachable plain.control_plane_axioms, of "-1"] sched_created_parts
    by (auto simp: NewLeaseManager_def)
qed

end
