(* ===== verification/Run_Outcomes.thy ===== *)
theory Run_Outcomes
  imports Run_Delivery
begin

text \<open>
  What the operations of the run manager lead to: the answers to a stop on every branch, the end of a run, and the
  numbers of the ramp with the leases they give.
\<close>

section \<open>Stopping\<close>

text \<open>The answer to a stop, by the state of the run (None: there is no such run).\<close>

definition stop_answer :: "string \<Rightarrow> string \<Rightarrow> RunState option \<Rightarrow> run_error option" where
  "stop_answer op rid s =
     (case s of
        None \<Rightarrow> Some (NewNotFoundError rid)
      | Some st \<Rightarrow>
          if terminal st then Some (NewTerminalStateError rid st op)
          else if st = RunStateStopping \<or> CanTransition st RunStateStopping then None
          else Some (NewInvalidTransitionError rid st RunStateStopping))"

definition fresh_stop :: "RunState option \<Rightarrow> bool" where
  "fresh_stop s \<longleftrightarrow> (\<exists>st. s = Some st \<and> st \<noteq> RunStateStopping \<and> CanTransition st RunStateStopping)"

text \<open>What both kinds of stop do, given the operation's name, the drain time of the finalizer and the result.\<close>

definition stopped_as :: "string \<Rightarrow> string \<Rightarrow> string \<Rightarrow> int \<Rightarrow> run_manager \<Rightarrow> run_error option \<times> run_manager \<Rightarrow> bool" where
  "stopped_as op rid actor drain rm res \<longleftrightarrow>
     fst res = stop_answer op rid (state_of rm rid)
     \<and> state_of (snd res) rid = (if fst res = None then Some RunStateStopping else state_of rm rid)
     \<and> (\<forall>k. k \<noteq> rid \<longrightarrow> get_run (snd res) k = get_run rm k)
     \<and> rm_go (snd res) = rm_go rm @ (if fresh_stop (state_of rm rid) then [GoFinalize rid actor (FinStart drain)] else [])
     \<and> (fst res \<noteq> None \<longrightarrow> rm_eventLogs (snd res) = rm_eventLogs rm)"

definition drain_of :: "run_manager \<Rightarrow> string \<Rightarrow> int" where
  "drain_of rm rid = (case get_run rm rid of None \<Rightarrow> 0 | Some r \<Rightarrow> getDrainTimeout (rr_Config r))"

lemma request_stop_as: "stopped_as ''stop'' rid actor (drain_of rm rid) rm (RequestStop rid mode actor rm)"
proof (cases "get_run rm rid")
  case (Some r)
  then show ?thesis
    by (cases "rr_State r")
      (simp_all add: stopped_as_def stop_answer_def fresh_stop_def state_of_def drain_of_def RequestStop_def
        requestStopWithReason_def frames Let_def CanTransition_def)
qed (simp add: stopped_as_def stop_answer_def fresh_stop_def state_of_def RequestStop_def requestStopWithReason_def)

lemma emergency_stop_as: "stopped_as ''emergency-stop'' rid actor 0 rm (EmergencyStop rid actor rm)"
proof (cases "get_run rm rid")
  case (Some r)
  then show ?thesis
    by (cases "rr_State r")
      (simp_all add: stopped_as_def stop_answer_def fresh_stop_def state_of_def
        EmergencyStop_def frames Let_def CanTransition_def)
qed (simp add: stopped_as_def stop_answer_def fresh_stop_def state_of_def EmergencyStop_def)

section \<open>The end of a run\<close>

definition stores :: "run_manager \<Rightarrow> bool \<times> bool" where
  "stores rm = (rm_hasTelemetry rm, rm_hasArtifacts rm)"

lemma store_basic [simp]:
  "stores (upd_run rid f rm) = stores rm" "stores (spawn g rm) = stores rm" "stores (stop_timers ts rm) = stores rm"
  "stores (close_chan ch rm) = stores rm" "stores (SetRunMetadata rid sid why rm) = stores rm"
  by (simp_all add: stores_def upd_run_def spawn_def close_chan_def SetRunMetadata_def stop_timers_def)

lemma store_cancel [simp]: "stores (cancel_ctx c rm) = stores rm"
  by (cases c) (simp_all add: stores_def)

lemma store_log [simp]: "stores (appendEventWithLog rid e rm) = stores rm"
  by (simp add: stores_def appendEventWithLog_def case_prod_unfold Let_def split: option.split)

lemma store_sections [simp]: "stores (close_drainCancel rid rm) = stores rm" "stores (cancelStageProgressionLocked rid rm) = stores rm"
  by (simp_all add: close_drainCancel_def cancelStageProgressionLocked_def Let_def split: option.split)

lemma emergency_stores: "stores (snd (EmergencyStop rid actor rm)) = stores rm"
  by (simp add: EmergencyStop_def Let_def split: option.split)

lemma complete_state: "get_run rm rid = Some r \<Longrightarrow> rr_State r = RunStateAnalyzing \<Longrightarrow>
    state_of (completeAnalysis rid rm) rid = Some (fst (analysis_outcome r))"
  by (auto simp: completeAnalysis_def state_of_def frames Let_def case_prod_unfold)

lemma fail_state: "get_run rm rid = Some r \<Longrightarrow> rr_State r = RunStateAnalyzing \<Longrightarrow>
    state_of (failAnalysis rid why details rm) rid = Some RunStateFailed"
  by (simp add: failAnalysis_def state_of_def frames Let_def)

text \<open>The state an analysis leaves, by what its parts return.\<close>

definition analysis_state :: "analysis_case \<Rightarrow> 'm analysis_env \<Rightarrow> RunRecord \<Rightarrow> RunState" where
  "analysis_state chosen A r =
     (case chosen of
        AnalysisDeadline \<Rightarrow> RunStateFailed
      | AnalysisCancelled \<Rightarrow> RunStateAnalyzing
      | AnalysisDone \<Rightarrow>
          if an_ctxErr A 0 then RunStateAnalyzing
          else case make_reports A (rr_RunID r) (rr_ScenarioID r) of
                 None \<Rightarrow> RunStateAnalyzing
               | Some (Inl _) \<Rightarrow> RunStateFailed
               | Some (Inr _) \<Rightarrow> fst (analysis_outcome r))"

lemma analysis_state_cong: "rr_RunID r = rr_RunID r' \<Longrightarrow> rr_ScenarioID r = rr_ScenarioID r' \<Longrightarrow>
    rr_StopReason r = rr_StopReason r' \<Longrightarrow> analysis_state chosen A r = analysis_state chosen A r'"
proof -
  assume eq: "rr_RunID r = rr_RunID r'" "rr_ScenarioID r = rr_ScenarioID r'" "rr_StopReason r = rr_StopReason r'"
  then have out: "analysis_outcome r = analysis_outcome r'" by (simp add: analysis_outcome_def)
  show ?thesis unfolding analysis_state_def eq out ..
qed

lemma analyze_state:
  assumes "get_run rm rid = Some r" and "rr_RunID r = rid" and "rr_State r = RunStateAnalyzing"
    and "rm_hasTelemetry rm" and "rm_hasArtifacts rm"
  shows "state_of (snd (analyzeRunWithTimeout chosen A rid t rm)) rid = Some (analysis_state chosen A r)"
proof (cases chosen)
  case AnalysisDone
  have "state_of (completeAnalysis rid (emitReportGeneratedEvent rid exe i j rm)) rid = Some (fst (analysis_outcome r))" for exe i j
    using assms by (intro complete_state) (simp_all add: emitReportGeneratedEvent_def frames)
  with AnalysisDone assms fail_state [OF assms(1,3)] show ?thesis
    by (auto simp: analyzeRunWithTimeout_def analysis_state_def analyzeRunWithContext_def state_of_def
        split: option.splits sum.splits)
next
  case AnalysisDeadline
  with assms fail_state [of "spawn (GoAnalyze rid) rm" rid r] show ?thesis
    by (simp add: analyzeRunWithTimeout_def analysis_state_def frames)
qed (use assms in \<open>simp add: analyzeRunWithTimeout_def analysis_state_def state_of_def frames\<close>)

lemma finalize_end_state:
  assumes "get_run rm rid = Some r" and "rr_RunID r = rid" and "rr_State r = RunStateStopping"
  shows "state_of (finalize_end chosen A rid actor rm) rid = Some
     (if rm_hasTelemetry rm \<and> rm_hasArtifacts rm then analysis_state chosen A r else RunStateCompleted)"
proof (cases "rm_hasTelemetry rm \<and> rm_hasArtifacts rm")
  case True
  let ?r = "r\<lparr>rr_State := RunStateAnalyzing, rr_UpdatedAtMs := int (now_ms rm)\<rparr>"
  obtain rm1 where en: "analyzing_enter rid actor rm = (Inr (rr_Config r), rm1)" and run: "get_run rm1 rid = Some ?r"
    and st: "rm_hasTelemetry rm1" "rm_hasArtifacts rm1"
    using assms True by (auto simp: analyzing_enter_def CanTransition_def frames Let_def)
  have "analysis_state chosen A ?r = analysis_state chosen A r"
    by (rule analysis_state_cong) simp_all
  with analyze_state [OF run _ _ st, of chosen A "getAnalysisTimeout (rr_Config r)"] assms True en show ?thesis
    by (simp add: finalize_end_def finalize_check_def TransitionToAnalyzing_def)
next
  case False
  with assms show ?thesis
    by (auto simp: finalize_end_def finalize_check_def transitionToCompleted_def state_of_def frames Let_def)
qed

lemma finalize_begin_keeps: "get_run rm rid = Some r \<Longrightarrow> \<exists>c rm1 r1. finalize_begin rid rm = Some (c, rm1)
    \<and> get_run rm1 rid = Some r1 \<and> rr_State r1 = rr_State r \<and> rr_RunID r1 = rr_RunID r \<and> rr_ScenarioID r1 = rr_ScenarioID r
    \<and> rr_StopReason r1 = rr_StopReason r \<and> rm_hasTelemetry rm1 = rm_hasTelemetry rm \<and> rm_hasArtifacts rm1 = rm_hasArtifacts rm"
  by (cases "rr_drainCancel r") (simp_all add: finalize_begin_def init_drainCancel_def new_chan_def frames Let_def)

lemma finalize_state:
  assumes "get_run rm rid = Some r" and "rr_RunID r = rid" and "rr_State r = RunStateStopping"
  shows "state_of (finalizeRun chosen A rid d actor rm) rid = Some
     (if rm_hasTelemetry rm \<and> rm_hasArtifacts rm then analysis_state chosen A r else RunStateCompleted)"
proof (cases "d > 0")
  case True
  from finalize_begin_keeps [OF assms(1)] obtain c rm1 r1 where b: "finalize_begin rid rm = Some (c, rm1)"
      "get_run rm1 rid = Some r1" "rr_State r1 = rr_State r" "rr_RunID r1 = rr_RunID r" "rr_ScenarioID r1 = rr_ScenarioID r"
      "rr_StopReason r1 = rr_StopReason r" "rm_hasTelemetry rm1 = rm_hasTelemetry rm" "rm_hasArtifacts rm1 = rm_hasArtifacts rm"
    by blast
  have "analysis_state chosen A r1 = analysis_state chosen A r" using b(4-6) by (rule analysis_state_cong)
  with finalize_end_state [OF b(2), of chosen A actor] b assms True show ?thesis by (simp add: finalizeRun_def)
next
  case False
  with finalize_end_state [OF assms, of chosen A actor] show ?thesis by (simp only: finalizeRun_def if_False)
qed

section \<open>The numbers of the ramp\<close>

lemma plan_ramp_Some:
  assumes "plan_ramp stage cfg = Some p"
  shows "0 < ld_TargetVUs (st_Load stage)" and "rp_target p = capped_target cfg (ld_TargetVUs (st_Load stage))"
    and "1 \<le> rp_start p" and "rp_start p \<le> rp_target p" and "1 \<le> rp_steps p" and "1 \<le> rp_hold p"
    and "rp_increment p = max 1 ((rp_target p - rp_start p) div rp_steps p)"
proof -
  have t: "0 < ld_TargetVUs (st_Load stage)" using assms by (auto simp: plan_ramp_def Let_def split: if_splits)
  then have c: "1 \<le> capped_target cfg (ld_TargetVUs (st_Load stage))" by (auto simp: capped_target_def)
  show "0 < ld_TargetVUs (st_Load stage)" by fact
  show tgt: "rp_target p = capped_target cfg (ld_TargetVUs (st_Load stage))"
    using assms t by (auto simp: plan_ramp_def Let_def)
  have "rp_start p = (let s = (if ld_StartVUs (st_Load stage) \<le> 0 then max 1 (go_div (rp_target p) 10) else ld_StartVUs (st_Load stage))
      in if s > rp_target p then rp_target p else s)"
    using assms t by (auto simp: plan_ramp_def Let_def)
  then show st: "1 \<le> rp_start p" "rp_start p \<le> rp_target p" using c tgt by (auto simp: Let_def)
  have "rp_steps p = (if ld_RampSteps (st_Load stage) \<le> 0 then 5 else ld_RampSteps (st_Load stage))"
    using assms t by (auto simp: plan_ramp_def Let_def)
  then show k: "1 \<le> rp_steps p" by simp
  have "rp_hold p = (let h = (if ld_StepHoldMs (st_Load stage) \<le> 0 \<and> st_DurationMs stage > 0 then go_div (st_DurationMs stage) (rp_steps p)
      else ld_StepHoldMs (st_Load stage)) in if h \<le> 0 then 10000 else h)"
    using assms t by (auto simp: plan_ramp_def Let_def)
  then show "1 \<le> rp_hold p" by (simp add: Let_def)
  have "rp_increment p = (let i = go_div (rp_target p - rp_start p) (rp_steps p) in if i \<le> 0 then 1 else i)"
    using assms t by (auto simp: plan_ramp_def Let_def)
  then show "rp_increment p = max 1 ((rp_target p - rp_start p) div rp_steps p)"
    using st k by (simp add: go_div_nonneg Let_def)
qed

lemma next_vus_min: "next_vus p i = min (rp_target p) (rp_start p + rp_increment p * i)"
  by (simp add: next_vus_def Let_def)

lemma next_vus_last:
  assumes "plan_ramp stage cfg = Some p"
  shows "next_vus p (rp_steps p) = rp_target p -
    (if rp_target p - rp_start p < rp_steps p then 0 else (rp_target p - rp_start p) mod rp_steps p)"
proof -
  let ?d = "rp_target p - rp_start p" and ?k = "rp_steps p"
  note p = plan_ramp_Some [OF assms]
  have split: "?d = ?k * (?d div ?k) + ?d mod ?k" by simp
  show ?thesis
  proof (cases "?d < ?k")
    case True
    then have "?d div ?k = 0" using p(4) by simp
    then have "rp_increment p = 1" using p(7) by simp
    with True show ?thesis by (simp add: next_vus_min)
  next
    case False
    then have "1 \<le> ?d div ?k" using p(5) by (simp add: pos_imp_zdiv_pos_iff int_one_le_iff_zero_less)
    then have "rp_increment p = ?d div ?k" using p(7) by simp
    then have "rp_start p + rp_increment p * ?k = rp_target p - ?d mod ?k"
      using split by (simp add: algebra_simps)
    moreover have "0 \<le> ?d mod ?k" using p(5) by simp
    ultimately show ?thesis using False by (simp add: next_vus_min)
  qed
qed

section \<open>The leases of the ramp\<close>

text \<open>What the ramp looks at, apart from the leases.\<close>

abbreviation ramp_view :: "string \<Rightarrow> run_manager \<Rightarrow> registry \<times> nat \<times> bool \<times> RunState option" where
  "ramp_view rid rm \<equiv> (rm_registry rm, rm_now rm, scheduler_ready rm, state_of rm rid)"

lemma dispatch_view:
  assumes "harmless refused" and "\<And>w e rm. ramp_view rid (refused w e rm) = ramp_view rid rm"
  shows "ramp_view rid (dispatch_each rid exe name sid d cfg refused xs rm) = ramp_view rid rm"
proof (induction xs arbitrary: rm)
  case (Cons x xs)
  obtain w a where x: "x = (w, a)" by (cases x)
  have one: "ramp_view rid (issue_and_send rid exe name sid d cfg refused w a rm) = ramp_view rid rm"
    using assms(2) [of w _ "rm\<lparr>rm_leases := _\<rparr>"]
    by (auto simp: issue_and_send_def emitWorkerAssignedEvent_def AddAssignment_def scheduler_ready_def state_of_def frames
        Let_def split: prod.split sum.split)
  from Cons.IH [of "issue_and_send rid exe name sid d cfg refused w a rm"] one x show ?case
    by (simp add: dispatch_each_def)
qed (simp add: dispatch_each_def)

lemma consecutive_shift: "consecutive s (map as_VUIDRange as) e \<Longrightarrow>
    consecutive (s + k) (map as_VUIDRange (map (offset_assignment k) as)) (e + k)"
  by (induction as arbitrary: s) (auto simp: offset_assignment_def)

text \<open>What the registered workers offer together, as the allocator adds it up.\<close>

definition offered :: "registry \<Rightarrow> int" where
  "offered r = total_capacity (map (\<lambda>w. \<lparr>wc_workerID = wi_WorkerID w, wc_maxVUs = MaxVUs (wi_EffectiveCapacity w)\<rparr>) (ListWorkers r))"

lemma allocates_all:
  assumes "registry_inv r" and "\<not> reg_closed r" and "0 < n"
    and "n \<le> offered r"
  shows "\<exists>al. AllocateAssignments srt r rid sid n (map wi_WorkerID (ListWorkers r)) = Inr al"
proof -
  have "\<forall>i \<in> set (ListWorkers r). GetWorker (wi_WorkerID i) r = Inr i"
    using assms(1,2) by (auto simp: ListWorkers_def GetWorker_def registry_inv_def keys_distinct_def registry_inv_id [OF assms(1)])
  moreover have "ListWorkers r \<noteq> []" using assms(3,4) by (auto simp: offered_def total_capacity_def)
  ultimately show ?thesis using assms(3,4) by (simp add: offered_def AllocateAssignments_def lookup_workers_ids)
qed

text \<open>The first \<open>n\<close> virtual users of the stage have owners, and no others; the ramp can go on.\<close>

definition ramped :: "string \<Rightarrow> string \<Rightarrow> registry \<Rightarrow> int \<Rightarrow> run_manager \<Rightarrow> bool" where
  "ramped rid sid r n rm \<longleftrightarrow> lease_good (rm_leases rm) \<and> clock_ms (now_ms rm) \<and> rm_registry rm = r \<and> scheduler_ready rm
     \<and> state_of rm rid = Some RunStateRampRunning \<and> (\<forall>v. owner (rm_leases rm) rid sid v \<noteq> None \<longleftrightarrow> 0 \<le> v \<and> v < n)"

lemma ramped_view: "ramp_view rid rm' = ramp_view rid rm \<Longrightarrow> rm_leases rm' = rm_leases rm \<Longrightarrow>
    ramped rid sid r n rm' = ramped rid sid r n rm"
  by (auto simp: ramped_def now_ms_def)

lemma ramped_dispatch:
  assumes cp: "control_plane E" and reg: "registry_inv r" "capacities_ok r" "\<not> reg_closed r"
    and cap: "k \<le> offered r"
    and k: "0 < k" and n: "0 \<le> n" and st: "ramped rid (st_StageID stage) r n rm"
  shows "ramped rid (st_StageID stage) r (n + k) (dispatchRampAssignments E rid exe stage cfg k n rm)"
proof -
  let ?sid = "st_StageID stage" and ?f = "\<lambda>(wid, a). (wid, offset_assignment n a)"
  have r: "rm_registry rm = r" "scheduler_ready rm" "lease_good (rm_leases rm)" "clock_ms (now_ms rm)" using st by (simp_all add: ramped_def)
  obtain as ws where al: "AllocateAssignments (env_sort E) r rid ?sid k (map wi_WorkerID (ListWorkers r)) = Inr (as, ws)"
    using allocates_all [OF reg(1,3) k cap] by (metis surj_pair)
  then have ne: "ListWorkers r \<noteq> []" using k by (auto simp: AllocateAssignments_def)
  let ?ys = "map ?f ws" and ?xs = "map ?f (env_range E ws)"
  let ?rm' = "dispatch_each rid exe StageNameRamp ?sid (remaining_duration rid stage rm) cfg (\<lambda>_ _ rm. rm) ?xs rm"
  have eq: "dispatchRampAssignments E rid exe stage cfg k n rm = ?rm'"
    using r ne al by (simp add: dispatchRampAssignments_def)
  note ws = allocated [OF cp reg(1,2) al]
  have snds: "map snd (map ?f zs) = map (offset_assignment n) (map snd zs)" for zs :: "(WorkerID \<times> Assignment) list"
    by (simp add: case_prod_unfold)
  have cons: "consecutive n (map as_VUIDRange (map snd ?ys)) (n + k)"
    using consecutive_shift [of 0 "map snd ws" k n] ws by (simp only: snds) (simp add: add.commute)
  have set: "set ?xs = set ?ys" using control_plane.range_set [OF cp, of ws] by simp
  have ids: "\<forall>x \<in> set ?ys. as_RunID (snd x) = rid \<and> as_StageID (snd x) = ?sid"
    using ws by (auto simp: offset_assignment_def)
  have ap: "pairwise apart (set (map snd ?xs))"
  proof -
    have "set (map snd ?xs) = set (map snd ?ys)" using set by (simp only: set_map)
    then show ?thesis using consecutive_apart [OF cons] unfolding pairwise_def by blast
  qed
  have dist: "distinct (map snd ?xs)"
    using consecutive_distinct [OF cons] control_plane.ranges [OF cp, of ws] by (metis mset_eq_imp_distinct_iff mset_map)
  have none: "\<forall>v. n \<le> v \<and> v < n + k \<longrightarrow> owner (rm_leases rm) rid ?sid v = None"
  proof (intro allI impI)
    fix v assume "n \<le> v \<and> v < n + k"
    then have "\<not> (0 \<le> v \<and> v < n)" by simp
    with st show "owner (rm_leases rm) rid ?sid v = None" unfolding ramped_def by blast
  qed
  have free: "\<forall>x \<in> set ?xs. range_free (snd x) (owner (rm_leases rm))"
  proof
    fix x assume "x \<in> set ?xs"
    with set have x: "x \<in> set ?ys" by blast
    then have "as_VUIDRange (snd x) \<in> set (map as_VUIDRange (map snd ?ys))" by (metis image_eqI set_map)
    from consecutive_bounds [OF cons this] none ids [rule_format, OF x] show "range_free (snd x) (owner (rm_leases rm))"
      by (simp add: range_free_def)
  qed
  have own: "owner (rm_leases ?rm') = own_add_all (at_clock (clock_of rm) ?xs) (owner (rm_leases rm))"
    using dispatch_granted [OF r(3,4) _ ap dist free] by simp
  note iff = owned_iff [where f = "owner (rm_leases rm)" and c = "clock_of rm", OF cons set ids none, folded own]
  have "owner (rm_leases ?rm') rid ?sid v \<noteq> None \<longleftrightarrow> 0 \<le> v \<and> v < n + k" for v
  proof (cases "n \<le> v \<and> v < n + k")
    case False
    have keep: "own_add_all ys g rid ?sid v \<noteq> None" if "g rid ?sid v \<noteq> None" for g ys
      using that by (induction ys g rule: own_add_all.induct) (auto simp: own_add_def)
    from False iff keep [of "owner (rm_leases rm)"] st k n show ?thesis unfolding own ramped_def by (cases "0 \<le> v \<and> v < n") auto
  qed (use iff n in auto)
  moreover have "lease_good (rm_leases ?rm')"
    using dispatch_leases [of "\<lambda>_ _ rm. rm"] r by (auto intro!: lsrv.issue_each_good simp: at_clock_def clock_of_def)
  moreover have "ramp_view rid ?rm' = ramp_view rid rm" by (rule dispatch_view) simp_all
  ultimately show ?thesis using st unfolding eq ramped_def by (simp add: now_ms_def)
qed

lemma emit_ramp_view: "ramp_view rid (emitRampStepEvent rid exe s n t why rm) = ramp_view rid rm"
  "rm_leases (emitRampStepEvent rid exe s n t why rm) = rm_leases rm"
  by (simp_all add: emitRampStepEvent_def scheduler_ready_def state_of_def frames)

lemma timer_view:
  "ramp_view rid (removeStageTimer rid t (addStageTimer rid t (snd (new_timer rm)))) = ramp_view rid rm"
  "rm_leases (removeStageTimer rid t (addStageTimer rid t (snd (new_timer rm)))) = rm_leases rm"
  by (auto simp: removeStageTimer_def addStageTimer_def new_timer_def scheduler_ready_def state_of_def upd_run_def stop_timers_def Let_def
      split: option.split)

lemma ramp_loop_ramped:
  assumes cp: "control_plane E" and reg: "registry_inv r" "capacities_ok r" "\<not> reg_closed r"
    and cap: "rp_increment p \<le> offered r"
    and p: "1 \<le> rp_start p" "rp_start p \<le> rp_target p" "1 \<le> rp_increment p"
    and "step + int j = rp_steps p + 1" and "1 \<le> step"
    and "ramped rid (st_StageID stage) r (next_vus p (step - 1)) rm"
  shows "ramped rid (st_StageID stage) r (next_vus p (rp_steps p))
    (ramp_loop E rid exe stage cfg p (replicate j True) step (next_vus p (step - 1)) rm)"
  using assms(9-11)
proof (induction j arbitrary: step rm)
  case (Suc j)
  let ?sid = "st_StageID stage" and ?old = "next_vus p (step - 1)" and ?new = "next_vus p step"
  let ?rm3 = "removeStageTimer rid (fst (new_timer rm)) (addStageTimer rid (fst (new_timer rm)) (snd (new_timer rm)))"
  let ?rm4 = "if ?new - ?old > 0 then dispatchRampAssignments E rid exe stage cfg (?new - ?old) ?old
      (emitRampStepEvent rid exe step ?new (rp_target p) ''ramp_step'' ?rm3) else ?rm3"
  have mono: "rp_increment p * (step - 1) \<le> rp_increment p * step" "0 \<le> rp_increment p * (step - 1)"
    using p(3) Suc.prems(2) by (simp_all add: mult_left_mono)
  have le: "?old \<le> ?new" "?new \<le> rp_target p"
    unfolding next_vus_min by (intro min.mono order_refl add_left_mono mono(1) min.cobounded1)+
  have old: "1 \<le> ?old" unfolding next_vus_min using mono(2) p(1,2) by (intro min.boundedI) linarith+
  have "rp_increment p * step = rp_increment p * (step - 1) + rp_increment p" by (simp add: algebra_simps)
  then have diff: "?new - ?old \<le> rp_increment p" using p(3) unfolding next_vus_min by (simp add: min_def)
  have rm3: "ramped rid ?sid r ?old ?rm3" using Suc.prems(3) ramped_view [OF timer_view] by metis
  then obtain rec where rec: "get_run ?rm3 rid = Some rec" "rr_State rec = RunStateRampRunning"
    by (auto simp: ramped_def state_of_Some)
  have rm4: "ramped rid ?sid r ?new ?rm4"
  proof (cases "?new - ?old > 0")
    case True
    have "ramped rid ?sid r (?old + (?new - ?old)) (dispatchRampAssignments E rid exe stage cfg (?new - ?old) ?old
        (emitRampStepEvent rid exe step ?new (rp_target p) ''ramp_step'' ?rm3))"
      using rm3 True diff old cap by (intro ramped_dispatch [OF cp reg]) (auto simp: ramped_view [OF emit_ramp_view])
    with True show ?thesis by simp
  qed (use rm3 le in simp)
  have cur: "(if ?new - ?old > 0 then ?new else ?old) = ?new" using le(1) by simp
  have loop: "ramp_loop E rid exe stage cfg p (replicate (Suc j) True) step ?old rm =
      (if ?new \<ge> rp_target p then emitRampStepEvent rid exe (rp_steps p) (rp_target p) (rp_target p) ''ramp_complete'' ?rm4
       else ramp_loop E rid exe stage cfg p (replicate j True) (step + 1) ?new ?rm4)"
    using Suc.prems(1) rec cur by (simp add: case_prod_unfold Let_def)
  show ?case
  proof (cases "?new \<ge> rp_target p")
    case True
    have "step \<le> rp_steps p" using Suc.prems(1) by simp
    then have "rp_increment p * step \<le> rp_increment p * rp_steps p" using p(3) by (simp add: mult_left_mono)
    then have "?new \<le> next_vus p (rp_steps p)" unfolding next_vus_min by (intro min.mono order_refl add_left_mono)
    moreover have "next_vus p (rp_steps p) \<le> rp_target p" by (simp add: next_vus_min)
    ultimately have "next_vus p (rp_steps p) = ?new" using True le(2) by linarith
    with True rm4 loop show ?thesis by (simp only: if_True ramped_view [OF emit_ramp_view])
  next
    case False
    from Suc.IH [of "step + 1" ?rm4] Suc.prems(1,2) rm4 False loop show ?thesis by simp
  qed
qed simp

section \<open>Sample states\<close>

text \<open>An analysis whose parts all succeed, a server with both stores, and a run that has entered the ramp.\<close>

definition plain_analysis :: "nat analysis_env" where
  "plain_analysis = \<lparr>an_ctxErr = (\<lambda>_. False),
     an_telemetry = (\<lambda>rid. Inr \<lparr>td_RunID = rid, td_ScenarioID = [], td_StartTimeMs = 0, td_EndTimeMs = 1000, td_StopReason = [], td_Operations = []\<rparr>),
     an_compute = (\<lambda>_ _ ops. length ops), an_json = (\<lambda>_. Inr ''{}''), an_html = (\<lambda>_. Inr ''<html>''),
     an_save = (\<lambda>rid name body. Inr \<lparr>ar_RunID = rid, ar_ArtifactType = ''report'', ar_Filename = name, ar_Path = name, ar_SizeBytes = int (length body)\<rparr>),
     an_duration = (\<lambda>_. [])\<rparr>"

lemma plain_reports: "make_reports plain_analysis rid sid = Some (Inr
    (\<lparr>ar_RunID = rid, ar_ArtifactType = ''report'', ar_Filename = ''report.json'', ar_Path = ''report.json'', ar_SizeBytes = 2\<rparr>,
     \<lparr>ar_RunID = rid, ar_ArtifactType = ''report'', ar_Filename = ''report.html'', ar_Path = ''report.html'', ar_SizeBytes = 6\<rparr>))"
  by (simp add: make_reports_def plain_analysis_def)

definition with_stores :: "run_manager \<Rightarrow> run_manager" where
  "with_stores rm = SetArtifactStore True (SetTelemetryStore True rm)"

lemma with_stores_reachable: "reachable E rm \<Longrightarrow> reachable E (with_stores rm)"
  unfolding with_stores_def
  by (erule reachable_run) (meson rm_step.set_telemetry rm_step.set_artifacts converse_rtranclp_into_rtranclp r_into_rtranclp)

lemma with_stores_parts: "rm_hasTelemetry (with_stores rm)" "rm_hasArtifacts (with_stores rm)" "rm_runs (with_stores rm) = rm_runs rm"
  by (simp_all add: with_stores_def SetArtifactStore_def SetTelemetryStore_def)

definition small_running :: run_manager where
  "small_running = snd (start_commit small_id ''exe'' ''user'' small_created)"

lemma small_running_reachable: "reachable plain_env small_running"
  unfolding small_running_def by (rule reachable_run [OF small_created_reachable], rule r_into_rtranclp, rule rm_step.start)

lemma small_running_run: "\<exists>r. get_run small_running small_id = Some r \<and> isRunningState (rr_State r)"
  using small_created_run by (auto simp: small_running_def start_commit_def frames Let_def)

lemma small_running_stores: "stores small_running = (False, False)"
proof -
  have "stores small_running = stores small_created" by (simp add: small_running_def start_commit_def Let_def split: option.split)
  then show ?thesis by (simp add: stores_def small_created_parts)
qed

definition sched_ramping :: run_manager where
  "sched_ramping = snd (stage_enter RunStateBaselineRunning RunStateRampRunning ''transition to ramp'' small_id
     (snd (baseline_enter small_id ''user'' (snd (start_commit small_id ''exe'' ''user'' sched_created)))))"

lemma sched_ramping_reachable: "reachable plain_env sched_ramping"
  unfolding sched_ramping_def
  by (rule reachable_run [OF sched_created_reachable])
    (meson rm_step.start rm_step.baseline rm_step.ramp_enter converse_rtranclp_into_rtranclp r_into_rtranclp)

lemma sched_ramping_state: "state_of sched_ramping small_id = Some RunStateRampRunning"
proof -
  obtain r where "get_run sched_created small_id = Some r" "rr_State r = RunStateCreated"
    using small_created_run by (auto simp: sched_created_def SetAssignmentSender_def SetScheduler_def)
  then show ?thesis
    by (simp add: sched_ramping_def stage_enter_def baseline_enter_def start_commit_def CanTransition_def state_of_def frames Let_def)
qed

lemma ready_frames [simp]: "scheduler_ready (upd_run rid f rm) = scheduler_ready rm" "scheduler_ready (appendEventWithLog rid e rm) = scheduler_ready rm"
  by (simp_all add: scheduler_ready_def upd_run_def appendEventWithLog_def case_prod_unfold Let_def split: option.split)

lemma sched_ramping_parts: "rm_registry sched_ramping = rm_registry sched_created" "rm_leases sched_ramping = rm_leases sched_created"
  "scheduler_ready sched_ramping = scheduler_ready sched_created"
proof -
  have "sched_of sched_ramping = sched_of sched_created" by (simp only: sched_ramping_def sched_sections)
  then show "rm_registry sched_ramping = rm_registry sched_created" "rm_leases sched_ramping = rm_leases sched_created" by simp_all
  have "scheduler_ready (snd (start_commit rid exe actor rm)) = scheduler_ready rm"
    "scheduler_ready (snd (baseline_enter rid actor rm)) = scheduler_ready rm"
    "scheduler_ready (snd (stage_enter s t op rid rm)) = scheduler_ready rm" for rid exe actor s t op rm
    by (simp_all add: start_commit_def baseline_enter_def stage_enter_def Let_def split: option.split)
  then show "scheduler_ready sched_ramping = scheduler_ready sched_created" by (simp only: sched_ramping_def)
qed

definition big_ramp :: parsedStage where
  "big_ramp = sample_stage ''r'' ''ramp'' 1000 \<lparr>ld_TargetVUs = 30, ld_StartVUs = 5, ld_RampSteps = 5, ld_StepHoldMs = 0\<rparr>"

section \<open>Properties\<close>


text \<open>C20: where finalizing a stopping run ends when nothing disturbs it. Without a telemetry store or an artifact
  store the run is completed; otherwise it is analyzed: it fails when a step of the analysis fails or the deadline
  passes, stays in \<open>analyzing\<close> when the server shuts down meanwhile, and else is completed, or aborted when the stop was an
  emergency stop.\<close>
theorem finalization_outcome:
  assumes "reachable E rm" and "get_run rm rid = Some r" and "rr_State r = RunStateStopping"
  shows "state_of (finalizeRun chosen A rid d actor rm) rid = Some
     (if rm_hasTelemetry rm \<and> rm_hasArtifacts rm then analysis_state chosen A r else RunStateCompleted)"
proof -
  have "rr_RunID r = rid" using reachable_inv [OF assms(1)] assms(2) by (auto simp: rm_inv_def runs_inv_def run_wf_def)
  with assms(2,3) show ?thesis by (simp add: finalize_state)
qed

theorem finalization_outcome_witness:
  "state_of small_stopping small_id = Some RunStateStopping \<and>
   state_of (finalizeRun AnalysisDone plain_analysis small_id 30000 ''user'' (with_stores small_stopping)) small_id = Some RunStateCompleted"
proof -
  obtain r where r: "get_run small_stopping small_id = Some r" "rr_State r = RunStateStopping"
      "rr_StopReason r = Some \<lparr>sr_Mode = StopModeDrain, sr_Reason = ''stop_requested'', sr_Actor = ''user'', sr_AtMs = int (now_ms small_started)\<rparr>"
    using small_started_run
    by (auto simp: small_stopping_def RequestStop_def request_stop_get CanTransition_def stop_record_def quiet_record_def with_drain_def)
  have "analysis_outcome r = (RunStateCompleted, ''analysis_completed'')" using r(3) by (simp add: analysis_outcome_def)
  moreover have "\<not> an_ctxErr plain_analysis 0" by (simp add: plain_analysis_def)
  ultimately have "analysis_state AnalysisDone plain_analysis r = RunStateCompleted" by (simp add: analysis_state_def plain_reports)
  with finalization_outcome [OF with_stores_reachable [OF small_stopping_reachable], of small_id r AnalysisDone plain_analysis 30000 "''user''"] r
  show ?thesis by (simp add: with_stores_parts) (simp add: state_of_def)
qed

text \<open>C22: the numbers of a ramp. It starts with at least one virtual user, never exceeds its target, the configured
  number or the hard cap, and never goes down from step to step; but because the increment is an integer quotient, the
  last step falls short of the target by the remainder of the division, unless there are fewer users to add than
  steps.\<close>
theorem ramp_plan_bounds:
  assumes "plan_ramp stage cfg = Some p"
  shows "1 \<le> rp_start p \<and> rp_target p \<le> ld_TargetVUs (st_Load stage)
    \<and> (0 < hc_MaxVUs (sf_HardCaps (cf_Safety cfg)) \<longrightarrow> rp_target p \<le> hc_MaxVUs (sf_HardCaps (cf_Safety cfg)))
    \<and> (\<forall>i j. 0 \<le> i \<longrightarrow> i \<le> j \<longrightarrow> rp_start p \<le> next_vus p i \<and> next_vus p i \<le> next_vus p j \<and> next_vus p j \<le> rp_target p)
    \<and> next_vus p (rp_steps p) = rp_target p -
        (if rp_target p - rp_start p < rp_steps p then 0 else (rp_target p - rp_start p) mod rp_steps p)"
proof -
  note p = plan_ramp_Some [OF assms]
  have "rp_start p \<le> next_vus p i \<and> next_vus p i \<le> next_vus p j \<and> next_vus p j \<le> rp_target p" if "0 \<le> i" "i \<le> j" for i j
  proof -
    have "rp_increment p * i \<le> rp_increment p * j" "0 \<le> rp_increment p * i" using that p(7) by (simp_all add: mult_left_mono)
    then show ?thesis using p(4) by (simp add: next_vus_min)
  qed
  with p next_vus_last [OF assms] show ?thesis by (auto simp: capped_target_def split: if_splits)
qed

theorem ramp_plan_bounds_witness:
  "\<exists>p. plan_ramp (sample_stage ''r'' ''ramp'' 1000 \<lparr>ld_TargetVUs = 10, ld_StartVUs = 1, ld_RampSteps = 5, ld_StepHoldMs = 0\<rparr>)
     zero_config = Some p \<and> rp_target p = 10 \<and> next_vus p (rp_steps p) = 6"
proof -
  let ?s = "sample_stage ''r'' ''ramp'' 1000 \<lparr>ld_TargetVUs = 10, ld_StartVUs = 1, ld_RampSteps = 5, ld_StepHoldMs = 0\<rparr>"
  let ?p = "\<lparr>rp_start = 1, rp_target = 10, rp_steps = 5, rp_hold = 200, rp_increment = 1\<rparr>"
  have p: "plan_ramp ?s zero_config = Some ?p"
    by (simp add: plan_ramp_def sample_stage_def zero_stage_def capped_target_def zero_config_def
        go_div_def Let_def)
  from ramp_plan_bounds [OF p] have "next_vus ?p (rp_steps ?p) = 6" by simp
  with p show ?thesis by simp
qed

text \<open>C21: an emergency stop of a running run, finalized without disturbance by an analysis that succeeds, ends in
  \<open>aborted\<close> only when the server has both stores; without them the run is completed.\<close>
theorem emergency_stop_ends:
  assumes "reachable E rm" and "get_run rm rid = Some r" and "isRunningState (rr_State r)"
    and "\<not> an_ctxErr A 0" and "make_reports A rid (rr_ScenarioID r) = Some (Inr reports)"
  shows "state_of (finalizeRun AnalysisDone A rid 0 actor (snd (EmergencyStop rid actor rm))) rid = Some
     (if rm_hasTelemetry rm \<and> rm_hasArtifacts rm then RunStateAborted else RunStateCompleted)"
proof -
  let ?rm = "snd (EmergencyStop rid actor rm)"
  have id: "rr_RunID r = rid" using reachable_inv [OF assms(1)] assms(2) by (auto simp: rm_inv_def runs_inv_def run_wf_def)
  obtain r' where r': "get_run ?rm rid = Some r'" "rr_State r' = RunStateStopping" "rr_RunID r' = rid"
      "rr_ScenarioID r' = rr_ScenarioID r" "map_option sr_Reason (rr_StopReason r') = Some ''emergency_stop''"
    using assms(3) id emergency_get [OF assms(2), of actor]
    by (cases "rr_State r") (auto simp: Let_def stop_record_def clear_progression_def CanTransition_def)
  have st: "rm_hasTelemetry ?rm = rm_hasTelemetry rm" "rm_hasArtifacts ?rm = rm_hasArtifacts rm"
    using emergency_stores [of rid actor rm] by (simp_all add: stores_def)
  have "analysis_state AnalysisDone A r' = RunStateAborted"
    using assms(4,5) r'(3-5) by (auto simp: analysis_state_def analysis_outcome_def)
  with finalize_state [OF r'(1,3,2), of AnalysisDone A 0 actor] st show ?thesis by simp
qed

theorem emergency_stop_ends_witness:
  "state_of (finalizeRun AnalysisDone plain_analysis small_id 0 ''user''
      (snd (EmergencyStop small_id ''user'' (with_stores small_running)))) small_id = Some RunStateAborted
   \<and> state_of (finalizeRun AnalysisDone plain_analysis small_id 0 ''user''
      (snd (EmergencyStop small_id ''user'' small_running))) small_id = Some RunStateCompleted"
proof -
  obtain r where r: "get_run small_running small_id = Some r" "isRunningState (rr_State r)" using small_running_run by blast
  have ok: "\<not> an_ctxErr plain_analysis 0" by (simp add: plain_analysis_def)
  have no: "\<not> rm_hasTelemetry small_running" using small_running_stores by (simp add: stores_def)
  have "get_run (with_stores small_running) small_id = Some r" using r(1) by (simp add: with_stores_parts)
  from emergency_stop_ends [OF with_stores_reachable [OF small_running_reachable] this r(2) ok plain_reports, of "''user''"]
    emergency_stop_ends [OF small_running_reachable r ok plain_reports, of "''user''"] no
  show ?thesis by (simp only: with_stores_parts if_True if_False simp_thms)
qed

text \<open>C23: a ramp that nothing disturbs. When the workers together offer at least the first step and the increment, then
  after the last step exactly the virtual users below the last number of the plan have an owner. What the workers offer
  is compared with each step alone, not with the users they already run.\<close>
theorem ramp_covers:
  assumes "reachable E rm" and "control_plane E" and "capacities_ok (rm_registry rm)" and "\<not> reg_closed (rm_registry rm)"
    and "\<not> lm_closed (rm_leases rm)" and "scheduler_ready rm" and "state_of rm rid = Some RunStateRampRunning"
    and "plan_ramp stage cfg = Some p" and "rp_start p \<le> offered (rm_registry rm)" and "rp_increment p \<le> offered (rm_registry rm)"
    and "\<forall>v. owner (rm_leases rm) rid (st_StageID stage) v = None"
  shows "owner (rm_leases (ramp_loop E rid exe stage cfg p (replicate (nat (rp_steps p)) True) 1 (rp_start p)
      (startAutoRamp E rid exe stage cfg rm))) rid (st_StageID stage) v \<noteq> None \<longleftrightarrow> 0 \<le> v \<and> v < next_vus p (rp_steps p)"
proof -
  let ?sid = "st_StageID stage" and ?r = "rm_registry rm"
  let ?rm2 = "emitRampStepEvent rid exe 0 (rp_start p) (rp_target p) ''ramp_started'' (snd (install_ramp rid rm))"
  let ?rm3 = "dispatchRampAssignments E rid exe stage cfg (rp_start p) 0 ?rm2"
  note p = plan_ramp_Some [OF assms(8)]
  have inv: "registry_inv ?r" "lease_good (rm_leases rm)"
    using reachable_inv [OF assms(1)] assms(5) by (simp_all add: rm_inv_def sched_inv_def lease_good_def)
  have "ramped rid ?sid ?r 0 rm"
    using assms(6,7,11) inv(2) reachable_clock [OF assms(1)] by (simp add: ramped_def)
  moreover have "ramped rid ?sid ?r 0 (snd (install_ramp rid rm)) = ramped rid ?sid ?r 0 rm"
    by (rule ramped_view)
      (auto simp: install_ramp_def new_ctx_def upd_run_def scheduler_ready_def state_of_def Let_def option.map_comp comp_def)
  ultimately have "ramped rid ?sid ?r 0 ?rm2" using ramped_view [OF emit_ramp_view] by metis
  then have "ramped rid ?sid ?r (0 + rp_start p) ?rm3"
    using p(3) by (intro ramped_dispatch [OF assms(2) inv(1) assms(3,4,9)]) simp_all
  moreover have "next_vus p 0 = rp_start p" using p(4) by (simp add: next_vus_min)
  moreover have "ramped rid ?sid ?r n (spawn g ?rm3) = ramped rid ?sid ?r n ?rm3" for n g
    by (rule ramped_view) (simp_all add: spawn_def scheduler_ready_def state_of_def)
  ultimately have "ramped rid ?sid ?r (next_vus p (1 - 1)) (startAutoRamp E rid exe stage cfg rm)"
    using assms(8) by (simp add: startAutoRamp_def case_prod_unfold Let_def)
  from ramp_loop_ramped [OF assms(2) inv(1) assms(3,4,10) p(3,4) _ _ _ this, of "nat (rp_steps p)" exe] p(4,5,7)
  have "ramped rid ?sid ?r (next_vus p (rp_steps p)) (ramp_loop E rid exe stage cfg p (replicate (nat (rp_steps p)) True) 1 (rp_start p)
      (startAutoRamp E rid exe stage cfg rm))" by (simp add: next_vus_min)
  then show ?thesis by (simp only: ramped_def)
qed

theorem ramp_covers_witness:
  "\<exists>p. plan_ramp big_ramp zero_config = Some p \<and> offered sched_registry = 10
     \<and> owner (rm_leases (ramp_loop plain_env small_id ''exe'' big_ramp zero_config p (replicate 5 True) 1 5
         (startAutoRamp plain_env small_id ''exe'' big_ramp zero_config sched_ramping))) small_id ''r'' 29 \<noteq> None"
proof -
  let ?p = "\<lparr>rp_start = 5, rp_target = 30, rp_steps = 5, rp_hold = 200, rp_increment = 5\<rparr>"
  have p: "plan_ramp big_ramp zero_config = Some ?p"
    by (simp add: big_ramp_def plan_ramp_def sample_stage_def zero_stage_def capped_target_def zero_config_def go_div_def Let_def)
  have o: "offered sched_registry = 10"
    by (simp add: offered_def ListWorkers_def sched_registry_def RegisterWorker_def NewRegistry_def generateWorkerID_def
        total_capacity_def wrap64_def Let_def)
  have c: "\<not> reg_closed sched_registry"
    by (simp add: sched_registry_def RegisterWorker_def NewRegistry_def generateWorkerID_def Let_def)
  have r: "st_StageID big_ramp = ''r''" by (simp add: big_ramp_def sample_stage_def)
  from ramp_covers [OF sched_ramping_reachable plain.control_plane_axioms _ _ _ _ sched_ramping_state p, of "''exe''" 29]
  show ?thesis using p o c
    by (simp add: sched_ramping_parts sched_created_parts r NewLeaseManager_def owner_None next_vus_def)
qed

end
