(* ===== verification/Api_Telemetry.thy ===== *)
theory Api_Telemetry
  imports Run_Analysis
begin

text \<open>
  The telemetry store of the API server (\<^verbatim>\<open>internal/controlplane/api/telemetry_store.go\<close>, with the data of
  \<^verbatim>\<open>internal/types/outcome.go\<close> and \<^verbatim>\<open>api/types.go\<close>): what the workers report, kept per run within limits,
  and the queries of the analysis, of the log endpoint and of the retention manager. \<open>srt\<close> is \<^verbatim>\<open>sort.Slice\<close> by
  time stamp: any sorter that meets the contract of the library. A nil pointer is \<open>None\<close>.
\<close>

section \<open>Data\<close>

record StreamInfo =
  si_IsStreaming :: bool
  si_EventsCount :: int
  si_EndedNormally :: bool
  si_Stalled :: bool
  si_StallDurationMs :: int

record OperationOutcome =
  oo_OpID :: string
  oo_Operation :: string
  oo_ToolName :: string
  oo_LatencyMs :: int
  oo_OK :: bool
  oo_ErrorType :: string
  oo_ErrorCode :: string
  oo_HTTPStatus :: int
  oo_TimestampMs :: int
  oo_Stream :: "StreamInfo option"
  oo_WorkerID :: string
  oo_ExecutionID :: string
  oo_Stage :: string
  oo_StageID :: string
  oo_VUID :: string
  oo_SessionID :: string
  oo_TokenIndex :: "int option"

record TelemetryBatchRequest =
  tb_RunID :: string
  tb_Operations :: "OperationOutcome list"
  tb_Health :: "WorkerHealth option"

record OperationLog =
  ol_TimestampMs :: int
  ol_RunID :: string
  ol_ExecutionID :: string
  ol_Stage :: string
  ol_StageID :: string
  ol_WorkerID :: string
  ol_VUID :: string
  ol_SessionID :: string
  ol_Operation :: string
  ol_ToolName :: string
  ol_LatencyMs :: int
  ol_OK :: bool
  ol_ErrorType :: string
  ol_ErrorCode :: string
  ol_Stream :: "StreamInfo option"
  ol_TokenIndex :: "int option"

record LogFilters =
  lf_Stage :: string
  lf_StageID :: string
  lf_WorkerID :: string
  lf_VUID :: string
  lf_SessionID :: string
  lf_Operation :: string
  lf_ToolName :: string
  lf_ErrorType :: string
  lf_ErrorCode :: string
  lf_TokenIndex :: "int option"
  lf_Limit :: int
  lf_Offset :: int
  lf_Order :: string

record TelemetryStoreConfig =
  tc_MaxOperationsPerRun :: int
  tc_MaxLogsPerRun :: int
  tc_MaxTotalRuns :: int

record runTelemetry =
  rt_runID :: string
  rt_scenarioID :: string
  rt_startTimeMs :: int
  rt_endTimeMs :: int
  rt_stopReason :: string
  rt_operations :: "OperationResult list"
  rt_logs :: "OperationLog list"
  rt_logsSorted :: bool
  rt_operationsTruncated :: bool
  rt_logsTruncated :: bool

record TelemetryStore =
  ts_runs :: "(string, runTelemetry) gomap"
  ts_config :: TelemetryStoreConfig
  ts_runOrder :: "string list"

definition DefaultTelemetryStoreConfig :: TelemetryStoreConfig where
  "DefaultTelemetryStoreConfig =
     \<lparr>tc_MaxOperationsPerRun = 20000000, tc_MaxLogsPerRun = 20000000, tc_MaxTotalRuns = 100\<rparr>"

definition NewTelemetryStoreWithConfig :: "TelemetryStoreConfig option \<Rightarrow> TelemetryStore" where
  "NewTelemetryStoreWithConfig config =
     \<lparr>ts_runs = [], ts_config = (case config of None \<Rightarrow> DefaultTelemetryStoreConfig | Some c \<Rightarrow> c), ts_runOrder = []\<rparr>"

definition NewTelemetryStore :: TelemetryStore where
  "NewTelemetryStore = NewTelemetryStoreWithConfig (Some DefaultTelemetryStoreConfig)"

section \<open>Adding telemetry\<close>

text \<open>The loop of \<^verbatim>\<open>evictIfNeeded\<close>, over the runs and the order in which they came.\<close>

fun evict_loop :: "int \<Rightarrow> (string, runTelemetry) gomap \<Rightarrow> string list \<Rightarrow> (string, runTelemetry) gomap \<times> string list" where
  "evict_loop limit runs [] = (runs, [])"
| "evict_loop limit runs (oldestID # order) =
     (if int (length runs) \<ge> limit then evict_loop limit (map_del oldestID runs) order else (runs, oldestID # order))"

definition evictIfNeeded :: "TelemetryStore \<Rightarrow> TelemetryStore" where
  "evictIfNeeded ts =
     (if tc_MaxTotalRuns (ts_config ts) \<le> 0 then ts
      else let (runs, order) = evict_loop (tc_MaxTotalRuns (ts_config ts)) (ts_runs ts) (ts_runOrder ts)
           in ts\<lparr>ts_runs := runs, ts_runOrder := order\<rparr>)"

definition new_runTelemetry :: "string \<Rightarrow> runTelemetry" where
  "new_runTelemetry runID =
     \<lparr>rt_runID = runID, rt_scenarioID = [], rt_startTimeMs = 0, rt_endTimeMs = 0, rt_stopReason = [],
      rt_operations = [], rt_logs = [], rt_logsSorted = True, rt_operationsTruncated = False, rt_logsTruncated = False\<rparr>"

text \<open>The store with the entry; the pointer the code returns is the entry of the map.\<close>

definition getOrCreateRunTelemetry :: "string \<Rightarrow> TelemetryStore \<Rightarrow> TelemetryStore" where
  "getOrCreateRunTelemetry runID ts =
     (if map_get (ts_runs ts) runID \<noteq> None then ts
      else let ts1 = evictIfNeeded ts
           in ts1\<lparr>ts_runs := map_put runID (new_runTelemetry runID) (ts_runs ts1), ts_runOrder := ts_runOrder ts1 @ [runID]\<rparr>)"

definition result_of :: "OperationOutcome \<Rightarrow> OperationResult" where
  "result_of op = \<lparr>or_Operation = oo_Operation op, or_ToolName = oo_ToolName op, or_LatencyMs = oo_LatencyMs op,
     or_OK = oo_OK op, or_ErrorType = oo_ErrorType op, or_SessionID = oo_SessionID op\<rparr>"

definition log_of :: "string \<Rightarrow> OperationOutcome \<Rightarrow> OperationLog" where
  "log_of runID op =
     \<lparr>ol_TimestampMs = oo_TimestampMs op, ol_RunID = runID, ol_ExecutionID = oo_ExecutionID op, ol_Stage = oo_Stage op,
      ol_StageID = oo_StageID op, ol_WorkerID = oo_WorkerID op, ol_VUID = oo_VUID op, ol_SessionID = oo_SessionID op,
      ol_Operation = oo_Operation op, ol_ToolName = oo_ToolName op, ol_LatencyMs = oo_LatencyMs op, ol_OK = oo_OK op,
      ol_ErrorType = oo_ErrorType op, ol_ErrorCode = oo_ErrorCode op, ol_Stream = oo_Stream op, ol_TokenIndex = oo_TokenIndex op\<rparr>"

text \<open>The body of the loop of \<^verbatim>\<open>AddTelemetryBatch\<close>: the times, the result, the log entry.\<close>

definition add_times :: "OperationOutcome \<Rightarrow> runTelemetry \<Rightarrow> runTelemetry" where
  "add_times op rt =
     (let ts = oo_TimestampMs op;
          rt1 = (if rt_startTimeMs rt = 0 \<or> ts < rt_startTimeMs rt then rt\<lparr>rt_startTimeMs := ts\<rparr> else rt)
      in if ts > rt_endTimeMs rt1 then rt1\<lparr>rt_endTimeMs := ts\<rparr> else rt1)"

definition add_result :: "TelemetryStoreConfig \<Rightarrow> OperationOutcome \<Rightarrow> runTelemetry \<Rightarrow> runTelemetry" where
  "add_result cfg op rt =
     (if tc_MaxOperationsPerRun cfg > 0 \<and> int (length (rt_operations rt)) \<ge> tc_MaxOperationsPerRun cfg
      then rt\<lparr>rt_operationsTruncated := True\<rparr>
      else rt\<lparr>rt_operations := rt_operations rt @ [result_of op]\<rparr>)"

definition add_log :: "TelemetryStoreConfig \<Rightarrow> string \<Rightarrow> OperationOutcome \<Rightarrow> runTelemetry \<Rightarrow> runTelemetry" where
  "add_log cfg runID op rt =
     (if tc_MaxLogsPerRun cfg > 0 \<and> int (length (rt_logs rt)) \<ge> tc_MaxLogsPerRun cfg
      then rt\<lparr>rt_logsTruncated := True\<rparr>
      else let entry = log_of runID op; logs = rt_logs rt @ [entry]
           in rt\<lparr>rt_logs := logs,
                 rt_logsSorted := rt_logsSorted rt \<and>
                   (length logs < 2 \<or> ol_TimestampMs (logs ! (length logs - 2)) \<le> ol_TimestampMs entry)\<rparr>)"

definition add_operation :: "TelemetryStoreConfig \<Rightarrow> string \<Rightarrow> OperationOutcome \<Rightarrow> runTelemetry \<Rightarrow> runTelemetry" where
  "add_operation cfg runID op rt = add_log cfg runID op (add_result cfg op (add_times op rt))"

definition sort_logs :: "(OperationLog list \<Rightarrow> OperationLog list) \<Rightarrow> runTelemetry \<Rightarrow> runTelemetry" where
  "sort_logs srt rt = (if rt_logsSorted rt then rt else rt\<lparr>rt_logs := srt (rt_logs rt), rt_logsSorted := True\<rparr>)"

definition AddTelemetryBatch :: "(OperationLog list \<Rightarrow> OperationLog list) \<Rightarrow> string \<Rightarrow> TelemetryBatchRequest \<Rightarrow> TelemetryStore \<Rightarrow> TelemetryStore" where
  "AddTelemetryBatch srt runID batch ts =
     (let ts1 = getOrCreateRunTelemetry runID ts
      in ts1\<lparr>ts_runs := map_upd runID (\<lambda>rt. sort_logs srt (fold (add_operation (ts_config ts1) runID) (tb_Operations batch) rt)) (ts_runs ts1)\<rparr>)"

definition with_context :: "string \<Rightarrow> string \<Rightarrow> string \<Rightarrow> string \<Rightarrow> OperationOutcome \<Rightarrow> OperationOutcome" where
  "with_context workerID stage stageID vuID op =
     (let op1 = (if oo_WorkerID op = [] then op\<lparr>oo_WorkerID := workerID\<rparr> else op);
          op2 = (if oo_Stage op1 = [] then op1\<lparr>oo_Stage := stage\<rparr> else op1);
          op3 = (if oo_StageID op2 = [] then op2\<lparr>oo_StageID := stageID\<rparr> else op2)
      in if oo_VUID op3 = [] \<and> vuID \<noteq> [] then op3\<lparr>oo_VUID := vuID\<rparr> else op3)"

definition AddTelemetryBatchWithContext :: "(OperationLog list \<Rightarrow> OperationLog list) \<Rightarrow> string \<Rightarrow> TelemetryBatchRequest
    \<Rightarrow> string \<Rightarrow> string \<Rightarrow> string \<Rightarrow> string \<Rightarrow> TelemetryStore \<Rightarrow> TelemetryStore" where
  "AddTelemetryBatchWithContext srt runID batch workerID stage stageID vuID ts =
     AddTelemetryBatch srt runID (batch\<lparr>tb_Operations := map (with_context workerID stage stageID vuID) (tb_Operations batch)\<rparr>) ts"

definition store_metadata :: "string \<Rightarrow> string \<Rightarrow> string \<Rightarrow> TelemetryStore \<Rightarrow> TelemetryStore" where
  "store_metadata runID scenarioID stopReason ts =
     (let ts1 = getOrCreateRunTelemetry runID ts
      in ts1\<lparr>ts_runs := map_upd runID (\<lambda>rt.
           let rt1 = (if scenarioID \<noteq> [] then rt\<lparr>rt_scenarioID := scenarioID\<rparr> else rt)
           in if stopReason \<noteq> [] then rt1\<lparr>rt_stopReason := stopReason\<rparr> else rt1) (ts_runs ts1)\<rparr>)"

definition DeleteRun :: "string \<Rightarrow> TelemetryStore \<Rightarrow> TelemetryStore" where
  "DeleteRun runID ts = ts\<lparr>ts_runs := map_del runID (ts_runs ts), ts_runOrder := remove1 runID (ts_runOrder ts)\<rparr>"

section \<open>Queries\<close>

definition GetTelemetryData :: "string \<Rightarrow> TelemetryStore \<Rightarrow> string + TelemetryData" where
  "GetTelemetryData runID ts =
     (case map_get (ts_runs ts) runID of
        None \<Rightarrow> Inl (''telemetry not found for run: '' @ runID)
      | Some rt \<Rightarrow> Inr \<lparr>td_RunID = rt_runID rt, td_ScenarioID = rt_scenarioID rt, td_StartTimeMs = rt_startTimeMs rt,
          td_EndTimeMs = rt_endTimeMs rt, td_StopReason = rt_stopReason rt, td_Operations = rt_operations rt\<rparr>)"

definition GetOperationCount :: "string \<Rightarrow> TelemetryStore \<Rightarrow> nat" where
  "GetOperationCount runID ts = (case map_get (ts_runs ts) runID of None \<Rightarrow> 0 | Some rt \<Rightarrow> length (rt_operations rt))"

definition HasRun :: "string \<Rightarrow> TelemetryStore \<Rightarrow> bool" where
  "HasRun runID ts \<longleftrightarrow> map_get (ts_runs ts) runID \<noteq> None"

definition RunCount :: "TelemetryStore \<Rightarrow> nat" where
  "RunCount ts = length (ts_runs ts)"

definition telemetry_truncated :: "string \<Rightarrow> TelemetryStore \<Rightarrow> bool \<times> bool" where
  "telemetry_truncated runID ts =
     (case map_get (ts_runs ts) runID of None \<Rightarrow> (False, False) | Some rt \<Rightarrow> (rt_operationsTruncated rt, rt_logsTruncated rt))"

record RunRetentionInfo =
  ri_RunID :: string
  ri_EndTimeMs :: int

definition ListRunsForRetention :: "TelemetryStore \<Rightarrow> RunRetentionInfo list" where
  "ListRunsForRetention ts = map (\<lambda>(runID, rt). \<lparr>ri_RunID = runID, ri_EndTimeMs = rt_endTimeMs rt\<rparr>) (ts_runs ts)"

definition matchesFilters :: "LogFilters \<Rightarrow> OperationLog \<Rightarrow> bool" where
  "matchesFilters f entry \<longleftrightarrow>
     \<not> (lf_Stage f \<noteq> [] \<and> ol_Stage entry \<noteq> lf_Stage f) \<and> \<not> (lf_StageID f \<noteq> [] \<and> ol_StageID entry \<noteq> lf_StageID f)
     \<and> \<not> (lf_WorkerID f \<noteq> [] \<and> ol_WorkerID entry \<noteq> lf_WorkerID f) \<and> \<not> (lf_VUID f \<noteq> [] \<and> ol_VUID entry \<noteq> lf_VUID f)
     \<and> \<not> (lf_SessionID f \<noteq> [] \<and> ol_SessionID entry \<noteq> lf_SessionID f) \<and> \<not> (lf_Operation f \<noteq> [] \<and> ol_Operation entry \<noteq> lf_Operation f)
     \<and> \<not> (lf_ToolName f \<noteq> [] \<and> ol_ToolName entry \<noteq> lf_ToolName f) \<and> \<not> (lf_ErrorType f \<noteq> [] \<and> ol_ErrorType entry \<noteq> lf_ErrorType f)
     \<and> \<not> (lf_ErrorCode f \<noteq> [] \<and> ol_ErrorCode entry \<noteq> lf_ErrorCode f)
     \<and> (case lf_TokenIndex f of None \<Rightarrow> True | Some i \<Rightarrow> ol_TokenIndex entry = Some i)"

text \<open>The loop that collects a page; both directions of \<^verbatim>\<open>QueryLogs\<close> run it, one over the reversed slice.\<close>

fun page_loop :: "(OperationLog \<Rightarrow> bool) \<Rightarrow> int \<Rightarrow> int \<Rightarrow> int \<Rightarrow> OperationLog list \<Rightarrow> OperationLog list \<Rightarrow> OperationLog list" where
  "page_loop matches offset pageSize matched result [] = result"
| "page_loop matches offset pageSize matched result (entry # logs) =
     (if \<not> matches entry then page_loop matches offset pageSize matched result logs
      else
        let result1 = (if matched \<ge> offset \<and> int (length result) < pageSize then result @ [entry] else result)
        in if int (length result1) \<ge> pageSize then result1
           else page_loop matches offset pageSize (matched + 1) result1 logs)"

text \<open>None: \<^verbatim>\<open>make\<close> panics on a negative capacity.\<close>

definition QueryLogs :: "string \<Rightarrow> LogFilters \<Rightarrow> TelemetryStore \<Rightarrow> (string + OperationLog list \<times> int) option" where
  "QueryLogs runID f ts =
     (case map_get (ts_runs ts) runID of
        None \<Rightarrow> Some (Inl (''run not found: '' @ runID))
      | Some rt \<Rightarrow>
          let logs = rt_logs rt;
              total = int (length (filter (matchesFilters f) logs))
          in if lf_Offset f \<ge> total then Some (Inr ([], total))
             else
               let end0 = wrap64 (lf_Offset f + lf_Limit f);
                   end1 = (if end0 > total then total else end0);
                   pageSize = wrap64 (end1 - lf_Offset f)
               in if pageSize < 0 then None
                  else Some (Inr (page_loop (matchesFilters f) (lf_Offset f) pageSize 0 []
                         (if lf_Order f = ''asc'' then logs else rev logs), total)))"

section \<open>The invariant\<close>

definition log_time :: "OperationLog \<Rightarrow> int" where
  "log_time l = - ol_TimestampMs l"

abbreviation in_time_order :: "OperationLog list \<Rightarrow> bool" where
  "in_time_order \<equiv> sorted_wrt (\<lambda>a b. ol_TimestampMs a \<le> ol_TimestampMs b)"

text \<open>One run: its limits, what the truncation flags say, and the order of its logs.\<close>

definition run_ok :: "TelemetryStoreConfig \<Rightarrow> string \<Rightarrow> runTelemetry \<Rightarrow> bool" where
  "run_ok cfg rid rt \<longleftrightarrow> rt_runID rt = rid
     \<and> (tc_MaxOperationsPerRun cfg > 0 \<longrightarrow> int (length (rt_operations rt)) \<le> tc_MaxOperationsPerRun cfg)
     \<and> (tc_MaxLogsPerRun cfg > 0 \<longrightarrow> int (length (rt_logs rt)) \<le> tc_MaxLogsPerRun cfg)
     \<and> (rt_operationsTruncated rt \<longrightarrow> 0 < tc_MaxOperationsPerRun cfg \<and> int (length (rt_operations rt)) = tc_MaxOperationsPerRun cfg)
     \<and> (rt_logsTruncated rt \<longrightarrow> 0 < tc_MaxLogsPerRun cfg \<and> int (length (rt_logs rt)) = tc_MaxLogsPerRun cfg)
     \<and> (\<forall>l \<in> set (rt_logs rt). ol_RunID l = rid)"

definition logs_ok :: "runTelemetry \<Rightarrow> bool" where
  "logs_ok rt \<longleftrightarrow> (rt_logsSorted rt \<longrightarrow> in_time_order (rt_logs rt))"

definition store_inv :: "TelemetryStore \<Rightarrow> bool" where
  "store_inv ts \<longleftrightarrow> keys_distinct (ts_runs ts) \<and> distinct (ts_runOrder ts) \<and> set (ts_runOrder ts) = fst ` set (ts_runs ts)
     \<and> (tc_MaxTotalRuns (ts_config ts) > 0 \<longrightarrow> int (length (ts_runs ts)) \<le> tc_MaxTotalRuns (ts_config ts))
     \<and> (\<forall>(rid, rt) \<in> set (ts_runs ts). run_ok (ts_config ts) rid rt \<and> rt_logsSorted rt \<and> in_time_order (rt_logs rt))"

lemma add_times_parts: "rt_runID (add_times op rt) = rt_runID rt" "rt_operations (add_times op rt) = rt_operations rt"
  "rt_logs (add_times op rt) = rt_logs rt" "rt_logsSorted (add_times op rt) = rt_logsSorted rt"
  "rt_operationsTruncated (add_times op rt) = rt_operationsTruncated rt" "rt_logsTruncated (add_times op rt) = rt_logsTruncated rt"
  by (simp_all add: add_times_def Let_def)

lemma in_time_order_snoc: "in_time_order (ls @ [l]) \<longleftrightarrow> in_time_order ls \<and> (ls = [] \<or> ol_TimestampMs (last ls) \<le> ol_TimestampMs l)"
proof (induction ls)
  case (Cons a ls)
  show ?case
  proof (cases "ls = []")
    case False
    then have "last ls \<in> set ls" by simp
    with Cons False show ?thesis by (auto intro: order.trans)
  qed simp
qed simp

lemma add_log_keeps: "run_ok cfg rid rt \<Longrightarrow> run_ok cfg rid (add_log cfg rid op rt)" "logs_ok rt \<Longrightarrow> logs_ok (add_log cfg rid op rt)"
proof -
  show "run_ok cfg rid rt \<Longrightarrow> run_ok cfg rid (add_log cfg rid op rt)"
    by (auto simp: run_ok_def add_log_def log_of_def Let_def)
  have "(rt_logs rt @ [log_of rid op]) ! (length (rt_logs rt @ [log_of rid op]) - 2) = last (rt_logs rt)" if "rt_logs rt \<noteq> []"
    using that by (simp add: nth_append last_conv_nth)
  then show "logs_ok rt \<Longrightarrow> logs_ok (add_log cfg rid op rt)"
    by (cases "rt_logs rt = []") (simp_all add: logs_ok_def add_log_def in_time_order_snoc Let_def)
qed

lemma add_result_keeps: "run_ok cfg rid rt \<Longrightarrow> run_ok cfg rid (add_result cfg op rt)" "logs_ok (add_result cfg op rt) = logs_ok rt"
  by (auto simp: run_ok_def logs_ok_def add_result_def)

lemma add_times_keeps: "run_ok cfg rid (add_times op rt) = run_ok cfg rid rt" "logs_ok (add_times op rt) = logs_ok rt"
  by (simp_all add: run_ok_def logs_ok_def add_times_parts)

lemma add_operations_keep: "run_ok cfg rid rt \<Longrightarrow> logs_ok rt \<Longrightarrow>
    run_ok cfg rid (fold (add_operation cfg rid) ops rt) \<and> logs_ok (fold (add_operation cfg rid) ops rt)"
  by (induction ops arbitrary: rt) (simp_all add: add_operation_def add_log_keeps add_result_keeps add_times_keeps)

lemma sort_logs_sorts:
  assumes "slice_sorter log_time srt" and "run_ok cfg rid rt" and "logs_ok rt"
  shows "run_ok cfg rid (sort_logs srt rt) \<and> rt_logsSorted (sort_logs srt rt) \<and> in_time_order (rt_logs (sort_logs srt rt))"
proof -
  have m: "mset (srt ls) = mset ls" and o: "in_time_order (srt ls)" for ls
    using assms(1) by (simp_all add: slice_sorter_def log_time_def)
  have "set (srt ls) = set ls" "length (srt ls) = length ls" for ls using m [of ls] by (metis set_mset_mset, metis size_mset)
  with assms(2,3) o show ?thesis by (auto simp: sort_logs_def run_ok_def logs_ok_def)
qed

lemma evict_loop_runs:
  assumes "evict_loop limit runs order = (runs', order')" and "keys_distinct runs" and "distinct order" and "set order = fst ` set runs"
  shows "keys_distinct runs' \<and> distinct order' \<and> set order' = fst ` set runs' \<and> set runs' \<subseteq> set runs
    \<and> (0 < limit \<longrightarrow> int (length runs') < limit) \<and> (\<exists>gone. order = gone @ order')"
  using assms
proof (induction limit runs order rule: evict_loop.induct)
  case (1 limit runs)
  then show ?case by auto
next
  case (2 limit runs oldestID order)
  show ?case
  proof (cases "int (length runs) \<ge> limit")
    case True
    have "fst ` set (map_del oldestID runs) = fst ` set runs - {oldestID}" by (force simp: map_del_filter)
    then have "set order = fst ` set (map_del oldestID runs)" using "2.prems"(3,4) by auto
    moreover have "set (map_del oldestID runs) \<subseteq> set runs" by (auto simp: AList.delete_eq)
    ultimately show ?thesis using "2.IH" [OF True] "2.prems" True by (auto simp: keys_distinct_del) 
  qed (use 2 in auto)
qed

lemma evict_inv:
  assumes "store_inv ts"
  shows "store_inv (evictIfNeeded ts) \<and> set (ts_runs (evictIfNeeded ts)) \<subseteq> set (ts_runs ts)
    \<and> (tc_MaxTotalRuns (ts_config ts) > 0 \<longrightarrow> int (length (ts_runs (evictIfNeeded ts))) < tc_MaxTotalRuns (ts_config ts))
    \<and> ts_config (evictIfNeeded ts) = ts_config ts"
proof (cases "tc_MaxTotalRuns (ts_config ts) \<le> 0")
  case False
  obtain runs order where e: "evict_loop (tc_MaxTotalRuns (ts_config ts)) (ts_runs ts) (ts_runOrder ts) = (runs, order)" by fastforce
  from evict_loop_runs [OF e] assms False e show ?thesis by (auto simp: store_inv_def evictIfNeeded_def)
qed (use assms in \<open>auto simp: evictIfNeeded_def\<close>)

lemma map_put_new: "map_get m k = None \<Longrightarrow> map_put k v m = m @ [(k, v)]"
  by (induction m) (auto split: if_splits)

lemma create_inv:
  assumes "store_inv ts"
  shows "store_inv (getOrCreateRunTelemetry rid ts)"
proof (cases "map_get (ts_runs ts) rid")
  case None
  let ?ts = "evictIfNeeded ts"
  note ev = evict_inv [OF assms]
  then have none: "map_get (ts_runs ?ts) rid = None"
    using None by (metis map_of_eq_None_iff image_mono subsetD)
  then have put: "map_put rid rt (ts_runs ?ts) = ts_runs ?ts @ [(rid, rt)]" for rt by (rule map_put_new)
  from none have "rid \<notin> fst ` set (ts_runs ?ts)" by (simp add: map_of_eq_None_iff)
  moreover have "run_ok c rid (new_runTelemetry rid) \<and> rt_logsSorted (new_runTelemetry rid) \<and> in_time_order (rt_logs (new_runTelemetry rid))" for c
    by (simp add: run_ok_def new_runTelemetry_def)
  ultimately show ?thesis using ev None
    by (auto simp: getOrCreateRunTelemetry_def Let_def store_inv_def put keys_distinct_def)
qed (use assms in \<open>simp add: getOrCreateRunTelemetry_def\<close>)

lemma store_upd_inv:
  assumes "store_inv ts" and "\<And>rt. map_get (ts_runs ts) rid = Some rt \<Longrightarrow> run_ok (ts_config ts) rid rt \<Longrightarrow> rt_logsSorted rt \<Longrightarrow>
      in_time_order (rt_logs rt) \<Longrightarrow> run_ok (ts_config ts) rid (f rt) \<and> rt_logsSorted (f rt) \<and> in_time_order (rt_logs (f rt))"
  shows "store_inv (ts\<lparr>ts_runs := map_upd rid f (ts_runs ts)\<rparr>)"
proof -
  have d: "keys_distinct (ts_runs ts)" using assms(1) by (simp add: store_inv_def)
  have "run_ok (ts_config ts) k rt \<and> rt_logsSorted rt \<and> in_time_order (rt_logs rt)" if "(k, rt) \<in> set (map_upd rid f (ts_runs ts))" for k rt
  proof -
    from that d have g: "map_get (map_upd rid f (ts_runs ts)) k = Some rt" by (simp only: get_iff_mem keys_distinct_upd)
    have ok: "map_get (ts_runs ts) k = Some rt' \<Longrightarrow> run_ok (ts_config ts) k rt' \<and> rt_logsSorted rt' \<and> in_time_order (rt_logs rt')" for rt'
      using assms(1) d by (auto simp: store_inv_def get_iff_mem)
    from g ok assms(2) show ?thesis by (auto split: if_splits)
  qed
  moreover have "length (map_upd rid f (ts_runs ts)) = length (ts_runs ts)" "fst ` set (map_upd rid f (ts_runs ts)) = fst ` set (ts_runs ts)"
    using fst_upd [of rid f "ts_runs ts"] by (metis length_map, metis list.set_map)
  ultimately show ?thesis using assms(1) by (auto simp: store_inv_def)
qed

inductive store_step :: "TelemetryStore \<Rightarrow> TelemetryStore \<Rightarrow> bool" where
  batch: "slice_sorter log_time srt \<Longrightarrow> store_step ts (AddTelemetryBatch srt rid b ts)"
| context_batch: "slice_sorter log_time srt \<Longrightarrow> store_step ts (AddTelemetryBatchWithContext srt rid b w s sid v ts)"
| metadata: "store_step ts (store_metadata rid sid why ts)"
| delete: "store_step ts (DeleteRun rid ts)"

lemma sorted_logs_ok: "in_time_order (rt_logs rt) \<Longrightarrow> logs_ok rt"
  by (simp add: logs_ok_def)

lemma batch_inv: "slice_sorter log_time srt \<Longrightarrow> store_inv ts \<Longrightarrow> store_inv (AddTelemetryBatch srt rid b ts)"
  unfolding AddTelemetryBatch_def Let_def
  by (rule store_upd_inv [OF create_inv], assumption, rule sort_logs_sorts) (simp_all add: add_operations_keep sorted_logs_ok)

lemma delete_inv: "store_inv ts \<Longrightarrow> store_inv (DeleteRun rid ts)"
proof -
  assume inv: "store_inv ts"
  have "length (map_del rid (ts_runs ts)) \<le> length (ts_runs ts)" by (simp add: map_del_filter)
  moreover have "fst ` set (map_del rid (ts_runs ts)) = fst ` set (ts_runs ts) - {rid}" by (force simp: map_del_filter)
  moreover have "set (map_del rid (ts_runs ts)) \<subseteq> set (ts_runs ts)" by (auto simp: map_del_filter)
  ultimately show ?thesis using inv by (auto simp: store_inv_def DeleteRun_def keys_distinct_del)
qed

interpretation tst: kept_by_steps store_step store_inv
proof unfold_locales
  fix s t assume inv: "store_inv s" and "store_step s t"
  from this(2) show "store_inv t"
  proof cases
    case (metadata rid sid why)
    show ?thesis unfolding metadata store_metadata_def Let_def
      by (rule store_upd_inv [OF create_inv [OF inv]]) (auto simp: run_ok_def)
  qed (use inv in \<open>auto simp: AddTelemetryBatchWithContext_def batch_inv delete_inv\<close>)
qed

definition store_reachable :: "TelemetryStore \<Rightarrow> bool" where
  "store_reachable ts \<longleftrightarrow> (\<exists>c. store_step\<^sup>*\<^sup>* (NewTelemetryStoreWithConfig c) ts)"

lemma store_reachable_inv: "store_reachable ts \<Longrightarrow> store_inv ts"
  unfolding store_reachable_def
  by (elim exE) (erule tst.run_keeps, auto simp: store_inv_def NewTelemetryStoreWithConfig_def)

section \<open>What is stored\<close>

definition capped :: "int \<Rightarrow> 'a list \<Rightarrow> 'a list" where
  "capped limit xs = (if limit > 0 then take (nat limit) xs else xs)"

lemma add_operations_results: "(tc_MaxOperationsPerRun cfg > 0 \<Longrightarrow> int (length (rt_operations rt)) \<le> tc_MaxOperationsPerRun cfg) \<Longrightarrow>
    rt_operations (fold (add_operation cfg rid) ops rt) = capped (tc_MaxOperationsPerRun cfg) (rt_operations rt @ map result_of ops)"
proof (induction ops arbitrary: rt)
  case Nil
  then have "tc_MaxOperationsPerRun cfg > 0 \<Longrightarrow> length (rt_operations rt) \<le> nat (tc_MaxOperationsPerRun cfg)" by linarith
  then show ?case by (simp add: capped_def)
next
  case (Cons op ops)
  let ?n = "tc_MaxOperationsPerRun cfg" and ?rt = "add_operation cfg rid op rt"
  have one: "rt_operations ?rt = (if ?n > 0 \<and> int (length (rt_operations rt)) \<ge> ?n then rt_operations rt else rt_operations rt @ [result_of op])"
    by (simp add: add_operation_def add_log_def add_result_def add_times_parts Let_def)
  with Cons.prems have "?n > 0 \<Longrightarrow> int (length (rt_operations ?rt)) \<le> ?n" by auto
  from Cons.IH [OF this] one Cons.prems show ?case by (auto simp: capped_def take_Cons')
qed

lemma sort_logs_operations [simp]: "rt_operations (sort_logs srt rt) = rt_operations rt"
  by (simp add: sort_logs_def)

definition operations_of :: "TelemetryStore \<Rightarrow> string \<Rightarrow> OperationResult list" where
  "operations_of ts rid = (case GetTelemetryData rid ts of Inl _ \<Rightarrow> [] | Inr td \<Rightarrow> td_Operations td)"

lemma created_run: "store_inv ts \<Longrightarrow> \<exists>rt. map_get (ts_runs (getOrCreateRunTelemetry rid ts)) rid = Some rt \<and> rt_operations rt = operations_of ts rid"
  by (auto simp: getOrCreateRunTelemetry_def operations_of_def GetTelemetryData_def new_runTelemetry_def Let_def split: option.splits)

lemma create_others:
  assumes "store_inv ts" and "k \<noteq> rid"
  shows "map_get (ts_runs (getOrCreateRunTelemetry rid ts)) k \<in> {map_get (ts_runs ts) k, None}
    \<and> (HasRun rid ts \<longrightarrow> map_get (ts_runs (getOrCreateRunTelemetry rid ts)) k = map_get (ts_runs ts) k)
    \<and> ts_config (getOrCreateRunTelemetry rid ts) = ts_config ts"
proof -
  note ev = evict_inv [OF assms(1)]
  have "map_get (ts_runs (evictIfNeeded ts)) k = Some rt \<Longrightarrow> map_get (ts_runs ts) k = Some rt" for rt
    using ev assms(1) by (auto simp: store_inv_def get_iff_mem)
  with ev assms(2) show ?thesis
    by (cases "map_get (ts_runs (evictIfNeeded ts)) k") (auto simp: getOrCreateRunTelemetry_def HasRun_def Let_def)
qed

section \<open>Pages\<close>

lemma page_loop_eq: "0 \<le> pg \<Longrightarrow> int (length result) \<le> pg \<Longrightarrow> result = [] \<or> offset \<le> matched \<Longrightarrow>
    page_loop matches offset pg matched result ls =
      result @ take (nat pg - length result) (drop (nat (offset - matched)) (filter matches ls))"
proof (induction matches offset pg matched result ls rule: page_loop.induct)
  case (2 matches offset pg matched result l ls)
  show ?case
  proof (cases "matches l")
    case True
    let ?r = "if matched \<ge> offset \<and> int (length result) < pg then result @ [l] else result"
    show ?thesis
    proof (cases "int (length ?r) \<ge> pg")
      case full: True
      have "nat pg - length result = Suc 0" if "int (length result) < pg" "pg \<le> 1 + int (length result)" using that by linarith
      with True full "2.prems" show ?thesis by (auto simp: Let_def split: if_splits)
    next
      case False
      with "2.prems" have "page_loop matches offset pg (matched + 1) ?r ls =
          ?r @ take (nat pg - length ?r) (drop (nat (offset - (matched + 1))) (filter matches ls))"
        by (intro "2.IH"(2) [OF _ refl]) (use True in auto)
      moreover have "nat (offset - matched) = Suc (nat (offset - (matched + 1)))" if "\<not> matched \<ge> offset" using that by simp
      ultimately show ?thesis using True False "2.prems" by (auto simp: Let_def take_Cons' split: if_splits)
    qed
  qed (use 2 in auto)
qed simp

section \<open>Properties\<close>

text \<open>C24: what the workers report is what the analysis reads. After a batch the operations of the run are the earlier
  ones followed by those of the batch, cut at the configured limit; the other runs keep their data, unless the run is
  new and an older one had to make room. However the store was used before, it never holds more runs, operations or log
  entries than its limits allow, it says when it dropped some, and the log entries of every run are in time order.\<close>
theorem telemetry_stored:
  assumes "store_reachable ts" and "slice_sorter log_time srt"
  shows "operations_of (AddTelemetryBatch srt rid b ts) rid =
       capped (tc_MaxOperationsPerRun (ts_config ts)) (operations_of ts rid @ map result_of (tb_Operations b))
    \<and> (\<forall>k. k \<noteq> rid \<longrightarrow> HasRun rid ts \<or> HasRun k (AddTelemetryBatch srt rid b ts) \<longrightarrow>
         GetTelemetryData k (AddTelemetryBatch srt rid b ts) = GetTelemetryData k ts)
    \<and> store_inv (AddTelemetryBatch srt rid b ts)"
proof -
  let ?c = "getOrCreateRunTelemetry rid ts"
  note inv = store_reachable_inv [OF assms(1)]
  obtain rt where rt: "map_get (ts_runs ?c) rid = Some rt" "rt_operations rt = operations_of ts rid"
    using created_run [OF inv] by blast
  have "run_ok (ts_config ?c) rid rt" using create_inv [OF inv, of rid] rt(1) by (auto simp: store_inv_def get_iff_mem)
  then have "tc_MaxOperationsPerRun (ts_config ?c) > 0 \<Longrightarrow> int (length (rt_operations rt)) \<le> tc_MaxOperationsPerRun (ts_config ?c)"
    by (simp add: run_ok_def)
  from add_operations_results [OF this, of rid "tb_Operations b"] rt
  have "operations_of (AddTelemetryBatch srt rid b ts) rid =
      capped (tc_MaxOperationsPerRun (ts_config ?c)) (operations_of ts rid @ map result_of (tb_Operations b))"
    by (simp add: operations_of_def GetTelemetryData_def AddTelemetryBatch_def Let_def)
  moreover have "ts_config ?c = ts_config ts" using create_others [OF inv, of "CHR ''x'' # rid" rid] by simp
  moreover have "GetTelemetryData k (AddTelemetryBatch srt rid b ts) = GetTelemetryData k ts"
    if "k \<noteq> rid" "HasRun rid ts \<or> HasRun k (AddTelemetryBatch srt rid b ts)" for k
    using create_others [OF inv that(1)] that
    by (auto simp: GetTelemetryData_def AddTelemetryBatch_def HasRun_def Let_def)
  ultimately show ?thesis using batch_inv [OF assms(2) inv] by simp
qed

definition sample_outcome :: "int \<Rightarrow> OperationOutcome" where
  "sample_outcome ts = \<lparr>oo_OpID = ''op'', oo_Operation = ''tools/call'', oo_ToolName = ''t'', oo_LatencyMs = 5, oo_OK = True,
     oo_ErrorType = [], oo_ErrorCode = [], oo_HTTPStatus = 200, oo_TimestampMs = ts, oo_Stream = None, oo_WorkerID = ''w'',
     oo_ExecutionID = ''e'', oo_Stage = ''ramp'', oo_StageID = ''stg_001'', oo_VUID = ''1'', oo_SessionID = [], oo_TokenIndex = None\<rparr>"

definition small_limits :: TelemetryStoreConfig where
  "small_limits = \<lparr>tc_MaxOperationsPerRun = 2, tc_MaxLogsPerRun = 0, tc_MaxTotalRuns = 1\<rparr>"

definition sample_batch :: TelemetryBatchRequest where
  "sample_batch = \<lparr>tb_RunID = ''r'', tb_Operations = [sample_outcome 20, sample_outcome 10, sample_outcome 30], tb_Health = None\<rparr>"

lemma new_store_reachable: "store_reachable (NewTelemetryStoreWithConfig c)"
  by (auto simp: store_reachable_def)

theorem telemetry_stored_witness:
  "operations_of (AddTelemetryBatch (insertion_sort log_time) ''r'' sample_batch (NewTelemetryStoreWithConfig (Some small_limits))) ''r''
     = [result_of (sample_outcome 20), result_of (sample_outcome 10)]"
  using telemetry_stored [OF new_store_reachable slice_sorter_insertion_sort, of "''r''" sample_batch "Some small_limits"]
  by (simp add: NewTelemetryStoreWithConfig_def operations_of_def GetTelemetryData_def capped_def small_limits_def sample_batch_def)

text \<open>C25: a log query returns exactly the requested page of the matching entries, oldest or newest first, and the number
  of all matching entries; it does not panic for the offsets and limits that the endpoint lets through.\<close>
theorem log_query_pages:
  assumes "store_reachable ts" and "map_get (ts_runs ts) rid = Some rt" and "0 \<le> lf_Offset f" and "0 \<le> lf_Limit f"
    and "lf_Offset f + lf_Limit f < 2 ^ 63" and "int (length (rt_logs rt)) < 2 ^ 63"
  shows "in_time_order (rt_logs rt) \<and> QueryLogs rid f ts = Some (Inr
     (take (nat (lf_Limit f)) (drop (nat (lf_Offset f))
        (filter (matchesFilters f) (if lf_Order f = ''asc'' then rt_logs rt else rev (rt_logs rt)))),
      int (length (filter (matchesFilters f) (rt_logs rt)))))"
proof -
  let ?ls = "if lf_Order f = ''asc'' then rt_logs rt else rev (rt_logs rt)" and ?m = "matchesFilters f"
  let ?n = "int (length (filter ?m (rt_logs rt)))" and ?o = "lf_Offset f"
  let ?e = "min ?n (?o + lf_Limit f)"
  have len: "length (filter ?m ?ls) = length (filter ?m (rt_logs rt))" by (simp add: rev_filter [symmetric])
  have "?n < 2 ^ 63" using assms(6) length_filter_le [of ?m "rt_logs rt"] by linarith
  then have w: "wrap64 (?o + lf_Limit f) = ?o + lf_Limit f" "wrap64 (?e - ?o) = ?e - ?o" if "?o < ?n"
    using that assms(3-5) by (auto simp: wrap64_id is_int64_def min_def)
  have sorted: "in_time_order (rt_logs rt)"
    using store_reachable_inv [OF assms(1)] assms(2) by (auto simp: store_inv_def get_iff_mem)
  show ?thesis
  proof (cases "?n \<le> ?o")
    case True
    then have "drop (nat ?o) (filter ?m ?ls) = []" using len by simp
    with True sorted assms(2) show ?thesis by (simp add: QueryLogs_def Let_def)
  next
    case False
    have page: "page_loop ?m ?o (?e - ?o) 0 [] ?ls = take (nat (?e - ?o)) (drop (nat ?o) (filter ?m ?ls))"
      using False assms(3,4) by (subst page_loop_eq) auto
    also have "\<dots> = take (nat (lf_Limit f)) (drop (nat ?o) (filter ?m ?ls))"
    proof (cases "?n \<le> ?o + lf_Limit f")
      case True
      then have "length (drop (nat ?o) (filter ?m ?ls)) \<le> nat (?e - ?o)" "length (drop (nat ?o) (filter ?m ?ls)) \<le> nat (lf_Limit f)"
        using len assms(3) by (simp_all add: min_def)
      then show ?thesis by simp
    qed simp
    finally have page: "page_loop ?m ?o (?e - ?o) 0 [] ?ls = take (nat (lf_Limit f)) (drop (nat ?o) (filter ?m ?ls))" .
    have "(if ?o + lf_Limit f > ?n then ?n else ?o + lf_Limit f) = ?e" "\<not> ?e - ?o < 0" "?o < ?n" using False assms(4) by simp_all
    then have "QueryLogs rid f ts = Some (Inr (page_loop ?m ?o (?e - ?o) 0 [] ?ls, ?n))"
      using False by (simp only: QueryLogs_def assms(2) option.case Let_def w if_False)
    with page sorted show ?thesis by simp
  qed
qed

theorem log_query_pages_witness:
  "QueryLogs ''r'' \<lparr>lf_Stage = ''ramp'', lf_StageID = [], lf_WorkerID = [], lf_VUID = [], lf_SessionID = [], lf_Operation = [],
       lf_ToolName = [], lf_ErrorType = [], lf_ErrorCode = [], lf_TokenIndex = None, lf_Limit = 2, lf_Offset = 1, lf_Order = ''desc''\<rparr>
     (AddTelemetryBatch (insertion_sort log_time) ''r'' sample_batch (NewTelemetryStoreWithConfig (Some small_limits)))
   = Some (Inr ([log_of ''r'' (sample_outcome 20), log_of ''r'' (sample_outcome 10)], 3))"
proof -
  let ?ts = "AddTelemetryBatch (insertion_sort log_time) ''r'' sample_batch (NewTelemetryStoreWithConfig (Some small_limits))"
  let ?ls = "[log_of ''r'' (sample_outcome 10), log_of ''r'' (sample_outcome 20), log_of ''r'' (sample_outcome 30)]"
  have r: "store_reachable ?ts"
    using store_step.batch [OF slice_sorter_insertion_sort] unfolding store_reachable_def by blast
  have time: "ol_TimestampMs (log_of ''r'' (sample_outcome k)) = k" "oo_TimestampMs (sample_outcome k) = k" for k
    by (simp_all add: log_of_def sample_outcome_def)
  have part: "rt_logs (add_operation small_limits ''r'' op rt) = rt_logs rt @ [log_of ''r'' op]"
    "rt_logsSorted (add_operation small_limits ''r'' op rt) \<longleftrightarrow> rt_logsSorted rt \<and> (let logs = rt_logs rt @ [log_of ''r'' op] in
       length logs < 2 \<or> ol_TimestampMs (logs ! (length logs - 2)) \<le> ol_TimestampMs (log_of ''r'' op))" for op rt
    by (simp_all add: add_operation_def add_log_def add_result_def add_times_parts small_limits_def Let_def)
  have "map_get (ts_runs ?ts) ''r'' = Some (sort_logs (insertion_sort log_time)
      (fold (add_operation small_limits ''r'') (tb_Operations sample_batch) (new_runTelemetry ''r'')))"
    by (simp add: AddTelemetryBatch_def getOrCreateRunTelemetry_def evictIfNeeded_def NewTelemetryStoreWithConfig_def Let_def)
  moreover have "rt_logs (sort_logs (insertion_sort log_time)
      (fold (add_operation small_limits ''r'') (tb_Operations sample_batch) (new_runTelemetry ''r''))) = ?ls"
    by (simp add: sort_logs_def part sample_batch_def new_runTelemetry_def insertion_sort_def log_time_def time Let_def)
  ultimately have "\<exists>rt. map_get (ts_runs ?ts) ''r'' = Some rt \<and> rt_logs rt = ?ls" by blast
  then obtain rt where rt: "map_get (ts_runs ?ts) ''r'' = Some rt" "rt_logs rt = ?ls" by blast
  show ?thesis
    by (subst log_query_pages [OF r rt(1), THEN conjunct2])
      (simp_all add: rt(2) matchesFilters_def, simp_all add: log_of_def sample_outcome_def)
qed

end
