(* ===== verification/Api_Workers.thy ===== *)
theory Api_Workers
  imports Run_Outcomes Run_Queries Api_Telemetry
begin

text \<open>
  The worker side of the API server (\<^verbatim>\<open>internal/controlplane/api/worker_handlers.go\<close> and the queues of
  \<^verbatim>\<open>server.go\<close>): registration with a token, heartbeats, telemetry, the assignment queues with acknowledgement and
  redelivery, redaction, and the routing of \<^verbatim>\<open>/workers/\<close>.

  A handler is a function from the request and the server to the response and the server. Of a request it has the
  method, the path, the token header and what decoding the body into each request type gives. A nil map is the empty
  one. The clock is that of the run manager.
\<close>

section \<open>Data\<close>

record deliveredAssignment =
  da_assignment :: WorkerAssignment
  da_deliveredAt :: int

record server =
  sv_rm :: run_manager
  sv_hasRunManager :: bool
  sv_hasRegistry :: bool
  sv_hasLeaseManager :: bool
  sv_telemetry :: "TelemetryStore option"
  sv_pendingAssignments :: "(string, WorkerAssignment list) gomap"
  sv_pendingAck :: "(string, deliveredAssignment list) gomap"
  sv_maxPending :: int
  sv_workerTokens :: "(string, string) gomap"
  sv_workerAuthEnabled :: bool
  sv_redact :: bool

definition defaultMaxPendingAssignmentsPerWorker :: int where
  "defaultMaxPendingAssignmentsPerWorker = 100"

definition pendingAckTimeout :: int where
  "pendingAckTimeout = 60 * 1000000000"

definition NewServer :: "run_manager \<Rightarrow> server" where
  "NewServer rm =
     \<lparr>sv_rm = rm, sv_hasRunManager = True, sv_hasRegistry = False, sv_hasLeaseManager = False, sv_telemetry = None,
      sv_pendingAssignments = [], sv_pendingAck = [], sv_maxPending = defaultMaxPendingAssignmentsPerWorker,
      sv_workerTokens = [], sv_workerAuthEnabled = True, sv_redact = False\<rparr>"

definition SetMaxPendingAssignmentsPerWorker :: "int \<Rightarrow> server \<Rightarrow> server" where
  "SetMaxPendingAssignmentsPerWorker limit s =
     s\<lparr>sv_maxPending := (if limit \<le> 0 then defaultMaxPendingAssignmentsPerWorker else limit)\<rparr>"

record ErrorResponse =
  er_ErrorType :: string
  er_ErrorCode :: string
  er_ErrorMessage :: string
  er_Retryable :: bool
  er_Details :: "(string \<times> json) list"

datatype response_body =
    BodyError ErrorResponse
  | ListWorkersResponse "WorkerInfo list"
  | RegisterWorkerResponse string string
  | HeartbeatResponse "string list" "string list"
  | TelemetryBatchResponse nat
  | GetAssignmentsResponse "WorkerAssignment list"
  | AckAssignmentsResponse nat

datatype response = Response (resp_status: int) (resp_body: response_body)

text \<open>What decoding a body gives: an error with its text, nothing (\<^verbatim>\<open>io.EOF\<close>), or the request.\<close>

datatype 'a decoded = BadJSON string | NoBody | Decoded 'a

record RegisterWorkerRequest =
  rw_HostInfo :: HostInfo
  rw_Capacity :: WorkerCapacity

record request =
  rq_Method :: string
  rq_Path :: string
  rq_WorkerToken :: string
  rq_register :: "RegisterWorkerRequest decoded"
  rq_heartbeat :: "WorkerHealth option decoded"
  rq_telemetry :: "TelemetryBatchRequest decoded"
  rq_ack :: "string list decoded"

section \<open>Error responses\<close>

definition NewInvalidRequestErrorResponse :: "string \<Rightarrow> (string \<times> json) list \<Rightarrow> ErrorResponse" where
  "NewInvalidRequestErrorResponse message details =
     \<lparr>er_ErrorType = ''invalid_argument'', er_ErrorCode = ''INVALID_REQUEST'', er_ErrorMessage = message,
      er_Retryable = False, er_Details = details\<rparr>"

definition NewInternalErrorResponse :: "string \<Rightarrow> ErrorResponse" where
  "NewInternalErrorResponse message =
     \<lparr>er_ErrorType = ''internal'', er_ErrorCode = ''INTERNAL_ERROR'', er_ErrorMessage = message, er_Retryable = True, er_Details = []\<rparr>"

definition writeMethodNotAllowed :: "string \<Rightarrow> string \<Rightarrow> response" where
  "writeMethodNotAllowed method allowed =
     Response 405 (BodyError \<lparr>er_ErrorType = ''invalid_argument'', er_ErrorCode = ''METHOD_NOT_ALLOWED'',
       er_ErrorMessage = ''Method not allowed'', er_Retryable = False,
       er_Details = [(''method'', JStr method), (''allowed'', JStr allowed)]\<rparr>)"

definition endpoint_not_found :: "string \<Rightarrow> response" where
  "endpoint_not_found path =
     Response 404 (BodyError \<lparr>er_ErrorType = ''not_found'', er_ErrorCode = ''ENDPOINT_NOT_FOUND'',
       er_ErrorMessage = ''Endpoint not found'', er_Retryable = False, er_Details = [(''path'', JStr path)]\<rparr>)"

definition bad_body :: "string \<Rightarrow> response" where
  "bad_body err = Response 400 (BodyError (NewInvalidRequestErrorResponse ''Invalid JSON request body'' [(''parse_error'', JStr err)]))"

definition internal_error :: "string \<Rightarrow> response" where
  "internal_error message = Response 500 (BodyError (NewInternalErrorResponse message))"

definition registry_failure :: "string \<Rightarrow> registry_error \<Rightarrow> response" where
  "registry_failure workerID err =
     (if err = ErrWorkerNotFound
      then Response 404 (BodyError \<lparr>er_ErrorType = ''not_found'', er_ErrorCode = ''WORKER_NOT_FOUND'',
             er_ErrorMessage = ''Worker not found'', er_Retryable = False, er_Details = [(''worker_id'', JStr workerID)]\<rparr>)
      else internal_error (registry_error_text err))"

section \<open>The queues\<close>

text \<open>Reading a map of slices: an absent key gives the nil slice.\<close>

definition queue_of :: "(string, 'a list) gomap \<Rightarrow> string \<Rightarrow> 'a list" where
  "queue_of m workerID = (case map_get m workerID of None \<Rightarrow> [] | Some q \<Rightarrow> q)"

lemma queue_of_upd [simp]:
  "queue_of (map_put k q m) w = (if w = k then q else queue_of m w)"
  "queue_of (map_del k m) w = (if w = k then [] else queue_of m w)"
  by (simp_all add: queue_of_def)

definition queue_limit :: "server \<Rightarrow> int" where
  "queue_limit s = (if sv_maxPending s \<le> 0 then defaultMaxPendingAssignmentsPerWorker else sv_maxPending s)"

definition addAssignmentLocked :: "string \<Rightarrow> WorkerAssignment \<Rightarrow> server \<Rightarrow> server" where
  "addAssignmentLocked workerID assignment s =
     (let limit = queue_limit s;
          queue = queue_of (sv_pendingAssignments s) workerID;
          queue1 = (if int (length queue) \<ge> limit then drop (nat (int (length queue) - limit + 1)) queue else queue)
      in s\<lparr>sv_pendingAssignments := map_put workerID (queue1 @ [assignment]) (sv_pendingAssignments s)\<rparr>)"

text \<open>One worker of \<^verbatim>\<open>requeueExpiredPendingAcks\<close>.\<close>

definition requeue_worker :: "int \<Rightarrow> int \<Rightarrow> string \<times> deliveredAssignment list \<Rightarrow> nat \<times> server \<Rightarrow> nat \<times> server" where
  "requeue_worker now timeout = (\<lambda>(workerID, pending) (requeued, s).
     if pending = [] then (requeued, s\<lparr>sv_pendingAck := map_del workerID (sv_pendingAck s)\<rparr>)
     else
       let expired = filter (\<lambda>d. now - da_deliveredAt d > timeout) pending;
           remaining = filter (\<lambda>d. \<not> now - da_deliveredAt d > timeout) pending;
           s1 = fold (\<lambda>d. addAssignmentLocked workerID (da_assignment d)) expired s
       in (requeued + length expired,
           if remaining = [] then s1\<lparr>sv_pendingAck := map_del workerID (sv_pendingAck s1)\<rparr>
           else s1\<lparr>sv_pendingAck := map_put workerID remaining (sv_pendingAck s1)\<rparr>))"

definition requeueExpiredPendingAcks :: "int \<Rightarrow> int \<Rightarrow> server \<Rightarrow> nat \<times> server" where
  "requeueExpiredPendingAcks now timeout s =
     (if timeout \<le> 0 \<or> sv_pendingAck s = [] then (0, s)
      else fold (requeue_worker now timeout) (sv_pendingAck s) (0, s))"

definition getAssignmentsForWorker :: "string \<Rightarrow> server \<Rightarrow> WorkerAssignment list \<times> server" where
  "getAssignmentsForWorker workerID s =
     (case map_get (sv_pendingAssignments s) workerID of
        None \<Rightarrow> ([], s)
      | Some assignments \<Rightarrow>
          let delivered = map (\<lambda>a. \<lparr>da_assignment = a, da_deliveredAt = int (rm_now (sv_rm s))\<rparr>) assignments
          in (assignments, s\<lparr>sv_pendingAssignments := map_del workerID (sv_pendingAssignments s),
                sv_pendingAck := map_put workerID (queue_of (sv_pendingAck s) workerID @ delivered) (sv_pendingAck s)\<rparr>))"

definition ackAssignmentsForWorker :: "string \<Rightarrow> string list \<Rightarrow> server \<Rightarrow> nat \<times> server" where
  "ackAssignmentsForWorker workerID leaseIDs s =
     (let leaseIDSet = set (filter (\<lambda>k. k \<noteq> []) leaseIDs);
          pending = queue_of (sv_pendingAck s) workerID
      in if leaseIDSet = {} \<or> pending = [] then (0, s)
         else
           let acked = filter (\<lambda>d. wa_LeaseID (da_assignment d) \<in> leaseIDSet) pending;
               remaining = filter (\<lambda>d. wa_LeaseID (da_assignment d) \<notin> leaseIDSet) pending
           in (length acked,
               if remaining = [] then s\<lparr>sv_pendingAck := map_del workerID (sv_pendingAck s)\<rparr>
               else s\<lparr>sv_pendingAck := map_put workerID remaining (sv_pendingAck s)\<rparr>))"

section \<open>Tokens and redaction\<close>

text \<open>\<open>bytes\<close>: what \<^verbatim>\<open>rand.Read\<close> gives, None when it fails.\<close>

definition issueWorkerToken :: "nat list option \<Rightarrow> string \<Rightarrow> server \<Rightarrow> string option \<times> server" where
  "issueWorkerToken bytes workerID s =
     (case bytes of
        None \<Rightarrow> (None, s)
      | Some bs \<Rightarrow>
          let token = concat (map (hex_pad 2) bs)
          in (Some token, s\<lparr>sv_workerTokens := map_put workerID token (sv_workerTokens s)\<rparr>))"

definition unauthorized :: "string \<Rightarrow> string \<Rightarrow> response" where
  "unauthorized code message =
     Response 401 (BodyError \<lparr>er_ErrorType = ''unauthorized'', er_ErrorCode = code, er_ErrorMessage = message,
       er_Retryable = False, er_Details = []\<rparr>)"

definition verifyWorkerToken :: "string \<Rightarrow> string \<Rightarrow> server \<Rightarrow> response option" where
  "verifyWorkerToken token workerID s =
     (if \<not> sv_workerAuthEnabled s then None
      else if token = [] then Some (unauthorized ''WORKER_AUTH_REQUIRED'' ''Worker token required'')
      else if map_get (sv_workerTokens s) workerID \<noteq> Some token
      then Some (unauthorized ''INVALID_WORKER_TOKEN'' ''Invalid worker token'')
      else None)"

definition isSensitiveHeader :: "string \<Rightarrow> bool" where
  "isSensitiveHeader header \<longleftrightarrow>
     map lower header \<in> {''authorization'', ''proxy-authorization'', ''x-api-key'', ''x-auth-token''}"

definition redact_headers :: "(string, string) gomap \<Rightarrow> (string, string) gomap" where
  "redact_headers = map (\<lambda>(key, val). (key, if isSensitiveHeader key then ''[redacted]'' else val))"

definition redact_auth :: "AuthConfig option \<Rightarrow> AuthConfig option" where
  "redact_auth auth =
     (case auth of
        Some a \<Rightarrow> if auc_Tokens a \<noteq> [] then Some \<lparr>auc_Type = auc_Type a, auc_Tokens = [''[redacted]'']\<rparr> else Some a
      | None \<Rightarrow> None)"

definition redactAssignments :: "WorkerAssignment list \<Rightarrow> WorkerAssignment list" where
  "redactAssignments = map (\<lambda>a. a\<lparr>wa_Target := (wa_Target a)\<lparr>tgc_Headers := redact_headers (tgc_Headers (wa_Target a)),
     tgc_Auth := redact_auth (tgc_Auth (wa_Target a))\<rparr>\<rparr>)"

section \<open>Correlation keys\<close>

text \<open>\<open>id_pattern p lo hi\<close>: the regular expression \<^verbatim>\<open>^p[0-9a-f]{lo,hi}$\<close>.\<close>

definition id_pattern :: "string \<Rightarrow> nat \<Rightarrow> nat \<Rightarrow> string \<Rightarrow> bool" where
  "id_pattern prefix lo hi s \<longleftrightarrow>
     (let n = length prefix in take n s = prefix \<and> list_all is_hex (drop n s) \<and> lo \<le> length s - n \<and> length s - n \<le> hi)"

definition runIDPattern :: "string \<Rightarrow> bool" where "runIDPattern = id_pattern ''run_'' 16 64"
definition executionIDPattern :: "string \<Rightarrow> bool" where "executionIDPattern = id_pattern ''exe_'' 8 64"
definition workerIDPattern :: "string \<Rightarrow> bool" where "workerIDPattern = id_pattern ''wkr_'' 8 64"
definition stageIDPattern :: "string \<Rightarrow> bool" where "stageIDPattern = id_pattern ''stg_'' 3 81"

definition allowedStages :: "string list" where
  "allowedStages = [''preflight'', ''baseline'', ''ramp'', ''soak'', ''spike'', ''custom'']"

text \<open>The keys of one operation that are missing, and those that are malformed.\<close>

definition missing_keys :: "(string \<times> string \<times> (string \<Rightarrow> bool)) list \<Rightarrow> string list" where
  "missing_keys ks = map fst (filter (\<lambda>(_, v, _). v = []) ks)"

definition invalid_keys :: "(string \<times> string \<times> (string \<Rightarrow> bool)) list \<Rightarrow> string list" where
  "invalid_keys ks = map fst (filter (\<lambda>(_, v, ok). v \<noteq> [] \<and> \<not> ok v) ks)"

definition operation_keys :: "string \<Rightarrow> OperationOutcome \<Rightarrow> (string \<times> string \<times> (string \<Rightarrow> bool)) list" where
  "operation_keys workerID op =
     [(''worker_id'', if oo_WorkerID op = [] then workerID else oo_WorkerID op, workerIDPattern),
      (''execution_id'', oo_ExecutionID op, executionIDPattern),
      (''stage'', oo_Stage op, \<lambda>s. s \<in> set allowedStages),
      (''stage_id'', oo_StageID op, stageIDPattern)]"

definition telemetry_error :: "string \<Rightarrow> (string \<times> json) list \<Rightarrow> ErrorResponse" where
  "telemetry_error message details =
     \<lparr>er_ErrorType = ''invalid_argument'', er_ErrorCode = ''INVALID_TELEMETRY'', er_ErrorMessage = message,
      er_Retryable = False, er_Details = details\<rparr>"

definition validate_operation :: "string \<Rightarrow> nat \<Rightarrow> OperationOutcome \<Rightarrow> ErrorResponse option" where
  "validate_operation workerID i op =
     (if oo_WorkerID op \<noteq> [] \<and> oo_WorkerID op \<noteq> workerID
      then Some (telemetry_error ''worker_id mismatch: operation worker_id does not match authenticated worker''
             [(''operation_index'', JInt (int i)), (''expected'', JStr workerID), (''got'', JStr (oo_WorkerID op))])
      else if missing_keys (operation_keys workerID op) \<noteq> []
      then Some (telemetry_error ''Missing required correlation keys in telemetry''
             [(''operation_index'', JInt (int i)), (''missing_keys'', JArr (map JStr (missing_keys (operation_keys workerID op))))])
      else if invalid_keys (operation_keys workerID op) \<noteq> []
      then Some (telemetry_error ''Invalid correlation key format in telemetry''
             [(''operation_index'', JInt (int i)), (''invalid_keys'', JArr (map JStr (invalid_keys (operation_keys workerID op))))])
      else None)"

fun validate_operations :: "string \<Rightarrow> nat \<Rightarrow> OperationOutcome list \<Rightarrow> ErrorResponse option" where
  "validate_operations workerID i [] = None"
| "validate_operations workerID i (op # ops) =
     (case validate_operation workerID i op of Some e \<Rightarrow> Some e | None \<Rightarrow> validate_operations workerID (Suc i) ops)"

definition validateTelemetryCorrelationKeys :: "TelemetryBatchRequest \<Rightarrow> string \<Rightarrow> ErrorResponse option" where
  "validateTelemetryCorrelationKeys req workerID =
     (let keys = [(''run_id'', tb_RunID req, runIDPattern)]
      in case validate_operations workerID 0 (tb_Operations req) of
           Some e \<Rightarrow> Some e
         | None \<Rightarrow>
             if missing_keys keys \<noteq> []
             then Some (telemetry_error ''Missing required correlation keys in telemetry batch''
                    [(''missing_keys'', JArr (map JStr (missing_keys keys)))])
             else if invalid_keys keys \<noteq> []
             then Some (telemetry_error ''Invalid correlation key format in telemetry batch''
                    [(''invalid_keys'', JArr (map JStr (invalid_keys keys)))])
             else None)"

section \<open>Handlers\<close>

abbreviation sv_registry :: "server \<Rightarrow> registry" where
  "sv_registry s \<equiv> rm_registry (sv_rm s)"

definition set_registry :: "registry \<Rightarrow> server \<Rightarrow> server" where
  "set_registry r s = s\<lparr>sv_rm := (sv_rm s)\<lparr>rm_registry := r\<rparr>\<rparr>"

definition set_leases :: "lease_manager \<Rightarrow> server \<Rightarrow> server" where
  "set_leases lm s = s\<lparr>sv_rm := (sv_rm s)\<lparr>rm_leases := lm\<rparr>\<rparr>"

definition handleListWorkers :: "(WorkerInfo list \<Rightarrow> WorkerInfo list) \<Rightarrow> request \<Rightarrow> server \<Rightarrow> response" where
  "handleListWorkers by_id rq s =
     (if rq_Method rq \<noteq> ''GET'' then writeMethodNotAllowed (rq_Method rq) ''GET''
      else if \<not> sv_hasRegistry s then Response 200 (ListWorkersResponse [])
      else Response 200 (ListWorkersResponse (by_id (ListWorkers (sv_registry s)))))"

definition handleRegisterWorker :: "nat list option \<Rightarrow> request \<Rightarrow> server \<Rightarrow> response \<times> server" where
  "handleRegisterWorker bytes rq s =
     (if rq_Method rq \<noteq> ''POST'' then (writeMethodNotAllowed (rq_Method rq) ''POST'', s)
      else case rq_register rq of
        BadJSON err \<Rightarrow> (bad_body err, s)
      | NoBody \<Rightarrow> (bad_body ''EOF'', s)
      | Decoded req \<Rightarrow>
          if Hostname (rw_HostInfo req) = []
          then (Response 400 (BodyError (NewInvalidRequestErrorResponse ''host_info.hostname is required''
                  [(''field'', JStr ''host_info.hostname'')])), s)
          else if MaxVUs (rw_Capacity req) \<le> 0
          then (Response 400 (BodyError (NewInvalidRequestErrorResponse ''capacity.max_vus must be positive''
                  [(''field'', JStr ''capacity.max_vus'')])), s)
          else if \<not> sv_hasRegistry s then (internal_error ''registry not configured'', s)
          else
            (case RegisterWorker (now_ms (sv_rm s)) (int (now_ms (sv_rm s))) (rw_HostInfo req) (rw_Capacity req) (sv_registry s) of
               (Inl err, r) \<Rightarrow> (internal_error (registry_error_text err), set_registry r s)
             | (Inr workerID, r) \<Rightarrow>
                 (case issueWorkerToken bytes workerID (set_registry r s) of
                    (None, s1) \<Rightarrow> (internal_error ''failed to issue worker token'', s1)
                  | (Some token, s1) \<Rightarrow> (Response 201 (RegisterWorkerResponse workerID token), s1))))"

definition handleWorkerHeartbeat :: "request \<Rightarrow> string \<Rightarrow> server \<Rightarrow> response \<times> server" where
  "handleWorkerHeartbeat rq workerID s =
     (if rq_Method rq \<noteq> ''POST'' then (writeMethodNotAllowed (rq_Method rq) ''POST'', s)
      else case verifyWorkerToken (rq_WorkerToken rq) workerID s of
        Some resp \<Rightarrow> (resp, s)
      | None \<Rightarrow>
          (case rq_heartbeat rq of
             BadJSON err \<Rightarrow> (bad_body err, s)
           | body \<Rightarrow>
               let health = (case body of Decoded h \<Rightarrow> h | _ \<Rightarrow> None)
               in if \<not> sv_hasRegistry s then (internal_error ''registry not configured'', s)
                  else case Heartbeat (int (now_ms (sv_rm s))) workerID health (sv_registry s) of
                    (Some err, r) \<Rightarrow> (registry_failure workerID err, set_registry r s)
                  | (None, r) \<Rightarrow>
                      let s1 = set_registry r s;
                          s2 = (if sv_hasLeaseManager s1
                                then set_leases (snd (RenewWorkerLeases (int (now_ms (sv_rm s1))) workerID (rm_leases (sv_rm s1)))) s1
                                else s1);
                          stopRunIDs = (if sv_hasRunManager s2 then ListStoppingRunsForWorker workerID (sv_rm s2) else []);
                          immediateStopRunIDs = (if sv_hasRunManager s2 then ListImmediateStopRunsForWorker workerID (sv_rm s2) else [])
                      in (Response 200 (HeartbeatResponse stopRunIDs immediateStopRunIDs), s2)))"

definition handleWorkerTelemetry :: "(OperationLog list \<Rightarrow> OperationLog list) \<Rightarrow> request \<Rightarrow> string \<Rightarrow> server \<Rightarrow> response \<times> server" where
  "handleWorkerTelemetry srt rq workerID s =
     (if rq_Method rq \<noteq> ''POST'' then (writeMethodNotAllowed (rq_Method rq) ''POST'', s)
      else case verifyWorkerToken (rq_WorkerToken rq) workerID s of
        Some resp \<Rightarrow> (resp, s)
      | None \<Rightarrow>
          (case rq_telemetry rq of
             BadJSON err \<Rightarrow> (bad_body err, s)
           | NoBody \<Rightarrow> (bad_body ''EOF'', s)
           | Decoded req \<Rightarrow>
               (case validateTelemetryCorrelationKeys req workerID of
                  Some err \<Rightarrow> (Response 400 (BodyError err), s)
                | None \<Rightarrow>
                    if \<not> sv_hasRegistry s then (internal_error ''registry not configured'', s)
                    else case GetWorker workerID (sv_registry s) of
                      Inl err \<Rightarrow> (registry_failure workerID err, s)
                    | Inr _ \<Rightarrow>
                        let s1 = (if tb_Health req = None then s
                                  else set_registry (snd (Heartbeat (int (now_ms (sv_rm s))) workerID (tb_Health req) (sv_registry s))) s);
                            s2 = (case sv_telemetry s1 of
                                    None \<Rightarrow> s1
                                  | Some store \<Rightarrow>
                                      if tb_Operations req = [] \<or> tb_RunID req = [] then s1
                                      else
                                        let ops = map (\<lambda>op. if oo_WorkerID op = [] then op\<lparr>oo_WorkerID := workerID\<rparr> else op) (tb_Operations req)
                                        in s1\<lparr>sv_telemetry := Some (AddTelemetryBatch srt (tb_RunID req) (req\<lparr>tb_Operations := ops\<rparr>) store)\<rparr>)
                        in (Response 200 (TelemetryBatchResponse (length (tb_Operations req))), s2))))"

definition handleGetAssignments :: "request \<Rightarrow> string \<Rightarrow> server \<Rightarrow> response \<times> server" where
  "handleGetAssignments rq workerID s =
     (if rq_Method rq \<noteq> ''GET'' then (writeMethodNotAllowed (rq_Method rq) ''GET'', s)
      else case verifyWorkerToken (rq_WorkerToken rq) workerID s of
        Some resp \<Rightarrow> (resp, s)
      | None \<Rightarrow>
          if \<not> sv_hasRegistry s then (internal_error ''registry not configured'', s)
          else case GetWorker workerID (sv_registry s) of
            Inl err \<Rightarrow> (registry_failure workerID err, s)
          | Inr _ \<Rightarrow>
              let (assignments, s1) = getAssignmentsForWorker workerID s
              in (Response 200 (GetAssignmentsResponse (if sv_redact s1 then redactAssignments assignments else assignments)), s1))"

definition handleAckAssignments :: "request \<Rightarrow> string \<Rightarrow> server \<Rightarrow> response \<times> server" where
  "handleAckAssignments rq workerID s =
     (if rq_Method rq \<noteq> ''POST'' then (writeMethodNotAllowed (rq_Method rq) ''POST'', s)
      else case verifyWorkerToken (rq_WorkerToken rq) workerID s of
        Some resp \<Rightarrow> (resp, s)
      | None \<Rightarrow>
          if \<not> sv_hasRegistry s then (internal_error ''registry not configured'', s)
          else case GetWorker workerID (sv_registry s) of
            Inl err \<Rightarrow> (registry_failure workerID err, s)
          | Inr _ \<Rightarrow>
              (case rq_ack rq of
                 BadJSON err \<Rightarrow> (bad_body err, s)
               | body \<Rightarrow>
                   let leaseIDs = (case body of Decoded ids \<Rightarrow> ids | _ \<Rightarrow> []);
                       (acked, s1) = ackAssignmentsForWorker workerID leaseIDs s
                   in (Response 200 (AckAssignmentsResponse acked), s1)))"

definition routeWorkers :: "(OperationLog list \<Rightarrow> OperationLog list) \<Rightarrow> nat list option \<Rightarrow> request \<Rightarrow> server \<Rightarrow> response \<times> server" where
  "routeWorkers srt bytes rq s =
     (let path = trim_prefix ''/workers/'' (rq_Path rq)
      in if path = [] \<or> path = ''/'' \<or> path = ''register'' then handleRegisterWorker bytes rq s
         else case split_on (CHR ''/'') path of
           [workerID, action] \<Rightarrow>
             if action = ''heartbeat'' then handleWorkerHeartbeat rq workerID s
             else if action = ''telemetry'' then handleWorkerTelemetry srt rq workerID s
             else if action = ''assignments'' then handleGetAssignments rq workerID s
             else (endpoint_not_found (rq_Path rq), s)
         | workerID # action # rest \<Rightarrow>
             if action = ''heartbeat'' then handleWorkerHeartbeat rq workerID s
             else if action = ''telemetry'' then handleWorkerTelemetry srt rq workerID s
             else if action = ''assignments'' \<and> rest = [''ack''] then handleAckAssignments rq workerID s
             else (endpoint_not_found (rq_Path rq), s)
         | _ \<Rightarrow> (endpoint_not_found (rq_Path rq), s))"

end
