(* ===== verification/Api_Server.thy ===== *)
theory Api_Server
  imports Api_Workers
begin

text \<open>
  The server over time: what the worker endpoints guarantee over any sequence of requests, steps of the run manager and
  sweeps of the redelivery loop. The assignments that the run manager hands to its sender reach the queues here, and its
  run metadata the telemetry store.
\<close>

section \<open>Configuration and redelivery loop\<close>

definition SetRegistry :: "bool \<Rightarrow> server \<Rightarrow> server" where
  "SetRegistry present s = s\<lparr>sv_hasRegistry := present\<rparr>"

definition SetLeaseManager :: "bool \<Rightarrow> server \<Rightarrow> server" where
  "SetLeaseManager present s = s\<lparr>sv_hasLeaseManager := present\<rparr>"

definition Server_SetTelemetryStore :: "TelemetryStore option \<Rightarrow> server \<Rightarrow> server" where
  "Server_SetTelemetryStore ts s = s\<lparr>sv_telemetry := ts\<rparr>"

definition SetWorkerAuthEnabled :: "bool \<Rightarrow> server \<Rightarrow> server" where
  "SetWorkerAuthEnabled enabled s = s\<lparr>sv_workerAuthEnabled := enabled\<rparr>"

definition SetRedactAssignmentSecrets :: "bool \<Rightarrow> server \<Rightarrow> server" where
  "SetRedactAssignmentSecrets enabled s = s\<lparr>sv_redact := enabled\<rparr>"

text \<open>One tick of \<^verbatim>\<open>startPendingAckRequeueLoop\<close>.\<close>

definition requeue_tick :: "server \<Rightarrow> server" where
  "requeue_tick s = snd (requeueExpiredPendingAcks (int (rm_now (sv_rm s))) pendingAckTimeout s)"

text \<open>\<^verbatim>\<open>Server.AddAssignment\<close>, reached through the adapter that the run manager has as its sender.\<close>

definition Server_AddAssignment :: "string \<times> WorkerAssignment \<Rightarrow> server \<Rightarrow> server" where
  "Server_AddAssignment = (\<lambda>(workerID, assignment). addAssignmentLocked workerID assignment)"

section \<open>The queues of a worker\<close>

abbreviation pend :: "server \<Rightarrow> string \<Rightarrow> WorkerAssignment list" where
  "pend s w \<equiv> queue_of (sv_pendingAssignments s) w"

abbreviation delivered :: "server \<Rightarrow> string \<Rightarrow> deliveredAssignment list" where
  "delivered s w \<equiv> queue_of (sv_pendingAck s) w"

text \<open>What a list of sends holds for one worker, and what the run manager has sent to it.\<close>

definition mine :: "string \<Rightarrow> (string \<times> WorkerAssignment) list \<Rightarrow> WorkerAssignment list" where
  "mine w ps = map snd (filter (\<lambda>p. fst p = w) ps)"

abbreviation sent_to :: "run_manager \<Rightarrow> string \<Rightarrow> WorkerAssignment list" where
  "sent_to rm w \<equiv> mine w (rm_sent rm)"

text \<open>The assignments of a worker that are still to be acknowledged.\<close>

definition outstanding :: "server \<Rightarrow> string \<Rightarrow> WorkerAssignment list" where
  "outstanding s w = pend s w @ map da_assignment (delivered s w)"

lemma mine_append [simp]: "mine w (ps @ qs) = mine w ps @ mine w qs"
  by (simp add: mine_def)

lemma mine_Nil [simp]: "mine w [] = []"
  by (simp add: mine_def)

lemma mine_pair [simp]: "mine w (map (Pair k) as) = (if w = k then as else [])"
  by (induction as) (auto simp: mine_def)

lemma mine_Cons: "mine w ((k, a) # ps) = (if k = w then [a] else []) @ mine w ps"
  by (simp add: mine_def)

lemma queue_limit_pos: "0 < queue_limit s"
  by (simp add: queue_limit_def defaultMaxPendingAssignmentsPerWorker_def)

text \<open>Everything of a server but its two queues.\<close>

definition rest_of :: "server \<Rightarrow> run_manager \<times> bool \<times> bool \<times> bool \<times> TelemetryStore option \<times> int \<times> (string, string) gomap \<times> bool \<times> bool" where
  "rest_of s = (sv_rm s, sv_hasRunManager s, sv_hasRegistry s, sv_hasLeaseManager s, sv_telemetry s, sv_maxPending s,
     sv_workerTokens s, sv_workerAuthEnabled s, sv_redact s)"

lemma rest_parts:
  assumes "rest_of s = rest_of t"
  shows "queue_limit s = queue_limit t" and "sv_rm s = sv_rm t" and "sv_workerTokens s = sv_workerTokens t"
    and "sv_workerAuthEnabled s = sv_workerAuthEnabled t" and "sv_hasRegistry s = sv_hasRegistry t" and "sv_redact s = sv_redact t"
  using assms by (simp_all add: rest_of_def queue_limit_def)

text \<open>What adding the assignments \<open>as\<close> to a worker's queue does: in order, and none lost as long as there is room.\<close>

definition queued :: "int \<Rightarrow> WorkerAssignment list \<Rightarrow> WorkerAssignment list \<Rightarrow> WorkerAssignment list \<Rightarrow> bool" where
  "queued limit q as q' \<longleftrightarrow> mset q' \<subseteq># mset q + mset as
     \<and> (int (length q + length as) \<le> limit \<longrightarrow> q' = q @ as)
     \<and> (int (length q) \<le> limit \<longrightarrow> int (length q') \<le> limit)"

lemma queued_Nil [simp]: "queued limit q [] q"
  by (simp add: queued_def)

lemma queued_trans:
  assumes "queued limit q as q'" and "queued limit q' bs q''"
  shows "queued limit q (as @ bs) q''"
proof -
  have "mset q'' \<subseteq># mset q' + mset bs" "mset q' \<subseteq># mset q + mset as" using assms by (simp_all add: queued_def)
  then have "mset q'' \<subseteq># mset q + mset as + mset bs" by (meson subset_mset.add_right_mono subset_mset.order_trans)
  with assms show ?thesis by (simp add: queued_def add.assoc)
qed

lemma add_assignment:
  "queued (queue_limit s) (pend s w) (if w = k then [a] else []) (pend (addAssignmentLocked k a s) w)"
  "sv_pendingAck (addAssignmentLocked k a s) = sv_pendingAck s" "rest_of (addAssignmentLocked k a s) = rest_of s"
proof -
  have "mset (drop n q) \<subseteq># mset q" for n and q :: "WorkerAssignment list"
    by (metis append_take_drop_id mset_append mset_subset_eq_add_right)
  with queue_limit_pos [of s] show "queued (queue_limit s) (pend s w) (if w = k then [a] else []) (pend (addAssignmentLocked k a s) w)"
    by (auto simp: queued_def addAssignmentLocked_def Let_def)
qed (simp_all add: addAssignmentLocked_def Let_def rest_of_def)

lemma add_assignments:
  "queued (queue_limit s) (pend s w) (mine w ps) (pend (fold Server_AddAssignment ps s) w)
    \<and> sv_pendingAck (fold Server_AddAssignment ps s) = sv_pendingAck s \<and> rest_of (fold Server_AddAssignment ps s) = rest_of s"
proof (induction ps arbitrary: s)
  case (Cons p ps)
  obtain k a where p: "p = (k, a)" by (cases p)
  let ?s = "addAssignmentLocked k a s"
  note one = add_assignment [where k = k and a = a and s = s]
  have "queued (queue_limit ?s) (pend ?s w) (mine w ps) (pend (fold Server_AddAssignment ps ?s) w)" using Cons.IH by blast
  with one(1) [of w] have "queued (queue_limit s) (pend s w) ((if w = k then [a] else []) @ mine w ps) (pend (fold Server_AddAssignment ps ?s) w)"
    by (metis queued_trans rest_parts(1) one(3))
  with Cons.IH [of ?s] one(2,3) show ?case by (auto simp: p mine_Cons Server_AddAssignment_def)
qed simp

section \<open>A sweep\<close>

lemma requeue_one:
  fixes now timeout :: int and n :: nat and w :: string and s :: server
  defines "late \<equiv> \<lambda>d. now - da_deliveredAt d > timeout"
  defines "t \<equiv> snd (requeue_worker now timeout (w, delivered s w) (n, s))"
  shows "queued (queue_limit s) (pend s k) (if k = w then map da_assignment (filter late (delivered s w)) else []) (pend t k)"
    and "delivered t k = (if k = w then filter (\<lambda>d. \<not> late d) (delivered s w) else delivered s k)" and "rest_of t = rest_of s"
    and "keys_distinct (sv_pendingAck s) \<Longrightarrow> keys_distinct (sv_pendingAck t)"
proof -
  let ?p = "delivered s w" and ?ps = "map (Pair w) (map da_assignment (filter late (delivered s w)))"
  let ?s = "fold Server_AddAssignment ?ps s"
  note all = add_assignments [where ps = ?ps and s = s]
  have "fold (\<lambda>d. addAssignmentLocked w (da_assignment d)) (filter late ?p) s = ?s"
    by (simp add: fold_map Server_AddAssignment_def comp_def)
  then have t: "t = (if filter (\<lambda>d. \<not> late d) ?p = [] then ?s\<lparr>sv_pendingAck := map_del w (sv_pendingAck s)\<rparr>
      else ?s\<lparr>sv_pendingAck := map_put w (filter (\<lambda>d. \<not> late d) ?p) (sv_pendingAck s)\<rparr>)"
    using all by (auto simp: t_def requeue_worker_def late_def Let_def)
  then have "sv_pendingAssignments t = sv_pendingAssignments ?s" by simp
  with all [of k] show "queued (queue_limit s) (pend s k) (if k = w then map da_assignment (filter late ?p) else []) (pend t k)"
    by (simp del: map_map)
  show "delivered t k = (if k = w then filter (\<lambda>d. \<not> late d) ?p else delivered s k)" by (auto simp: t)
  show "rest_of t = rest_of s" using all by (simp add: t rest_of_def)
  show "keys_distinct (sv_pendingAck s) \<Longrightarrow> keys_distinct (sv_pendingAck t)"
    by (simp add: t keys_distinct_put keys_distinct_del)
qed

text \<open>What a sweep does to a worker: the late assignments go back to its queue, the others stay.\<close>

definition late_at :: "int \<Rightarrow> int \<Rightarrow> deliveredAssignment \<Rightarrow> bool" where
  "late_at now timeout d \<longleftrightarrow> now - da_deliveredAt d > timeout"

definition swept :: "int \<Rightarrow> int \<Rightarrow> bool \<Rightarrow> string \<Rightarrow> server \<Rightarrow> server \<Rightarrow> bool" where
  "swept now timeout seen w s t \<longleftrightarrow>
     queued (queue_limit s) (pend s w) (if seen then map da_assignment (filter (late_at now timeout) (delivered s w)) else []) (pend t w)
     \<and> delivered t w = (if seen then filter (\<lambda>d. \<not> late_at now timeout d) (delivered s w) else delivered s w)"

lemma swept_one: "swept now timeout (k = w) k s (snd (requeue_worker now timeout (w, delivered s w) (n, s)))"
  using requeue_one(1,2) [where now = now and timeout = timeout and n = n and s = s and w = w and k = k]
  by (auto simp: swept_def late_at_def [abs_def])

lemma swept_trans:
  assumes "swept now timeout a w s t" and "swept now timeout b w t u" and "\<not> (a \<and> b)" and "queue_limit t = queue_limit s"
  shows "swept now timeout (a \<or> b) w s u"
proof -
  from assms(3) consider "\<not> a" "\<not> b" | "a" "\<not> b" | "\<not> a" "b" by blast
  then show ?thesis
    using assms(1,2,4) queued_trans [of "queue_limit s" "pend s w" _ "pend t w"] by cases (force simp: swept_def)+
qed

lemma requeue_many:
  assumes "distinct (map fst es)" and "\<And>w p. (w, p) \<in> set es \<Longrightarrow> delivered s w = p" and "keys_distinct (sv_pendingAck s)"
  shows "(\<forall>w. swept now timeout (w \<in> fst ` set es) w s (snd (fold (requeue_worker now timeout) es (n, s))))
    \<and> rest_of (snd (fold (requeue_worker now timeout) es (n, s))) = rest_of s
    \<and> keys_distinct (sv_pendingAck (snd (fold (requeue_worker now timeout) es (n, s))))"
  using assms
proof (induction es arbitrary: n s)
  case (Cons e es)
  obtain w where e: "e = (w, delivered s w)" using Cons.prems(2) by (cases e) auto
  define s1 where "s1 = snd (requeue_worker now timeout e (n, s))"
  define n1 where "n1 = fst (requeue_worker now timeout e (n, s))"
  have w: "w \<notin> fst ` set es" using Cons.prems(1) e by auto
  have one: "swept now timeout (k = w) k s s1" for k unfolding s1_def e by (rule swept_one)
  have s1: "rest_of s1 = rest_of s" "keys_distinct (sv_pendingAck s1)"
    unfolding s1_def e by (rule requeue_one(3)) (rule requeue_one(4) [OF Cons.prems(3)])
  have "delivered s1 k = q" if "(k, q) \<in> set es" for k q
  proof -
    from that w have "k \<noteq> w" by (metis fst_conv image_eqI)
    with one [of k] have "delivered s1 k = delivered s k" by (simp add: swept_def)
    with Cons.prems(2) [of k q] that show ?thesis by simp
  qed
  with Cons.prems(1) s1(2) Cons.IH [of s1 n1]
  have ih: "swept now timeout (k \<in> fst ` set es) k s1 (snd (fold (requeue_worker now timeout) es (n1, s1)))"
    and rest: "rest_of (snd (fold (requeue_worker now timeout) es (n1, s1))) = rest_of s1"
    and keys: "keys_distinct (sv_pendingAck (snd (fold (requeue_worker now timeout) es (n1, s1))))" for k by auto
  have fold: "fold (requeue_worker now timeout) (e # es) (n, s) = fold (requeue_worker now timeout) es (n1, s1)"
    by (simp add: s1_def n1_def)
  have "swept now timeout (k = w \<or> k \<in> fst ` set es) k s (snd (fold (requeue_worker now timeout) es (n1, s1)))" for k
    using swept_trans [OF one ih] w rest_parts(1) [OF s1(1)] by auto
  with rest keys s1 show ?case unfolding fold by (simp add: e)
qed (simp add: swept_def)

lemma requeue_swept:
  assumes "keys_distinct (sv_pendingAck s)"
  shows "swept (int (rm_now (sv_rm s))) pendingAckTimeout True w s (requeue_tick s)" and "rest_of (requeue_tick s) = rest_of s"
    and "keys_distinct (sv_pendingAck (requeue_tick s))"
proof -
  let ?now = "int (rm_now (sv_rm s))"
  have "delivered s w = p" if "(w, p) \<in> set (sv_pendingAck s)" for w p
    using assms that by (simp add: keys_distinct_def queue_of_def)
  note many = requeue_many [where now = ?now and timeout = pendingAckTimeout and n = 0, OF assms [unfolded keys_distinct_def] this assms]
  have eq: "requeue_tick s = snd (fold (requeue_worker ?now pendingAckTimeout) (sv_pendingAck s) (0, s))"
    by (simp add: requeue_tick_def requeueExpiredPendingAcks_def pendingAckTimeout_def)
  have "delivered s w = []" if "w \<notin> fst ` set (sv_pendingAck s)"
    using that get_iff_mem [OF assms] by (auto simp: queue_of_def image_iff split: option.split)
  then have "swept ?now pendingAckTimeout False w s t \<Longrightarrow> w \<notin> fst ` set (sv_pendingAck s) \<Longrightarrow> swept ?now pendingAckTimeout True w s t" for t
    by (simp add: swept_def)
  with many show "swept ?now pendingAckTimeout True w s (requeue_tick s)" unfolding eq by (metis (full_types))
  show "rest_of (requeue_tick s) = rest_of s" "keys_distinct (sv_pendingAck (requeue_tick s))" using many eq by simp_all
qed

section \<open>The server's life\<close>

text \<open>A server as the program builds it, before it serves.\<close>

inductive configured :: "run_manager \<Rightarrow> server \<Rightarrow> bool" for rm where
  new: "configured rm (NewServer rm)"
| limit: "configured rm s \<Longrightarrow> configured rm (SetMaxPendingAssignmentsPerWorker n s)"
| registry: "configured rm s \<Longrightarrow> configured rm (SetRegistry b s)"
| leases: "configured rm s \<Longrightarrow> configured rm (SetLeaseManager b s)"
| telemetry: "configured rm s \<Longrightarrow> configured rm (Server_SetTelemetryStore ts s)"
| auth: "configured rm s \<Longrightarrow> configured rm (SetWorkerAuthEnabled b s)"
| redact: "configured rm s \<Longrightarrow> configured rm (SetRedactAssignmentSecrets b s)"

lemmas setters = SetMaxPendingAssignmentsPerWorker_def SetRegistry_def SetLeaseManager_def Server_SetTelemetryStore_def
  SetWorkerAuthEnabled_def SetRedactAssignmentSecrets_def

lemma configured_parts:
  "configured rm s \<Longrightarrow> sv_rm s = rm \<and> sv_pendingAssignments s = [] \<and> sv_pendingAck s = [] \<and> sv_workerTokens s = []"
  by (induction rule: configured.induct) (simp_all add: NewServer_def setters)

text \<open>
  A step of the run manager, with the calls it makes to its sender (the server) and to the telemetry store.
\<close>

definition absorb :: "run_manager \<Rightarrow> server \<Rightarrow> server" where
  "absorb rm s =
     fold Server_AddAssignment (drop (length (rm_sent (sv_rm s))) (rm_sent rm))
       (s\<lparr>sv_rm := rm, sv_telemetry := map_option (fold (\<lambda>(rid, sid, why). store_metadata rid sid why)
          (drop (length (rm_metadata (sv_rm s))) (rm_metadata rm))) (sv_telemetry s)\<rparr>)"

text \<open>
  \<open>server_run E srt tr s\<close>: \<open>s\<close> is a state the server can get to, and \<open>tr\<close> what the workers asked and were answered on
  the way. \<open>srt\<close> is the sort of the telemetry store.
\<close>

inductive server_run :: "environment \<Rightarrow> (OperationLog list \<Rightarrow> OperationLog list) \<Rightarrow> (request \<times> response) list \<Rightarrow> server \<Rightarrow> bool"
  for E srt where
  start: "reachable E rm \<Longrightarrow> rm_sent rm = [] \<Longrightarrow> configured rm s \<Longrightarrow> server_run E srt [] s"
| managed: "server_run E srt tr s \<Longrightarrow> rm_step E (sv_rm s) rm \<Longrightarrow> server_run E srt tr (absorb rm s)"
| asked: "server_run E srt tr s \<Longrightarrow> routeWorkers srt bytes rq s = (resp, t) \<Longrightarrow> server_run E srt (tr @ [(rq, resp)]) t"
| requeue: "server_run E srt tr s \<Longrightarrow> server_run E srt tr (requeue_tick s)"

section \<open>Effects of the endpoints\<close>

definition path_parts :: "request \<Rightarrow> string list" where
  "path_parts rq = split_on (CHR ''/'') (trim_prefix ''/workers/'' (rq_Path rq))"

definition is_register :: "request \<Rightarrow> bool" where
  "is_register rq \<longleftrightarrow> (let path = trim_prefix ''/workers/'' (rq_Path rq) in path = [] \<or> path = ''/'' \<or> path = ''register'')"

lemma route_register: "is_register rq \<Longrightarrow> routeWorkers srt bytes rq s = handleRegisterWorker bytes rq s"
  by (auto simp: routeWorkers_def is_register_def Let_def)

lemma route_worker:
  assumes "\<not> is_register rq"
  obtains (heartbeat) w more where "path_parts rq = w # ''heartbeat'' # more" "routeWorkers srt bytes rq s = handleWorkerHeartbeat rq w s"
  | (telemetry) w more where "path_parts rq = w # ''telemetry'' # more" "routeWorkers srt bytes rq s = handleWorkerTelemetry srt rq w s"
  | (poll) w where "path_parts rq = [w, ''assignments'']" "routeWorkers srt bytes rq s = handleGetAssignments rq w s"
  | (ack) w where "path_parts rq = [w, ''assignments'', ''ack'']" "routeWorkers srt bytes rq s = handleAckAssignments rq w s"
  | (unknown) "routeWorkers srt bytes rq s = (endpoint_not_found (rq_Path rq), s)"
proof -
  have "routeWorkers srt bytes rq s =
      (case path_parts rq of
         [workerID, action] \<Rightarrow>
           if action = ''heartbeat'' then handleWorkerHeartbeat rq workerID s
           else if action = ''telemetry'' then handleWorkerTelemetry srt rq workerID s
           else if action = ''assignments'' then handleGetAssignments rq workerID s
           else (endpoint_not_found (rq_Path rq), s)
       | workerID # action # rest \<Rightarrow>
           if action = ''heartbeat'' then handleWorkerHeartbeat rq workerID s
           else if action = ''telemetry'' then handleWorkerTelemetry srt rq workerID s
           else if action = ''assignments'' \<and> rest = [''ack''] then handleAckAssignments rq workerID s
           else (endpoint_not_found (rq_Path rq), s)
       | _ \<Rightarrow> (endpoint_not_found (rq_Path rq), s))"
    using assms by (simp add: routeWorkers_def is_register_def path_parts_def Let_def)
  then show thesis using that by (auto split: list.splits if_splits)
qed

lemma route_poll:
  assumes "path_parts rq = [w, ''assignments'']"
  shows "routeWorkers srt bytes rq s = handleGetAssignments rq w s"
proof -
  have "\<not> is_register rq" using assms by (auto simp: is_register_def path_parts_def Let_def)
  with assms show ?thesis by (simp add: routeWorkers_def is_register_def path_parts_def Let_def)
qed

text \<open>The queues, the configuration and the sent assignments are as before.\<close>

definition same_queues :: "server \<Rightarrow> server \<Rightarrow> bool" where
  "same_queues s t \<longleftrightarrow> sv_pendingAssignments t = sv_pendingAssignments s \<and> sv_pendingAck t = sv_pendingAck s
     \<and> queue_limit t = queue_limit s \<and> sv_workerAuthEnabled t = sv_workerAuthEnabled s \<and> rm_sent (sv_rm t) = rm_sent (sv_rm s)"

lemma same_queues_refl [simp]: "same_queues s s"
  by (simp add: same_queues_def)

lemmas server_parts = same_queues_def set_registry_def set_leases_def queue_limit_def

lemma register_effect:
  assumes "handleRegisterWorker bytes rq s = (resp, t)"
  shows "same_queues s t" and "sv_workerTokens t = sv_workerTokens s
    \<or> (\<exists>w tok. resp = Response 201 (RegisterWorkerResponse w tok) \<and> sv_workerTokens t = map_put w tok (sv_workerTokens s))"
  using assms by (auto simp: handleRegisterWorker_def issueWorkerToken_def server_parts Let_def
      split: if_splits decoded.splits prod.splits sum.splits option.splits)

lemma heartbeat_effect:
  assumes "handleWorkerHeartbeat rq w s = (resp, t)"
  shows "same_queues s t" and "sv_workerTokens t = sv_workerTokens s"
  using assms by (auto simp: handleWorkerHeartbeat_def server_parts Let_def
      split: if_splits decoded.splits prod.splits option.splits)

lemma telemetry_effect:
  assumes "handleWorkerTelemetry srt rq w s = (resp, t)"
  shows "same_queues s t" and "sv_workerTokens t = sv_workerTokens s"
  using assms by (auto simp: handleWorkerTelemetry_def server_parts Let_def
      split: if_splits decoded.splits sum.splits option.splits)

lemma poll_effect:
  "handleGetAssignments rq w s = (resp, t) \<Longrightarrow> t = s \<or> t = snd (getAssignmentsForWorker w s)"
  by (auto simp: handleGetAssignments_def split: if_splits sum.splits option.splits prod.splits)

lemma ack_effect:
  "handleAckAssignments rq w s = (resp, t) \<Longrightarrow>
    t = s \<or> (\<exists>ids n. rq_ack rq = Decoded ids \<and> resp = Response 200 (AckAssignmentsResponse n) \<and> t = snd (ackAssignmentsForWorker w ids s))"
  by (auto simp: handleAckAssignments_def ackAssignmentsForWorker_def Let_def
      split: if_splits sum.splits option.splits prod.splits decoded.splits)

section \<open>No assignment is lost\<close>

lemma step_sends: "rm_step E rm rm' \<Longrightarrow> \<exists>new. rm_sent rm' = rm_sent rm @ new"
proof (induction rule: rm_step.induct)
  case (fin_wait rid actor t rm c rm1)
  then have "rm1 = init_drainCancel rid rm" by (auto dest: finalize_begin_Some)
  then show ?case by (simp add: frames)
qed (simp_all add: AddAssignment_def
     sched_sections [simplified] sched_stops [simplified] sched_other [simplified] sched_stopTimer [simplified] frames)

lemma absorb_effect:
  assumes "rm_step E (sv_rm s) rm"
  obtains new where "rm_sent rm = rm_sent (sv_rm s) @ new" and "sv_rm (absorb rm s) = rm"
    and "queued (queue_limit s) (pend s w) (mine w new) (pend (absorb rm s) w)" and "queue_limit (absorb rm s) = queue_limit s"
    and "sv_pendingAck (absorb rm s) = sv_pendingAck s" and "sv_workerTokens (absorb rm s) = sv_workerTokens s"
    and "sv_workerAuthEnabled (absorb rm s) = sv_workerAuthEnabled s"
proof -
  obtain new where new: "rm_sent rm = rm_sent (sv_rm s) @ new" using step_sends [OF assms] by blast
  let ?s = "s\<lparr>sv_rm := rm, sv_telemetry := map_option (fold (\<lambda>(rid, sid, why). store_metadata rid sid why)
      (drop (length (rm_metadata (sv_rm s))) (rm_metadata rm))) (sv_telemetry s)\<rparr>"
  have eq: "absorb rm s = fold Server_AddAssignment new ?s" by (simp add: absorb_def new)
  note all = add_assignments [where ps = new and s = ?s and w = w, folded eq]
  have lim: "queue_limit ?s = queue_limit s" by (simp add: queue_limit_def)
  from all have rest: "rest_of (absorb rm s) = rest_of ?s" by blast
  show thesis
    by (rule that [of new]) (use new all lim rest_parts [OF rest] in \<open>simp_all del: fold_simps\<close>)
qed

lemma poll_queues:
  fixes s :: server and w :: string
  defines "t \<equiv> snd (getAssignmentsForWorker w s)"
  shows "pend t k = (if k = w then [] else pend s k)"
    and "delivered t k = delivered s k @ (if k = w then map (\<lambda>a. \<lparr>da_assignment = a, da_deliveredAt = int (rm_now (sv_rm s))\<rparr>) (pend s w) else [])"
    and "rest_of t = rest_of s" and "keys_distinct (sv_pendingAck s) \<Longrightarrow> keys_distinct (sv_pendingAck t)"
    and "fst (getAssignmentsForWorker w s) = pend s w"
  by (auto simp: t_def getAssignmentsForWorker_def Let_def rest_of_def queue_of_def [of _ w] split: option.split)

lemma ack_queues:
  fixes s :: server and w :: string and ids :: "string list"
  defines "t \<equiv> snd (ackAssignmentsForWorker w ids s)"
  shows "pend t k = pend s k"
    and "delivered t k = (if k = w then filter (\<lambda>d. wa_LeaseID (da_assignment d) = [] \<or> wa_LeaseID (da_assignment d) \<notin> set ids) (delivered s w)
        else delivered s k)"
    and "rest_of t = rest_of s" and "keys_distinct (sv_pendingAck s) \<Longrightarrow> keys_distinct (sv_pendingAck t)"
proof -
  let ?keep = "\<lambda>d. wa_LeaseID (da_assignment d) = [] \<or> wa_LeaseID (da_assignment d) \<notin> set ids"
  have "filter (\<lambda>d. wa_LeaseID (da_assignment d) \<notin> set (filter (\<lambda>k. k \<noteq> []) ids)) = filter ?keep"
    by (rule arg_cong [where f = filter]) auto
  moreover have "filter ?keep (delivered s w) = delivered s w" if "set (filter (\<lambda>k. k \<noteq> []) ids) = {}"
    by (rule filter_True) (use that in auto)
  ultimately have f: "filter (\<lambda>d. wa_LeaseID (da_assignment d) \<notin> set (filter (\<lambda>k. k \<noteq> []) ids)) = filter ?keep"
    and none: "set (filter (\<lambda>k. k \<noteq> []) ids) = {} \<or> delivered s w = [] \<Longrightarrow> filter ?keep (delivered s w) = delivered s w" by auto
  have eq: "t = (if set (filter (\<lambda>k. k \<noteq> []) ids) = {} \<or> delivered s w = [] then s
      else if filter ?keep (delivered s w) = [] then s\<lparr>sv_pendingAck := map_del w (sv_pendingAck s)\<rparr>
      else s\<lparr>sv_pendingAck := map_put w (filter ?keep (delivered s w)) (sv_pendingAck s)\<rparr>)"
    unfolding t_def ackAssignmentsForWorker_def Let_def f by (simp del: set_filter)
  show "pend t k = pend s k" "rest_of t = rest_of s" "keys_distinct (sv_pendingAck s) \<Longrightarrow> keys_distinct (sv_pendingAck t)"
    unfolding eq by (auto simp: rest_of_def)
  show "delivered t k = (if k = w then filter ?keep (delivered s w) else delivered s k)" using none unfolding eq by auto
qed

text \<open>The lease ids that a worker has acknowledged.\<close>

definition acked_ids :: "string \<Rightarrow> (request \<times> response) list \<Rightarrow> string list" where
  "acked_ids w tr = concat (map (\<lambda>(rq, resp).
     case (rq_ack rq, resp_body resp) of
       (Decoded ids, AckAssignmentsResponse n) \<Rightarrow> if path_parts rq = [w, ''assignments'', ''ack''] then ids else []
     | _ \<Rightarrow> []) tr)"

lemma acked_append: "acked_ids w (tr @ tr') = acked_ids w tr @ acked_ids w tr'"
  by (simp add: acked_ids_def)

text \<open>The invariant of the queues of one worker.\<close>

definition worker_ok :: "(request \<times> response) list \<Rightarrow> server \<Rightarrow> string \<Rightarrow> bool" where
  "worker_ok tr s w \<longleftrightarrow> int (length (pend s w)) \<le> queue_limit s
     \<and> mset (outstanding s w) \<subseteq># mset (sent_to (sv_rm s) w)
     \<and> (int (length (sent_to (sv_rm s) w)) \<le> queue_limit s \<longrightarrow>
         set (sent_to (sv_rm s) w) \<subseteq> set (outstanding s w) \<union> {a. wa_LeaseID a \<in> set (acked_ids w tr)})"

lemma worker_ok_length: "worker_ok tr s w \<Longrightarrow> length (outstanding s w) \<le> length (sent_to (sv_rm s) w)"
  by (metis worker_ok_def size_mset size_mset_mono)

text \<open>The two ways a step may touch them: new assignments, and moves between the queues.\<close>

lemma worker_ok_send:
  assumes "worker_ok tr s w" and "queued (queue_limit s) (pend s w) (mine w new) (pend t w)" and "delivered t w = delivered s w"
    and "rm_sent (sv_rm t) = rm_sent (sv_rm s) @ new" and "queue_limit t = queue_limit s"
  shows "worker_ok tr t w"
proof -
  have q: "mset (pend t w) \<subseteq># mset (pend s w) + mset (mine w new)" using assms(2) by (simp add: queued_def)
  have "mset (outstanding t w) \<subseteq># mset (pend s w) + mset (mine w new) + mset (map da_assignment (delivered s w))"
    using q by (simp add: outstanding_def assms(3))
  also have "\<dots> \<subseteq># mset (sent_to (sv_rm t) w)"
    using assms(1) by (simp add: worker_ok_def outstanding_def assms(4) ac_simps)
  finally have sub: "mset (outstanding t w) \<subseteq># mset (sent_to (sv_rm t) w)" .
  have len: "length (outstanding s w) \<le> length (sent_to (sv_rm s) w)"
    by (rule worker_ok_length [OF assms(1)])
  have "pend t w = pend s w @ mine w new" if "int (length (sent_to (sv_rm t) w)) \<le> queue_limit s"
    using assms(2) that len by (simp add: queued_def assms(4) outstanding_def)
  then show ?thesis using assms(1,2,5) sub by (auto simp: worker_ok_def queued_def assms(3,4) outstanding_def)
qed

lemma worker_ok_move:
  assumes "worker_ok tr s w" and "mset (outstanding t w) \<subseteq># mset (outstanding s w)"
    and "int (length (outstanding s w)) \<le> queue_limit s \<Longrightarrow> set (outstanding s w) \<subseteq> set (outstanding t w) \<union> {a. wa_LeaseID a \<in> set (acked_ids w tr')}"
    and "int (length (pend t w)) \<le> queue_limit s" and "rm_sent (sv_rm t) = rm_sent (sv_rm s)" and "queue_limit t = queue_limit s"
  shows "worker_ok (tr @ tr') t w"
proof -
  have "length (outstanding s w) \<le> length (sent_to (sv_rm s) w)"
    by (rule worker_ok_length [OF assms(1)])
  with assms show ?thesis by (fastforce simp: worker_ok_def acked_append intro: subset_mset.order_trans)
qed

lemma worker_ok_same:
  assumes "worker_ok tr s w" and "same_queues s t"
  shows "worker_ok (tr @ tr') t w"
  by (rule worker_ok_move [OF assms(1)]) (use assms in \<open>auto simp: same_queues_def outstanding_def worker_ok_def\<close>)

lemma worker_ok_poll:
  assumes "worker_ok tr s w"
  shows "worker_ok (tr @ tr') (snd (getAssignmentsForWorker k s)) w"
proof (rule worker_ok_move [OF assms])
  have eq: "mset (outstanding (snd (getAssignmentsForWorker k s)) w) = mset (outstanding s w)"
    by (simp add: outstanding_def poll_queues multiset.map_comp comp_def)
  then show "mset (outstanding (snd (getAssignmentsForWorker k s)) w) \<subseteq># mset (outstanding s w)" by simp
  show "set (outstanding s w) \<subseteq> set (outstanding (snd (getAssignmentsForWorker k s)) w) \<union> {a. wa_LeaseID a \<in> set (acked_ids w tr')}"
    using mset_eq_setD [OF eq] by simp
qed (use assms queue_limit_pos [of s] rest_parts [OF poll_queues(3)] in \<open>auto simp: poll_queues(1) worker_ok_def\<close>)

lemma image_filter_part [simp]: "image_mset f (filter_mset P M) \<subseteq># image_mset f M"
  by (simp add: image_mset_subseteq_mono)

lemma worker_ok_ack:
  assumes "worker_ok tr s w" and "k = w \<Longrightarrow> set ids \<subseteq> set (acked_ids w tr')"
  shows "worker_ok (tr @ tr') (snd (ackAssignmentsForWorker k ids s)) w"
proof (rule worker_ok_move [OF assms(1)])
  show "mset (outstanding (snd (ackAssignmentsForWorker k ids s)) w) \<subseteq># mset (outstanding s w)"
    by (simp add: outstanding_def ack_queues)
  show "set (outstanding s w) \<subseteq> set (outstanding (snd (ackAssignmentsForWorker k ids s)) w) \<union> {a. wa_LeaseID a \<in> set (acked_ids w tr')}"
    using assms(2) by (auto simp: outstanding_def ack_queues)
qed (use assms(1) rest_parts [OF ack_queues(3)] in \<open>auto simp: ack_queues(1) worker_ok_def\<close>)

lemma worker_ok_requeue:
  assumes "worker_ok tr s w" and "keys_distinct (sv_pendingAck s)"
  shows "worker_ok tr (requeue_tick s) w"
proof -
  let ?t = "requeue_tick s" and ?late = "late_at (int (rm_now (sv_rm s))) pendingAckTimeout" and ?p = "delivered s w"
  have q: "queued (queue_limit s) (pend s w) (map da_assignment (filter ?late ?p)) (pend ?t w)"
    and d: "delivered ?t w = filter (\<lambda>x. \<not> ?late x) ?p"
    using requeue_swept(1) [OF assms(2), of w] by (simp_all add: swept_def)
  have split: "mset (map da_assignment (filter ?late ?p)) + mset (map da_assignment (filter (\<lambda>x. \<not> ?late x) ?p)) = mset (map da_assignment ?p)"
    by (simp flip: image_mset_union)
  have "worker_ok (tr @ []) ?t w"
  proof (rule worker_ok_move [OF assms(1)])
    have "mset (pend ?t w) \<subseteq># mset (pend s w) + mset (map da_assignment (filter ?late ?p))" using q by (simp add: queued_def)
    then have "mset (pend ?t w) + mset (map da_assignment (filter (\<lambda>x. \<not> ?late x) ?p)) \<subseteq># mset (pend s w) + mset (map da_assignment ?p)"
      unfolding split [symmetric] by (metis add.assoc subset_mset.add_right_mono)
    then show "mset (outstanding ?t w) \<subseteq># mset (outstanding s w)" by (simp add: outstanding_def d)
    assume "int (length (outstanding s w)) \<le> queue_limit s"
    then have "int (length (pend s w) + length (map da_assignment (filter ?late ?p))) \<le> queue_limit s"
      using length_filter_le [of ?late ?p] unfolding outstanding_def length_append length_map by linarith
    with q have "pend ?t w = pend s w @ map da_assignment (filter ?late ?p)" by (simp add: queued_def)
    then show "set (outstanding s w) \<subseteq> set (outstanding ?t w) \<union> {a. wa_LeaseID a \<in> set (acked_ids w [])}"
      by (auto simp: outstanding_def d)
  qed (use assms(1) q rest_parts [OF requeue_swept(2) [OF assms(2)]] in \<open>auto simp: worker_ok_def queued_def\<close>)
  then show ?thesis by simp
qed

lemma server_run_queues: "server_run E srt tr s \<Longrightarrow> keys_distinct (sv_pendingAck s) \<and> worker_ok tr s w"
proof (induction rule: server_run.induct)
  case (start rm s)
  from configured_parts [OF start(3)] start(2) queue_limit_pos [of s] show ?case
    by (simp add: worker_ok_def outstanding_def queue_of_def less_imp_le)
next
  case (managed tr s rm)
  from managed(2) show ?case
    by (rule absorb_effect [where w = w]) (use managed(3) worker_ok_send [of tr s w _ "absorb rm s"] in auto)
next
  case (asked tr s bytes rq resp t)
  show ?case
  proof (cases "is_register rq")
    case True
    with asked(2) have "same_queues s t" by (simp add: route_register register_effect(1))
    with asked(3) worker_ok_same show ?thesis by (auto simp: same_queues_def)
  next
    case False
    then show ?thesis
    proof (cases rule: route_worker [where srt = srt and bytes = bytes and s = s])
      case (heartbeat k more)
      with asked(2) have "same_queues s t" by (simp add: heartbeat_effect(1))
      with asked(3) worker_ok_same show ?thesis by (auto simp: same_queues_def)
    next
      case (telemetry k more)
      with asked(2) have "same_queues s t" by (simp add: telemetry_effect(1))
      with asked(3) worker_ok_same show ?thesis by (auto simp: same_queues_def)
    next
      case (poll k)
      with asked(2) poll_effect [of rq k s resp t] asked(3) show ?thesis
        by (auto simp: poll_queues(4) intro: worker_ok_same worker_ok_poll)
    next
      case (ack k)
      with asked(2) ack_effect [of rq k s resp t] consider "t = s"
        | ids n where "rq_ack rq = Decoded ids" "resp = Response 200 (AckAssignmentsResponse n)" "t = snd (ackAssignmentsForWorker k ids s)"
        by auto
      then show ?thesis
      proof cases
        case 2
        with ack(1) have "k = w \<Longrightarrow> set ids \<subseteq> set (acked_ids w [(rq, resp)])" by (simp add: acked_ids_def)
        with asked(3) 2(3) show ?thesis by (auto simp: ack_queues(4) intro: worker_ok_ack)
      qed (use asked(3) worker_ok_same in auto)
    next
      case unknown
      with asked(2,3) worker_ok_same show ?thesis by auto
    qed
  qed
next
  case (requeue tr s)
  then show ?case by (simp add: requeue_swept(3) worker_ok_requeue)
qed

section \<open>Requests are steps of the run manager\<close>

lemma set_registry_steps: "registry_step (sv_registry s) r \<Longrightarrow> (rm_step E)\<^sup>*\<^sup>* (sv_rm s) (sv_rm (set_registry r s))"
  by (simp add: set_registry_def r_into_rtranclp rm_step.registry)

lemma renew_steps:
  "(rm_step E)\<^sup>*\<^sup>* (sv_rm s) (sv_rm (set_leases (snd (RenewWorkerLeases now w (rm_leases (sv_rm s)))) s))"
proof (cases "lm_closed (rm_leases (sv_rm s))")
  case False
  then show ?thesis
    by (simp add: set_leases_def RenewWorkerLeases_def) (rule r_into_rtranclp, rule rm_step.lease, rule lease_step.renew_worker)
qed (simp add: set_leases_def RenewWorkerLeases_def)

lemma register_steps:
  assumes "handleRegisterWorker bytes rq s = (resp, t)" and "clock_ms (now_ms (sv_rm s))"
  shows "(rm_step E)\<^sup>*\<^sup>* (sv_rm s) (sv_rm t)"
proof -
  let ?reg = "\<lambda>req :: RegisterWorkerRequest. RegisterWorker (now_ms (sv_rm s)) (int (now_ms (sv_rm s))) (rw_HostInfo req) (rw_Capacity req) (sv_registry s)"
  from assms(1) have "sv_rm t \<in> insert (sv_rm s) (range (\<lambda>req. sv_rm (set_registry (snd (?reg req)) s)))"
    by (auto simp: handleRegisterWorker_def issueWorkerToken_def Let_def split_beta
        split: if_splits decoded.splits sum.splits option.splits)
  moreover have "(rm_step E)\<^sup>*\<^sup>* (sv_rm s) (sv_rm (set_registry (snd (?reg req)) s))" for req
    by (rule set_registry_steps, rule registry_step.register, rule assms(2))
  ultimately show ?thesis by auto
qed

lemma heartbeat_steps:
  assumes "handleWorkerHeartbeat rq w s = (resp, t)"
  shows "(rm_step E)\<^sup>*\<^sup>* (sv_rm s) (sv_rm t)"
proof -
  let ?beat = "\<lambda>h. set_registry (snd (Heartbeat (int (now_ms (sv_rm s))) w h (sv_registry s))) s"
  let ?renew = "\<lambda>u. set_leases (snd (RenewWorkerLeases (int (now_ms (sv_rm u))) w (rm_leases (sv_rm u)))) u"
  from assms have "t \<in> insert s (range ?beat \<union> range (\<lambda>h. ?renew (?beat h)))"
    by (auto simp: handleWorkerHeartbeat_def Let_def split_beta split: if_splits decoded.splits option.splits)
  moreover have "(rm_step E)\<^sup>*\<^sup>* (sv_rm s) (sv_rm (?beat h))" for h
    by (rule set_registry_steps) (rule registry_step.heartbeat)
  ultimately show ?thesis using rtranclp_trans [OF _ renew_steps] by auto
qed

lemma telemetry_steps:
  assumes "handleWorkerTelemetry srt rq w s = (resp, t)"
  shows "(rm_step E)\<^sup>*\<^sup>* (sv_rm s) (sv_rm t)"
proof -
  let ?beat = "\<lambda>h. set_registry (snd (Heartbeat (int (now_ms (sv_rm s))) w h (sv_registry s))) s"
  from assms have "sv_rm t \<in> insert (sv_rm s) (range (\<lambda>h. sv_rm (?beat h)))"
    by (auto simp: handleWorkerTelemetry_def Let_def set_registry_def split: if_splits decoded.splits sum.splits option.splits)
  moreover have "(rm_step E)\<^sup>*\<^sup>* (sv_rm s) (sv_rm (?beat h))" for h
    by (rule set_registry_steps) (rule registry_step.heartbeat)
  ultimately show ?thesis by auto
qed

lemma request_steps:
  assumes "routeWorkers srt bytes rq s = (resp, t)" and "clock_ms (now_ms (sv_rm s))"
  shows "(rm_step E)\<^sup>*\<^sup>* (sv_rm s) (sv_rm t)"
proof (cases "is_register rq")
  case False
  then show ?thesis
  proof (cases rule: route_worker [where srt = srt and bytes = bytes and s = s])
    case (poll w)
    with assms(1) poll_effect [of rq w s resp t] rest_parts(2) [OF poll_queues(3)] show ?thesis by auto
  next
    case (ack w)
    with assms(1) ack_effect [of rq w s resp t] rest_parts(2) [OF ack_queues(3)] show ?thesis by auto
  next
    case (heartbeat w more)
    show ?thesis by (rule heartbeat_steps [of rq w s resp]) (use heartbeat(2) assms(1) in simp)
  next
    case (telemetry w more)
    show ?thesis by (rule telemetry_steps [of srt rq w s resp]) (use telemetry(2) assms(1) in simp)
  qed (use assms(1) in simp)
next
  case True
  show ?thesis by (rule register_steps [of bytes rq s resp, OF _ assms(2)]) (use True route_register assms(1) in simp)
qed

lemma server_run_reachable: "server_run E srt tr s \<Longrightarrow> reachable E (sv_rm s)"
proof (induction rule: server_run.induct)
  case (start rm s)
  then show ?case by (simp add: configured_parts)
next
  case (managed tr s rm)
  from managed(2) show ?case by (rule absorb_effect) (use managed(2,3) reachable_run [OF managed(3)] in auto)
next
  case (asked tr s bytes rq resp t)
  with request_steps reachable_clock reachable_run show ?case by metis
next
  case (requeue tr s)
  with server_run_queues [OF requeue(1)] rest_parts(2) [OF requeue_swept(2)] show ?case by auto
qed

section \<open>Tokens\<close>

lemma issued_tokens:
  "server_run E srt tr s \<Longrightarrow> map_get (sv_workerTokens s) w = Some tok \<Longrightarrow> \<exists>rq. (rq, Response 201 (RegisterWorkerResponse w tok)) \<in> set tr"
proof (induction arbitrary: w tok rule: server_run.induct)
  case (start rm s)
  then show ?case by (simp add: configured_parts)
next
  case (managed tr s rm)
  from managed(2) have "sv_workerTokens (absorb rm s) = sv_workerTokens s" by (rule absorb_effect)
  with managed(3,4) show ?case by simp
next
  case (asked tr s bytes rq resp t)
  have "sv_workerTokens t = sv_workerTokens s \<or> (\<exists>k v. resp = Response 201 (RegisterWorkerResponse k v) \<and> sv_workerTokens t = map_put k v (sv_workerTokens s))"
  proof (cases "is_register rq")
    case True
    with asked(2) register_effect(2) show ?thesis by (simp add: route_register)
  next
    case False
    then show ?thesis
    proof (cases rule: route_worker [where srt = srt and bytes = bytes and s = s])
      case (poll w)
      with asked(2) poll_effect [of rq w s resp t] rest_parts(3) [OF poll_queues(3)] show ?thesis by auto
    next
      case (ack w)
      with asked(2) ack_effect [of rq w s resp t] rest_parts(3) [OF ack_queues(3)] show ?thesis by auto
    next
      case (heartbeat w more)
      with asked(2) heartbeat_effect(2) [of rq w s resp t] show ?thesis by simp
    next
      case (telemetry w more)
      with asked(2) telemetry_effect(2) [of srt rq w s resp t] show ?thesis by simp
    qed (use asked(2) in simp)
  qed
  with asked(4) have "map_get (sv_workerTokens s) w = Some tok \<or> resp = Response 201 (RegisterWorkerResponse w tok)"
    by (auto split: if_splits)
  with asked(3) [of w tok] show ?case by auto
next
  case (requeue tr s)
  with server_run_queues [OF requeue(1)] rest_parts(3) [OF requeue_swept(2)] show ?case by auto
qed

definition token_ok :: "request \<Rightarrow> string \<Rightarrow> server \<Rightarrow> bool" where
  "token_ok rq w s \<longleftrightarrow> map_get (sv_workerTokens s) w = Some (rq_WorkerToken rq) \<and> rq_WorkerToken rq \<noteq> []"

lemma token_checked:
  assumes "sv_workerAuthEnabled s" and "\<not> token_ok rq w s"
  shows "handleWorkerHeartbeat rq w s = (resp, t) \<Longrightarrow> t = s \<and> resp_status resp \<in> {401, 405}"
    and "handleWorkerTelemetry srt rq w s = (resp, t) \<Longrightarrow> t = s \<and> resp_status resp \<in> {401, 405}"
    and "handleGetAssignments rq w s = (resp, t) \<Longrightarrow> t = s \<and> resp_status resp \<in> {401, 405}"
    and "handleAckAssignments rq w s = (resp, t) \<Longrightarrow> t = s \<and> resp_status resp \<in> {401, 405}"
proof -
  obtain r where r: "verifyWorkerToken (rq_WorkerToken rq) w s = Some r" "resp_status r = 401"
    using assms by (cases "rq_WorkerToken rq = []") (simp_all add: verifyWorkerToken_def token_ok_def unauthorized_def)
  have m: "resp_status (writeMethodNotAllowed a b) = 405" for a b by (simp add: writeMethodNotAllowed_def)
  show "handleWorkerHeartbeat rq w s = (resp, t) \<Longrightarrow> t = s \<and> resp_status resp \<in> {401, 405}"
    "handleWorkerTelemetry srt rq w s = (resp, t) \<Longrightarrow> t = s \<and> resp_status resp \<in> {401, 405}"
    "handleGetAssignments rq w s = (resp, t) \<Longrightarrow> t = s \<and> resp_status resp \<in> {401, 405}"
    "handleAckAssignments rq w s = (resp, t) \<Longrightarrow> t = s \<and> resp_status resp \<in> {401, 405}"
    using r(2) by (auto simp: handleWorkerHeartbeat_def handleWorkerTelemetry_def handleGetAssignments_def handleAckAssignments_def r(1) m
        split: if_splits)
qed

section \<open>Identifiers\<close>

lemma id_patternI: "list_all is_hex xs \<Longrightarrow> lo \<le> length xs \<Longrightarrow> length xs \<le> hi \<Longrightarrow> id_pattern p lo hi (p @ xs)"
  by (simp add: id_pattern_def)

lemma generated_run_id:
  assumes "clock_ms (now_ms rm)"
  shows "runIDPattern (fst (generateRunID rm))" and "executionIDPattern (fst (generateExecutionID rm))"
proof -
  have "rm_now rm < 16 ^ 16" using assms by (simp add: clock_ms_def now_ms_def div_less_iff_less_mult)
  then have "length (hex_pad 16 (rm_now rm)) = 16" using hex_pad_length [of "rm_now rm" 15] by simp
  moreover have "length (hex_pad 4 (n mod 65536)) = 4" "length (hex_pad 12 (n mod 281474976710656)) = 12" for n
    using hex_pad_length [of "n mod 65536" 3] hex_pad_length [of "n mod 281474976710656" 11] by simp_all
  ultimately show "runIDPattern (fst (generateRunID rm))" "executionIDPattern (fst (generateExecutionID rm))"
    unfolding runIDPattern_def executionIDPattern_def generateRunID_def generateExecutionID_def Let_def fst_conv
    by (intro id_patternI; simp add: hex_pad_is_hex)+
qed

lemma worker_id_pattern:
  assumes "registry_inv r" and "map_get (workers r) w = Some info" and "reg_counter r < 2 ^ 63"
  shows "workerIDPattern w"
proof -
  from assms obtain ts c where w: "w = ''wkr_'' @ hex ts @ hex c" and ts: "clock_ms ts" and c: "c < 2 ^ 63"
    by (fastforce simp: registry_inv_def entry_ok_def stamp_id_def)
  have "length (hex c) \<le> 16" using hex_length_le [of c 15] c by simp
  moreover have "length (hex ts) = 11" using hex_length [of 10 ts] ts by (simp add: clock_ms_def)
  ultimately show ?thesis unfolding workerIDPattern_def w by (intro id_patternI) (simp_all add: hex_is_hex)
qed

lemma pattern_ne: "runIDPattern s \<Longrightarrow> s \<noteq> []" "executionIDPattern s \<Longrightarrow> s \<noteq> []" "workerIDPattern s \<Longrightarrow> s \<noteq> []" "stageIDPattern s \<Longrightarrow> s \<noteq> []"
  by (auto simp: runIDPattern_def executionIDPattern_def workerIDPattern_def stageIDPattern_def id_pattern_def)

lemma validate_operation_None:
  "validate_operation w i op = None \<longleftrightarrow> (oo_WorkerID op = [] \<or> oo_WorkerID op = w) \<and> workerIDPattern w
     \<and> executionIDPattern (oo_ExecutionID op) \<and> oo_Stage op \<in> set allowedStages \<and> stageIDPattern (oo_StageID op)"
  using pattern_ne
  by (auto simp: validate_operation_def missing_keys_def invalid_keys_def operation_keys_def allowedStages_def)

lemma validate_operations_None: "validate_operations w i ops = None \<longleftrightarrow> (\<forall>op \<in> set ops. validate_operation w 0 op = None)"
proof (induction ops arbitrary: i)
  case (Cons op ops)
  have "validate_operation w i op = None \<longleftrightarrow> validate_operation w 0 op = None" by (simp add: validate_operation_None)
  with Cons.IH [of "Suc i"] show ?case by (cases "validate_operation w i op") auto
qed simp

section \<open>Properties\<close>

text \<open>C26: the queues of a worker never exceed the limit and hold only assignments that the run manager sent to it, each at
  most as often as it was sent. As long as no more than the limit were sent to a worker, none is lost: each is waiting to
  be fetched or to be acknowledged, or the worker has acknowledged it, whatever the requests, sweeps and steps were.\<close>
theorem no_assignment_lost:
  assumes "server_run E srt tr s"
  shows "int (length (pend s w)) \<le> queue_limit s \<and> mset (outstanding s w) \<subseteq># mset (sent_to (sv_rm s) w)
    \<and> (int (length (sent_to (sv_rm s) w)) \<le> queue_limit s \<longrightarrow>
        (\<forall>a \<in> set (sent_to (sv_rm s) w). a \<in> set (outstanding s w) \<or> wa_LeaseID a \<in> set (acked_ids w tr)))"
  using server_run_queues [OF assms, of w] unfolding worker_ok_def by blast


text \<open>C28: with worker authentication on, a request to a worker's endpoints has an effect, or any answer but a refusal, only
  if it carries the token that the server gave out when it registered that very worker; any other request is refused and
  leaves the server as it was.\<close>
theorem worker_tokens:
  assumes "server_run E srt tr s" and "sv_workerAuthEnabled s" and "\<not> is_register rq" and "routeWorkers srt bytes rq s = (resp, t)"
  shows "t = s \<and> resp_status resp \<in> {401, 404, 405}
    \<or> (\<exists>rq0. (rq0, Response 201 (RegisterWorkerResponse (hd (path_parts rq)) (rq_WorkerToken rq))) \<in> set tr)"
proof (cases "token_ok rq (hd (path_parts rq)) s")
  case True
  then show ?thesis using issued_tokens [OF assms(1)] by (auto simp: token_ok_def)
next
  case False
  note no = token_checked [OF assms(2) False]
  from assms(3) have "t = s \<and> resp_status resp \<in> {401, 404, 405}"
  proof (cases rule: route_worker [where srt = srt and bytes = bytes and s = s])
    case (heartbeat w more)
    with no(1) [of resp t] assms(4) show ?thesis by auto
  next
    case (telemetry w more)
    with no(2) [of srt resp t] assms(4) show ?thesis by auto
  next
    case (poll w)
    with no(3) [of resp t] assms(4) show ?thesis by auto
  next
    case (ack w)
    with no(4) [of resp t] assms(4) show ?thesis by auto
  qed (use assms(4) in \<open>auto simp: endpoint_not_found_def\<close>)
  then show ?thesis ..
qed

text \<open>The identifiers that the control plane makes have the form its telemetry endpoint demands: run and execution ids,
  and the id of every registered worker. For a registered worker a batch passes the check exactly when its run id and
  each operation's execution id and stage id are well formed, the stage is a known one, and the worker id, where given,
  is the worker's own.\<close>
theorem generated_ids_accepted:
  assumes "reachable E rm" and "map_get (workers (rm_registry rm)) w = Some info" and "reg_counter (rm_registry rm) < 2 ^ 63"
  shows "runIDPattern (fst (generateRunID rm)) \<and> executionIDPattern (fst (generateExecutionID rm)) \<and> workerIDPattern w
    \<and> (validateTelemetryCorrelationKeys req w = None \<longleftrightarrow> runIDPattern (tb_RunID req)
        \<and> (\<forall>op \<in> set (tb_Operations req). (oo_WorkerID op = [] \<or> oo_WorkerID op = w) \<and> executionIDPattern (oo_ExecutionID op)
             \<and> oo_Stage op \<in> set allowedStages \<and> stageIDPattern (oo_StageID op)))"
proof -
  from reachable_inv [OF assms(1)] have "registry_inv (rm_registry rm)" by (simp add: rm_inv_def sched_inv_def)
  then have w: "workerIDPattern w" using assms(2,3) by (rule worker_id_pattern)
  have "validateTelemetryCorrelationKeys req w = None \<longleftrightarrow>
      validate_operations w 0 (tb_Operations req) = None \<and> runIDPattern (tb_RunID req)"
    using pattern_ne(1) by (auto simp: validateTelemetryCorrelationKeys_def missing_keys_def invalid_keys_def Let_def split: option.split)
  with w generated_run_id [OF reachable_clock [OF assms(1)]] show ?thesis
    by (auto simp: validate_operations_None validate_operation_None)
qed

section \<open>A small history\<close>

text \<open>A worker registers, is sent an assignment, fetches it and is silent for 61 seconds.\<close>

definition plain_request :: "string \<Rightarrow> string \<Rightarrow> string \<Rightarrow> request" where
  "plain_request method path token =
     \<lparr>rq_Method = method, rq_Path = path, rq_WorkerToken = token, rq_register = NoBody, rq_heartbeat = NoBody,
      rq_telemetry = NoBody, rq_ack = NoBody\<rparr>"

definition join_request :: request where
  "join_request = (plain_request ''POST'' ''/workers/register'' [])\<lparr>rq_register :=
     Decoded \<lparr>rw_HostInfo = \<lparr>Hostname = ''host'', IPAddr = [], Platform = []\<rparr>, rw_Capacity = \<lparr>MaxVUs = 10, MaxConcurrentOps = 1, MaxRPS = 1\<rparr>\<rparr>\<rparr>"

definition joined_id :: string where "joined_id = ''wkr_18bcfe568001''"

definition poll_request :: request where
  "poll_request = plain_request ''GET'' (''/workers/'' @ joined_id @ ''/assignments'') ''07''"

definition joined_response :: response where
  "joined_response = Response 201 (RegisterWorkerResponse joined_id ''07'')"

definition fresh_server :: server where
  "fresh_server = SetLeaseManager True (SetRegistry True (NewServer small_start))"

definition joined_server :: server where
  "joined_server = snd (routeWorkers id (Some [7]) join_request fresh_server)"

definition leased :: "run_manager \<Rightarrow> run_manager" where
  "leased rm = rm\<lparr>rm_leases := snd (IssueLease_locked (now_ms rm) (int (now_ms rm)) joined_id small_assignment (rm_leases rm))\<rparr>"

definition sample_work :: WorkerAssignment where
  "sample_work = worker_assignment small_id ''exe'' StageNamePreflight ''lse_18bcfe568001'' small_assignment 1000 sample_parsed"

definition leased_server :: server where
  "leased_server = absorb (leased (sv_rm joined_server)) joined_server"

definition sent_server :: server where
  "sent_server = absorb (AddAssignment joined_id sample_work (sv_rm leased_server)) leased_server"

definition polled_server :: server where
  "polled_server = snd (routeWorkers id None poll_request sent_server)"

definition late_server :: server where
  "late_server = absorb ((sv_rm polled_server)\<lparr>rm_now := 1700000061000000000\<rparr>) polled_server"

lemma joined_id_eq: "stamp_id ''wkr_'' 1700000000000 1 = joined_id" "stamp_id ''lse_'' 1700000000000 1 = ''lse_18bcfe568001''"
  by (simp_all add: stamp_id_def joined_id_def hex.simps hex_digit_def)

lemma small_start_parts: "now_ms small_start = 1700000000000" "rm_now small_start = 1700000000000000000" "rm_sent small_start = []"
  "rm_metadata small_start = []" "rm_registry small_start = NewRegistry" "rm_leases small_start = NewLeaseManager 60000"
  by (simp_all add: small_start_def server_start_def NewRunManager_def now_ms_def)

definition joined_info :: WorkerInfo where
  "joined_info = \<lparr>wi_WorkerID = joined_id, wi_HostInfo = \<lparr>Hostname = ''host'', IPAddr = [], Platform = []\<rparr>,
     wi_Capacity = \<lparr>MaxVUs = 10, MaxConcurrentOps = 1, MaxRPS = 1\<rparr>,
     wi_EffectiveCapacity = \<lparr>MaxVUs = 10, MaxConcurrentOps = 1, MaxRPS = 1\<rparr>, wi_Saturated = False,
     wi_RegisteredAt = 1700000000000, wi_LastHeartbeat = 1700000000000, wi_Health = None\<rparr>"

definition joined_registry :: registry where
  "joined_registry = \<lparr>workers = [(joined_id, joined_info)], reg_counter = 1, reg_closed = False\<rparr>"

lemma joined_eq:
  "routeWorkers id (Some [7]) join_request fresh_server = (joined_response,
     fresh_server\<lparr>sv_rm := small_start\<lparr>rm_registry := joined_registry\<rparr>,
       sv_workerTokens := [(joined_id, ''07'')]\<rparr>)"
proof -
  have "concat (map (hex_pad 2) [7]) = ''07''" by (simp add: hex_pad_def hex.simps hex_digit_def)
  moreover have "RegisterWorker 1700000000000 1700000000000 \<lparr>Hostname = ''host'', IPAddr = [], Platform = []\<rparr>
      \<lparr>MaxVUs = 10, MaxConcurrentOps = 1, MaxRPS = 1\<rparr> NewRegistry
      = (Inr joined_id, joined_registry)"
    using joined_id_eq by (simp add: RegisterWorker_def NewRegistry_def generateWorkerID_def joined_info_def joined_registry_def)
  ultimately show ?thesis
    by (simp add: routeWorkers_def join_request_def plain_request_def trim_prefix_def handleRegisterWorker_def fresh_server_def NewServer_def setters
        small_start_parts issueWorkerToken_def set_registry_def joined_response_def Let_def)
qed

lemma absorb_one:
  assumes "sv_telemetry s = None"
  shows "rm_sent rm = rm_sent (sv_rm s) \<Longrightarrow> absorb rm s = s\<lparr>sv_rm := rm\<rparr>"
    and "rm_sent rm = rm_sent (sv_rm s) @ [(w, a)] \<Longrightarrow> absorb rm s = addAssignmentLocked w a (s\<lparr>sv_rm := rm\<rparr>)"
proof -
  have eq: "s\<lparr>sv_rm := rm, sv_telemetry := None\<rparr> = s\<lparr>sv_rm := rm\<rparr>" using assms by (cases s) simp
  show "rm_sent rm = rm_sent (sv_rm s) \<Longrightarrow> absorb rm s = s\<lparr>sv_rm := rm\<rparr>"
    "rm_sent rm = rm_sent (sv_rm s) @ [(w, a)] \<Longrightarrow> absorb rm s = addAssignmentLocked w a (s\<lparr>sv_rm := rm\<rparr>)"
    using assms by (simp_all add: absorb_def Server_AddAssignment_def eq)
qed

abbreviation joined_rm :: run_manager where
  "joined_rm \<equiv> small_start\<lparr>rm_registry := joined_registry\<rparr>"

abbreviation sent_rm :: run_manager where
  "sent_rm \<equiv> AddAssignment joined_id sample_work (leased joined_rm)"

lemma joined_server_eq: "joined_server = fresh_server\<lparr>sv_rm := joined_rm, sv_workerTokens := [(joined_id, ''07'')]\<rparr>"
  by (simp add: joined_server_def joined_eq)

lemma leased_server_eq: "leased_server = joined_server\<lparr>sv_rm := leased joined_rm\<rparr>"
  by (simp add: leased_server_def absorb_one joined_server_eq fresh_server_def setters NewServer_def leased_def)

lemma sent_server_eq:
  "sent_server = joined_server\<lparr>sv_rm := sent_rm, sv_pendingAssignments := [(joined_id, [sample_work])]\<rparr>"
proof -
  have "sv_telemetry leased_server = None" by (simp add: leased_server_eq joined_server_eq fresh_server_def setters NewServer_def)
  then show ?thesis
    unfolding sent_server_def
    by (subst absorb_one(2) [where w = joined_id and a = sample_work])
      (simp_all add: leased_server_eq AddAssignment_def addAssignmentLocked_def queue_limit_def Let_def queue_of_def joined_server_eq fresh_server_def
        setters NewServer_def defaultMaxPendingAssignmentsPerWorker_def)
qed

lemma poll_path: "path_parts poll_request = [joined_id, ''assignments'']"
  by (simp add: path_parts_def poll_request_def plain_request_def joined_id_def trim_prefix_def)

lemma sent_rm_parts: "rm_now sent_rm = 1700000000000000000" "rm_registry sent_rm = rm_registry joined_rm" "rm_sent sent_rm = [(joined_id, sample_work)]"
  by (simp_all add: AddAssignment_def leased_def small_start_parts)

lemma joined_worker: "GetWorker joined_id joined_registry = Inr joined_info"
  by (simp add: GetWorker_def joined_registry_def)

lemma polled_server_eq:
  "routeWorkers id None poll_request sent_server = (Response 200 (GetAssignmentsResponse [sample_work]),
     joined_server\<lparr>sv_rm := sent_rm, sv_pendingAck := [(joined_id, [\<lparr>da_assignment = sample_work, da_deliveredAt = 1700000000000000000\<rparr>])]\<rparr>)"
  unfolding route_poll [OF poll_path]
  by (simp add: joined_worker handleGetAssignments_def verifyWorkerToken_def sent_server_eq joined_server_eq fresh_server_def setters NewServer_def
        poll_request_def plain_request_def sent_rm_parts getAssignmentsForWorker_def Let_def queue_of_def)

lemma late_server_eq:
  "late_server = joined_server\<lparr>sv_rm := sent_rm\<lparr>rm_now := 1700000061000000000\<rparr>,
     sv_pendingAck := [(joined_id, [\<lparr>da_assignment = sample_work, da_deliveredAt = 1700000000000000000\<rparr>])]\<rparr>"
  unfolding late_server_def polled_server_def
  by (subst absorb_one(1)) (simp_all add: polled_server_eq joined_server_eq fresh_server_def setters NewServer_def)

abbreviation small_trace :: "(request \<times> response) list" where
  "small_trace \<equiv> [(join_request, joined_response), (poll_request, Response 200 (GetAssignmentsResponse [sample_work]))]"

lemma joined_run: "server_run plain_env id [(join_request, joined_response)] joined_server"
proof -
  have "configured small_start fresh_server" unfolding fresh_server_def by (intro configured.intros)
  with small_start_reachable small_start_parts have "server_run plain_env id [] fresh_server" by (intro server_run.start)
  from server_run.asked [OF this joined_eq] show ?thesis by (simp add: joined_server_eq)
qed

lemma late_run: "server_run plain_env id small_trace late_server"
proof -
  have rm: "sv_rm joined_server = joined_rm" by (simp add: joined_server_eq)
  have "rm_step plain_env joined_rm (leased joined_rm)" unfolding leased_def
    by (rule rm_step.lease) (rule lease_step.issue, use small_clock(2) in \<open>simp add: now_ms_def\<close>)
  with joined_run have 1: "server_run plain_env id [(join_request, joined_response)] leased_server"
    unfolding leased_server_def by (intro server_run.managed) (simp_all add: rm)
  have "\<exists>ts c. clock_ms ts \<and> c \<le> 1 \<and> ''lse_18bcfe568001'' = stamp_id ''lse_'' ts c"
    using joined_id_eq(2) small_clock by (intro exI [of _ 1700000000000] exI [of _ 1]) simp
  then have "lease_matches (rm_leases (leased joined_rm)) (joined_id, sample_work)"
    using joined_id_eq(2) small_clock
    by (auto simp: lease_matches_def leased_def IssueLease_locked_def generateLeaseID_def small_start_parts NewLeaseManager_def now_ms_def sample_work_def
        worker_assignment_def small_assignment_def Let_def)
  then have "rm_step plain_env (sv_rm leased_server) (AddAssignment joined_id sample_work (sv_rm leased_server))"
    by (simp add: leased_server_eq rm_step.send)
  with 1 have 2: "server_run plain_env id [(join_request, joined_response)] sent_server"
    unfolding sent_server_def by (rule server_run.managed)
  from server_run.asked [OF 2 polled_server_eq] have 3: "server_run plain_env id small_trace polled_server"
    by (simp add: polled_server_def polled_server_eq)
  have "rm_step plain_env (sv_rm polled_server) ((sv_rm polled_server)\<lparr>rm_now := 1700000061000000000\<rparr>)"
    by (rule rm_step.tick) (simp add: clock_ms_def)
  from server_run.managed [OF 3 this] show ?thesis by (simp add: late_server_def)
qed

lemma late_server_queues: "pend late_server joined_id = []"
  "delivered late_server joined_id = [\<lparr>da_assignment = sample_work, da_deliveredAt = 1700000000000000000\<rparr>]"
  "queue_limit late_server = 100" "sent_to (sv_rm late_server) joined_id = [sample_work]"
  by (simp_all add: late_server_eq joined_server_eq fresh_server_def setters NewServer_def queue_limit_def
      defaultMaxPendingAssignmentsPerWorker_def queue_of_def sent_rm_parts mine_def)

theorem no_assignment_lost_witness:
  "server_run plain_env id small_trace late_server \<and> sent_to (sv_rm late_server) joined_id = [sample_work]
    \<and> (sample_work \<in> set (outstanding late_server joined_id) \<or> wa_LeaseID sample_work \<in> set (acked_ids joined_id small_trace))"
  using no_assignment_lost [OF late_run, of joined_id] late_run by (simp add: late_server_queues)


theorem worker_tokens_witness:
  "(let (resp, t) = routeWorkers id None (plain_request ''GET'' (''/workers/'' @ joined_id @ ''/assignments'') ''guess'') joined_server
    in t = joined_server \<and> resp_status resp \<in> {401, 404, 405})"
proof -
  let ?rq = "plain_request ''GET'' (''/workers/'' @ joined_id @ ''/assignments'') ''guess''"
  obtain resp t where r: "routeWorkers id None ?rq joined_server = (resp, t)" by (cases "routeWorkers id None ?rq joined_server")
  have "sv_workerAuthEnabled joined_server" by (simp add: joined_server_eq fresh_server_def setters NewServer_def)
  moreover have "\<not> is_register ?rq" by (simp add: is_register_def plain_request_def joined_id_def trim_prefix_def)
  moreover have "rq_WorkerToken ?rq = ''guess''" by (simp add: plain_request_def)
  ultimately show ?thesis using worker_tokens [OF joined_run _ _ r] unfolding r by (simp add: joined_response_def)
qed

theorem generated_ids_accepted_witness:
  "validateTelemetryCorrelationKeys \<lparr>tb_RunID = fst (generateRunID (sv_rm joined_server)), tb_Operations = [], tb_Health = None\<rparr> joined_id = None"
proof -
  have "map_get (workers (rm_registry (sv_rm joined_server))) joined_id = Some joined_info" "reg_counter (rm_registry (sv_rm joined_server)) < 2 ^ 63"
    by (simp_all add: joined_server_eq joined_registry_def)
  from generated_ids_accepted [OF server_run_reachable [OF joined_run] this] show ?thesis by simp
qed

end
