(* ===== verification/Sse_Decoder.thy ===== *)
theory Sse_Decoder
  imports Run_Events
begin

text \<open>
  The decoder of server-sent events (\<^verbatim>\<open>internal/transport/sse_decoder.go\<close>): reading lines, \<^verbatim>\<open>ReadEvent\<close>, the parser
  of a whole buffer, the response handler of a stream, and the statistics of the gaps between events with their sorting
  routines.

  The channel that the reader goroutine fills is the list of the results that the decoder receives from it: the lines with
  the error that came with them, and an \<open>ErrStreamStall\<close> wherever the stall timer fires before the next line. A closed
  channel is the empty list. Floating-point numbers are real numbers.
\<close>

section \<open>Data\<close>

record SSEEvent =
  se_ID :: string
  se_Event :: string
  se_Data :: string
  se_Retry :: int

datatype read_error = EOF | ErrStreamClosed | ErrStreamStall | ReadError string

record lineResult =
  lr_line :: string
  lr_err :: "read_error option"

record SSEDecoder =
  sd_lineCh :: "lineResult list"
  sd_lastEventID :: string
  sd_closed :: bool

abbreviation LF :: char where "LF \<equiv> CHR 0x0A"
abbreviation CR :: char where "CR \<equiv> CHR 0x0D"

definition zero_event :: SSEEvent where
  "zero_event = \<lparr>se_ID = [], se_Event = [], se_Data = [], se_Retry = 0\<rparr>"

definition isValidEventID :: "string \<Rightarrow> bool" where
  "isValidEventID i \<longleftrightarrow> take 4 i = ''evt_'' \<and> drop 4 i \<noteq> [] \<and> list_all is_hex (drop 4 i)"

section \<open>Lines\<close>

text \<open>\<^verbatim>\<open>strings.TrimSuffix(line, "\r")\<close>.\<close>

definition trim_cr :: "string \<Rightarrow> string" where
  "trim_cr l = (if l \<noteq> [] \<and> last l = CR then butlast l else l)"

text \<open>The lines that the reader goroutine sends for a body of these bytes, which ends with the error \<open>err\<close>.\<close>

definition readerLoop :: "string \<Rightarrow> read_error \<Rightarrow> lineResult list" where
  "readerLoop bytes err =
     (let pieces = split_on LF bytes
      in map (\<lambda>p. \<lparr>lr_line = trim_cr p, lr_err = None\<rparr>) (butlast pieces)
         @ [\<lparr>lr_line = trim_cr (last pieces), lr_err = Some err\<rparr>])"

definition NewSSEDecoder :: "lineResult list \<Rightarrow> SSEDecoder" where
  "NewSSEDecoder lines = \<lparr>sd_lineCh = lines, sd_lastEventID = [], sd_closed = False\<rparr>"

definition Close :: "SSEDecoder \<Rightarrow> SSEDecoder" where
  "Close d = d\<lparr>sd_closed := True\<rparr>"

text \<open>\<^verbatim>\<open>strconv.Atoi\<close>: an optional sign and decimal digits, within 64 bits.\<close>

definition atoi :: "string \<Rightarrow> int option" where
  "atoi s =
     (let (neg, ds) = (case s of c # cs \<Rightarrow> if c = CHR ''-'' then (True, cs) else if c = CHR ''+'' then (False, cs) else (False, s)
                       | [] \<Rightarrow> (False, s));
          n = foldl (\<lambda>a c. 10 * a + int (digit_value c)) 0 ds;
          v = (if neg then - n else n)
      in if ds = [] \<or> \<not> list_all (\<lambda>c. c \<in> set ''0123456789'') ds \<or> \<not> is_int64 v then None else Some v)"

section \<open>One event\<close>

definition split_field :: "string \<Rightarrow> string \<times> string" where
  "split_field line =
     (if CHR '':'' \<notin> set line then (line, [])
      else
        let field = takeWhile (\<lambda>c. c \<noteq> CHR '':'') line;
            v = drop (length field + 1) line
        in (field, if v \<noteq> [] \<and> hd v = CHR '' '' then tl v else v))"

definition set_field :: "string \<Rightarrow> string \<Rightarrow> SSEEvent \<times> string list \<Rightarrow> SSEEvent \<times> string list" where
  "set_field field v = (\<lambda>(event, dataLines).
     if field = ''event'' then (event\<lparr>se_Event := v\<rparr>, dataLines)
     else if field = ''data'' then (event, dataLines @ [v])
     else if field = ''id'' then (if CHR 0x00 \<notin> set v then event\<lparr>se_ID := v\<rparr> else event, dataLines)
     else if field = ''retry'' then (case atoi v of Some r \<Rightarrow> event\<lparr>se_Retry := r\<rparr> | None \<Rightarrow> event, dataLines)
     else (event, dataLines))"

text \<open>\<^verbatim>\<open>strings.Join(dataLines, "\n")\<close>.\<close>

fun join_lines :: "string list \<Rightarrow> string" where
  "join_lines [] = []"
| "join_lines [l] = l"
| "join_lines (l # ls) = l @ LF # join_lines ls"

definition has_content :: "SSEEvent \<Rightarrow> string list \<Rightarrow> bool" where
  "has_content event dataLines \<longleftrightarrow> dataLines \<noteq> [] \<or> se_Event event \<noteq> [] \<or> se_ID event \<noteq> []"

definition finish_event :: "SSEEvent \<Rightarrow> string list \<Rightarrow> SSEEvent" where
  "finish_event event dataLines = event\<lparr>se_Data := join_lines dataLines\<rparr>"

text \<open>The loop of \<^verbatim>\<open>ReadEvent\<close>; reading from the closed channel gives an empty line and \<^verbatim>\<open>io.EOF\<close>.\<close>

fun read_loop :: "SSEEvent \<Rightarrow> string list \<Rightarrow> lineResult list \<Rightarrow> (read_error + SSEEvent) \<times> lineResult list" where
  "read_loop event dataLines [] =
     (if has_content event dataLines then Inr (finish_event event dataLines) else Inl EOF, [])"
| "read_loop event dataLines (r # rest) =
     (let line = lr_line r; eof = (lr_err r = Some EOF)
      in if lr_err r \<noteq> None \<and> \<not> eof then (Inl (the (lr_err r)), rest)
         else if line = [] then
           if has_content event dataLines then (Inr (finish_event event dataLines), rest)
           else if eof then (Inl EOF, rest)
           else read_loop event dataLines rest
         else if hd line = CHR '':'' then
           if eof then (Inl EOF, rest) else read_loop event dataLines rest
         else
           case set_field (fst (split_field line)) (snd (split_field line)) (event, dataLines) of (event1, dataLines1) \<Rightarrow>
             if eof then
               (if has_content event1 dataLines1 then (Inr (finish_event event1 dataLines1), rest) else (Inl EOF, rest))
             else read_loop event1 dataLines1 rest)"

definition ReadEvent :: "SSEDecoder \<Rightarrow> (read_error + SSEEvent) \<times> SSEDecoder" where
  "ReadEvent d =
     (if sd_closed d then (Inl ErrStreamClosed, d)
      else
        case read_loop zero_event [] (sd_lineCh d) of
          (Inl err, rest) \<Rightarrow> (Inl err, d\<lparr>sd_lineCh := rest\<rparr>)
        | (Inr event, rest) \<Rightarrow>
            (Inr event, d\<lparr>sd_lineCh := rest,
               sd_lastEventID := (if se_ID event \<noteq> [] \<and> isValidEventID (se_ID event) then se_ID event else sd_lastEventID d)\<rparr>))"

section \<open>A whole buffer\<close>

fun parse_loop :: "SSEEvent option \<Rightarrow> string list \<Rightarrow> SSEEvent list \<Rightarrow> lineResult list \<Rightarrow> SSEEvent list" where
  "parse_loop current dataLines events [] = events"
| "parse_loop current dataLines events (r # rest) =
     (let line = lr_line r; eof = (lr_err r = Some EOF);
          event = (case current of Some e \<Rightarrow> e | None \<Rightarrow> zero_event)
      in if line = [] then
           if current \<noteq> None \<or> dataLines \<noteq> [] then
             if eof then events @ [finish_event event dataLines]
             else parse_loop None [] (events @ [finish_event event dataLines]) rest
           else if eof then events
           else parse_loop current dataLines events rest
         else if hd line = CHR '':'' then
           if eof then events else parse_loop current dataLines events rest
         else
           case set_field (fst (split_field line)) (snd (split_field line)) (event, dataLines) of (event1, dataLines1) \<Rightarrow>
             if eof then events @ [finish_event event1 dataLines1]
             else parse_loop (Some event1) dataLines1 events rest)"

definition ParseSSEFromBytes :: "string \<Rightarrow> SSEEvent list" where
  "ParseSSEFromBytes data = parse_loop None [] [] (readerLoop data EOF)"

section \<open>Sorting\<close>

text \<open>\<^verbatim>\<open>s[i], s[j] = s[j], s[i]\<close>.\<close>

definition swap :: "int list \<Rightarrow> int \<Rightarrow> int \<Rightarrow> int list" where
  "swap s i j = s[nat i := s ! nat j, nat j := s ! nat i]"

function shift_loop :: "int list \<Rightarrow> int \<Rightarrow> int \<Rightarrow> int list \<times> int" where
  "shift_loop s key j =
     (if j \<ge> 0 \<and> s ! nat j > key then shift_loop (s[nat (j + 1) := s ! nat j]) key (j - 1) else (s, j))"
  by pat_completeness auto
termination by (relation "measure (\<lambda>(s, key, j). nat (j + 1))") auto

declare shift_loop.simps [simp del]

text \<open>One pass of the outer loop, and the loop.\<close>

definition insert_at :: "int list \<Rightarrow> nat \<Rightarrow> int list" where
  "insert_at s i = (let key = s ! i; (s1, j) = shift_loop s key (int i - 1) in s1[nat (j + 1) := key])"

definition insertionSortInt64 :: "int list \<Rightarrow> int list" where
  "insertionSortInt64 s = fold (\<lambda>i s. insert_at s i) [1..<length s] s"

function partition_loop :: "int list \<Rightarrow> int \<Rightarrow> int \<Rightarrow> int \<Rightarrow> int \<Rightarrow> int list \<times> int" where
  "partition_loop s pivot hi i j =
     (if j < hi then
        if s ! nat j \<le> pivot then partition_loop (swap s (i + 1) j) pivot hi (i + 1) (j + 1)
        else partition_loop s pivot hi i (j + 1)
      else (s, i))"
  by pat_completeness auto
termination by (relation "measure (\<lambda>(s, pivot, hi, i, j). nat (hi - j))") auto

declare partition_loop.simps [simp del]

definition partitionInt64 :: "int list \<Rightarrow> int \<Rightarrow> int \<Rightarrow> int list \<times> int" where
  "partitionInt64 s lo hi =
     (let (s1, i) = partition_loop s (s ! nat hi) hi (lo - 1) lo in (swap s1 (i + 1) hi, i + 1))"

text \<open>The split point lies in the range whatever the array holds, so the recursion ends.\<close>

lemma partition_loop_range: "i < j \<Longrightarrow> j \<le> hi \<Longrightarrow> i \<le> snd (partition_loop s pivot hi i j) \<and> snd (partition_loop s pivot hi i j) < hi"
proof (induction s pivot hi i j rule: partition_loop.induct)
  case (1 s pivot hi i j)
  then show ?case by (subst (1 2) partition_loop.simps) (auto split: if_splits)
qed

lemma partition_range: "(s', p) = partitionInt64 s lo hi \<Longrightarrow> lo < hi \<Longrightarrow> lo \<le> p \<and> p \<le> hi"
  using partition_loop_range [of "lo - 1" lo hi s "s ! nat hi"] by (auto simp: partitionInt64_def Let_def split: prod.splits)

function quicksortInt64 :: "int list \<Rightarrow> int \<Rightarrow> int \<Rightarrow> int list" where
  "quicksortInt64 s lo hi =
     (if lo < hi then
        let (s1, p) = partitionInt64 s lo hi;
            s2 = quicksortInt64 s1 lo (p - 1)
        in quicksortInt64 s2 (p + 1) hi
      else s)"
  by pat_completeness auto
termination by (relation "measure (\<lambda>(s, lo, hi). nat (hi - lo))") (auto dest: partition_range)

declare quicksortInt64.simps [simp del]

definition sortInt64Slice :: "int list \<Rightarrow> int list" where
  "sortInt64Slice s =
     (if length s \<le> 20 then insertionSortInt64 s else quicksortInt64 s 0 (int (length s) - 1))"

section \<open>Gaps between events\<close>

record eventGapTracker =
  gt_gaps :: "int list"
  gt_count :: int
  gt_sum :: int
  gt_min :: int
  gt_max :: int
  gt_buckets :: "int list"

record EventGapHistogram =
  gh_buckets :: "int list"
  gh_MinGapMs :: int
  gh_MaxGapMs :: int
  gh_AvgGapMs :: real
  gh_P50GapMs :: int
  gh_P95GapMs :: int
  gh_P99GapMs :: int

definition eventGapTrackerMinUnset :: int where "eventGapTrackerMinUnset = -1"
definition eventGapTrackerMaxSample :: nat where "eventGapTrackerMaxSample = 1000"

definition newEventGapTracker :: eventGapTracker where
  "newEventGapTracker = \<lparr>gt_gaps = [], gt_count = 0, gt_sum = 0, gt_min = eventGapTrackerMinUnset, gt_max = 0,
     gt_buckets = replicate 6 0\<rparr>"

definition gap_bucket :: "int \<Rightarrow> nat" where
  "gap_bucket gapMs =
     (if gapMs < 10 then 0 else if gapMs < 50 then 1 else if gapMs < 100 then 2 else if gapMs < 500 then 3
      else if gapMs < 1000 then 4 else 5)"

definition recordGap :: "int \<Rightarrow> eventGapTracker \<Rightarrow> eventGapTracker" where
  "recordGap gapMs t =
     t\<lparr>gt_gaps := (if length (gt_gaps t) < eventGapTrackerMaxSample then gt_gaps t @ [gapMs] else gt_gaps t),
       gt_count := gt_count t + 1,
       gt_sum := wrap64 (gt_sum t + gapMs),
       gt_min := (if gt_min t = eventGapTrackerMinUnset \<or> gapMs < gt_min t then gapMs else gt_min t),
       gt_max := (if gapMs > gt_max t then gapMs else gt_max t),
       gt_buckets := (gt_buckets t)[gap_bucket gapMs := gt_buckets t ! gap_bucket gapMs + 1]\<rparr>"

text \<open>The conversion of a floating-point number to an integer, toward zero.\<close>

definition to_int64 :: "real \<Rightarrow> int" where
  "to_int64 x = (if x \<ge> 0 then \<lfloor>x\<rfloor> else \<lceil>x\<rceil>)"

definition gap_percentile :: "int list \<Rightarrow> int \<Rightarrow> int" where
  "gap_percentile srt p =
     (if srt = [] then 0
      else if length srt = 1 then srt ! 0
      else
        let rank = real_of_int p / 100 * real (length srt - 1);
            lower = to_int64 rank;
            upper = lower + 1
        in if upper \<ge> int (length srt) then srt ! (length srt - 1)
           else
             let weight = rank - real_of_int lower
             in srt ! nat lower + to_int64 (weight * real_of_int (srt ! nat upper - srt ! nat lower)))"

definition buildHistogram :: "eventGapTracker \<Rightarrow> EventGapHistogram option" where
  "buildHistogram t =
     (if gt_count t = 0 then None
      else
        let srt = sortInt64Slice (gt_gaps t);
            pct = (\<lambda>p. if gt_gaps t = [] then 0 else gap_percentile srt p)
        in Some \<lparr>gh_buckets = gt_buckets t, gh_MinGapMs = gt_min t, gh_MaxGapMs = gt_max t,
             gh_AvgGapMs = real_of_int (gt_sum t) / real_of_int (gt_count t),
             gh_P50GapMs = pct 50, gh_P95GapMs = pct 95, gh_P99GapMs = pct 99\<rparr>)"

section \<open>The response of a stream\<close>

record JSONRPCError =
  je_Code :: int
  je_Message :: string

record JSONRPCResponse =
  rp_ID :: json
  rp_Result :: "json option"
  rp_Error :: "JSONRPCError option"

record StreamSignals =
  sg_IsStreaming :: bool
  sg_EventsCount :: int
  sg_EndedNormally :: bool
  sg_Stalled :: bool
  sg_StallDurationMs :: int
  sg_StreamConnectMs :: int
  sg_TimeToFirstEventMs :: int
  sg_StallCount :: int
  sg_TotalStallSeconds :: real
  sg_EventGapHistogram :: "EventGapHistogram option"

datatype stream_error =
    CtxError string
  | StreamStallError int
  | ReadFailed read_error
  | ErrInvalidJSON string
  | SSEDisconnectError int string

text \<open>
  What the handler meets in its rounds: whether the context is done (with its error) and the clock in nanoseconds, and what
  decoding an event's data gives: the response or an error, the method of a notification (None when it does not decode),
  and the text of an id.
\<close>

record stream_world =
  sw_ctxDone :: "nat \<Rightarrow> string option"
  sw_startTime :: int
  sw_now :: "nat \<Rightarrow> int"
  sw_response :: "string \<Rightarrow> string + JSONRPCResponse"
  sw_method :: "string \<Rightarrow> string option"
  sw_idText :: "json \<Rightarrow> string"

definition to_millis :: "int \<Rightarrow> int" where
  "to_millis d = go_div d 1000000"

definition finalizeStreamSignals :: "StreamSignals \<Rightarrow> eventGapTracker \<Rightarrow> StreamSignals" where
  "finalizeStreamSignals sg gt = (if gt_count gt > 0 then sg\<lparr>sg_EventGapHistogram := buildHistogram gt\<rparr> else sg)"

text \<open>The signals and the gap tracker after an event that arrives now.\<close>

definition note_event :: "stream_world \<Rightarrow> nat \<Rightarrow> int option \<Rightarrow> StreamSignals \<times> eventGapTracker \<Rightarrow> StreamSignals \<times> eventGapTracker" where
  "note_event W n lastEventTime = (\<lambda>(sg, gt).
     let connect = to_millis (sw_now W n - sw_startTime W);
         sg1 = (if lastEventTime = None then sg\<lparr>sg_StreamConnectMs := connect, sg_TimeToFirstEventMs := connect\<rparr> else sg);
         gt1 = (case lastEventTime of Some t \<Rightarrow> recordGap (to_millis (sw_now W n - t)) gt | None \<Rightarrow> gt)
     in (sg1\<lparr>sg_EventsCount := sg_EventsCount sg1 + 1\<rparr>, gt1))"

definition stalled_signals :: "int \<Rightarrow> StreamSignals \<Rightarrow> StreamSignals" where
  "stalled_signals stallTimeout sg =
     sg\<lparr>sg_StallCount := sg_StallCount sg + 1, sg_TotalStallSeconds := sg_TotalStallSeconds sg + real_of_int stallTimeout / 1000000000,
        sg_Stalled := True, sg_StallDurationMs := to_millis stallTimeout, sg_EndedNormally := False\<rparr>"

lemma read_loop_consumes:
  "read_loop event ds lines = (Inr e, rest) \<Longrightarrow> lines \<noteq> [] \<Longrightarrow> length rest < length lines"
  "read_loop event ds lines = (r, rest) \<Longrightarrow> length rest \<le> length lines"
proof -
  have "length (snd (read_loop event ds lines)) \<le> length lines - 1"
  proof (induction lines arbitrary: event ds)
    case (Cons r rest)
    have "length (snd (read_loop e d rest)) \<le> length rest" for e d using Cons.IH [of e d] by simp
    then show ?case by (simp add: Let_def split: prod.split)
  qed simp
  then show "read_loop event ds lines = (Inr e, rest) \<Longrightarrow> lines \<noteq> [] \<Longrightarrow> length rest < length lines"
    "read_loop event ds lines = (r, rest) \<Longrightarrow> length rest \<le> length lines" by (cases lines; simp)+
qed

lemma ReadEvent_consumes: "(Inr e, d') = ReadEvent d \<Longrightarrow> length (sd_lineCh d') < length (sd_lineCh d)"
proof -
  assume a: "(Inr e, d') = ReadEvent d"
  then have "sd_lineCh d \<noteq> []" by (auto simp: ReadEvent_def has_content_def zero_event_def split: if_splits)
  with a read_loop_consumes(1) show ?thesis by (auto simp: ReadEvent_def split: if_splits prod.splits sum.splits)
qed

text \<open>The rounds of \<^verbatim>\<open>HandleSSEStream\<close>: \<open>n\<close> counts them. The collected notifications are not used.\<close>

function handle_loop :: "stream_world \<Rightarrow> int \<Rightarrow> string \<Rightarrow> nat \<Rightarrow> SSEDecoder \<Rightarrow> int option \<Rightarrow> StreamSignals \<Rightarrow> eventGapTracker
    \<Rightarrow> JSONRPCResponse option \<times> StreamSignals \<times> stream_error option" where
  "handle_loop W stallTimeout requestID n d lastEventTime sg gt =
     (case sw_ctxDone W n of
        Some err \<Rightarrow> (None, finalizeStreamSignals (sg\<lparr>sg_EndedNormally := False\<rparr>) gt, Some (CtxError err))
      | None \<Rightarrow>
          (case ReadEvent d of
             (Inl err, d1) \<Rightarrow>
               if err = EOF then
                 (None, finalizeStreamSignals (sg\<lparr>sg_EndedNormally := False\<rparr>) gt,
                  Some (SSEDisconnectError (sg_EventsCount sg) (sd_lastEventID d1)))
               else if err = ErrStreamStall then
                 (let sg1 = finalizeStreamSignals (stalled_signals stallTimeout sg) gt
                  in (None, sg1, Some (StreamStallError (sg_StallDurationMs sg1))))
               else (None, finalizeStreamSignals (sg\<lparr>sg_EndedNormally := False\<rparr>) gt, Some (ReadFailed err))
           | (Inr event, d1) \<Rightarrow>
               (case note_event W n lastEventTime (sg, gt) of (sg1, gt1) \<Rightarrow>
                  let again = handle_loop W stallTimeout requestID (Suc n) d1 (Some (sw_now W n)) sg1 gt1
                  in if se_Data event = [] then again
                     else
                       case sw_response W (se_Data event) of
                         Inl err \<Rightarrow>
                           (case sw_method W (se_Data event) of
                              Some m \<Rightarrow> if m \<noteq> [] then again else (None, finalizeStreamSignals sg1 gt1, Some (ErrInvalidJSON err))
                            | None \<Rightarrow> (None, finalizeStreamSignals sg1 gt1, Some (ErrInvalidJSON err)))
                       | Inr msg \<Rightarrow>
                           if rp_ID msg \<noteq> JNull \<and> sw_idText W (rp_ID msg) = requestID
                           then (Some msg, finalizeStreamSignals (sg1\<lparr>sg_EndedNormally := True\<rparr>) gt1, None)
                           else again)))"
  by pat_completeness auto
termination
  by (relation "measure (\<lambda>(W, stallTimeout, requestID, n, d, lastEventTime, sg, gt). length (sd_lineCh d))")
    (auto dest: ReadEvent_consumes)

declare handle_loop.simps [simp del]

definition HandleSSEStream :: "stream_world \<Rightarrow> int \<Rightarrow> string \<Rightarrow> lineResult list
    \<Rightarrow> JSONRPCResponse option \<times> StreamSignals \<times> stream_error option" where
  "HandleSSEStream W stallTimeout requestID lines =
     handle_loop W stallTimeout requestID 0 (NewSSEDecoder lines) None
       \<lparr>sg_IsStreaming = True, sg_EventsCount = 0, sg_EndedNormally = False, sg_Stalled = False, sg_StallDurationMs = 0,
        sg_StreamConnectMs = 0, sg_TimeToFirstEventMs = 0, sg_StallCount = 0, sg_TotalStallSeconds = 0,
        sg_EventGapHistogram = None\<rparr> newEventGapTracker"

end
