(* ===== verification/Sse_Wire.thy ===== *)
theory Sse_Wire
  imports Sse_Decoder
begin

text \<open>
  The wire format of server-sent events as the servers of the repository write it, and what the decoder and the parser of
  \<^verbatim>\<open>sse_decoder.go\<close> make of it: blocks with an optional event name and id and one data line, and keepalive comments.
\<close>

section \<open>Format\<close>

datatype wire_block = Keepalive | Message SSEEvent

definition event_lines :: "SSEEvent \<Rightarrow> string list" where
  "event_lines e = (if se_Event e = [] then [] else [''event: '' @ se_Event e])
     @ (if se_ID e = [] then [] else [''id: '' @ se_ID e]) @ [''data: '' @ se_Data e]"

fun block_lines :: "wire_block \<Rightarrow> string list" where
  "block_lines Keepalive = ['':keepalive'', []]"
| "block_lines (Message e) = event_lines e @ [[]]"

definition write_lines :: "string list \<Rightarrow> string" where
  "write_lines ls = concat (map (\<lambda>l. l @ [LF]) ls)"

definition wire :: "wire_block list \<Rightarrow> string" where
  "wire bs = write_lines (concat (map block_lines bs))"

fun messages :: "wire_block list \<Rightarrow> SSEEvent list" where
  "messages [] = []"
| "messages (Keepalive # bs) = messages bs"
| "messages (Message e # bs) = e # messages bs"

text \<open>Events that fit the format: no line breaks, no null byte in the id, and no retry time.\<close>

definition plain_text :: "string \<Rightarrow> bool" where
  "plain_text s \<longleftrightarrow> LF \<notin> set s \<and> CR \<notin> set s"

definition sendable :: "SSEEvent \<Rightarrow> bool" where
  "sendable e \<longleftrightarrow> plain_text (se_ID e) \<and> plain_text (se_Event e) \<and> plain_text (se_Data e) \<and> CHR 0x00 \<notin> set (se_ID e) \<and> se_Retry e = 0"

abbreviation sendable_blocks :: "wire_block list \<Rightarrow> bool" where
  "sendable_blocks bs \<equiv> \<forall>e \<in> set (messages bs). sendable e"

section \<open>Lines\<close>

abbreviation ok_line :: "string \<Rightarrow> lineResult" where
  "ok_line l \<equiv> \<lparr>lr_line = l, lr_err = None\<rparr>"

lemma split_lines: "\<forall>l \<in> set ls. LF \<notin> set l \<Longrightarrow> split_on LF (write_lines ls) = ls @ [[]]"
  by (induction ls) (simp_all add: write_lines_def split_on_Cons)

lemma plain_trim: "plain_text l \<Longrightarrow> trim_cr l = l"
  unfolding plain_text_def trim_cr_def by (metis last_in_set)

lemma reader_lines:
  assumes "\<forall>l \<in> set ls. plain_text l"
  shows "readerLoop (write_lines ls) err = map ok_line ls @ [\<lparr>lr_line = [], lr_err = Some err\<rparr>]"
proof -
  have "split_on LF (write_lines ls) = ls @ [[]]" using assms by (intro split_lines) (simp add: plain_text_def)
  moreover have "map (\<lambda>l. ok_line (trim_cr l)) ls = map ok_line ls" using assms by (simp add: plain_trim)
  ultimately show ?thesis by (simp add: readerLoop_def Let_def trim_cr_def)
qed

lemma block_lines_plain:
  assumes "sendable_blocks bs" and "l \<in> set (concat (map block_lines bs))"
  shows "plain_text l"
  using assms
proof (induction bs rule: messages.induct)
  case (2 bs)
  then show ?case by (auto simp: plain_text_def)
next
  case (3 e bs)
  then show ?case by (auto simp: plain_text_def sendable_def event_lines_def split: if_splits)
qed simp

section \<open>Reading blocks\<close>

lemma fields:
  "split_field (''event: '' @ v) = (''event'', v)" "split_field (''id: '' @ v) = (''id'', v)" "split_field (''data: '' @ v) = (''data'', v)"
  by (simp_all add: split_field_def)

lemma read_field:
  assumes "l \<noteq> []" and "hd l \<noteq> CHR '':''"
  shows "read_loop event ds (ok_line l # rest) =
    (case set_field (fst (split_field l)) (snd (split_field l)) (event, ds) of (event1, ds1) \<Rightarrow> read_loop event1 ds1 rest)"
  using assms by (simp add: Let_def split: prod.split)

lemma read_message:
  assumes "sendable e"
  shows "read_loop zero_event [] (map ok_line (block_lines (Message e)) @ rest) = (Inr e, rest)"
proof -
  have ev: "read_loop event ds ([ok_line (''event: '' @ v)] @ rest') = read_loop (event\<lparr>se_Event := v\<rparr>) ds rest'" for event ds v rest'
    by (simp only: append_Cons append_Nil, subst read_field) (simp_all add: fields [simplified] set_field_def)
  have id: "CHR 0x00 \<notin> set v \<Longrightarrow> read_loop event ds ([ok_line (''id: '' @ v)] @ rest') = read_loop (event\<lparr>se_ID := v\<rparr>) ds rest'" for event ds v rest'
    by (simp only: append_Cons append_Nil, subst read_field) (simp_all add: fields [simplified] set_field_def)
  have da: "read_loop event ds ([ok_line (''data: '' @ v)] @ rest') = read_loop event (ds @ [v]) rest'" for event ds v rest'
    by (simp only: append_Cons append_Nil, subst read_field) (simp_all add: fields [simplified] set_field_def)
  have fin: "read_loop event [v] ([ok_line []] @ rest') = (Inr (event\<lparr>se_Data := v\<rparr>), rest')" for event v rest'
    by (simp add: has_content_def finish_event_def)
  show ?thesis
    using assms by (cases e) (auto simp del: read_loop.simps append_Cons simp: ev id da fin event_lines_def zero_event_def sendable_def)
qed

lemma read_keepalive:
  "read_loop zero_event [] (map ok_line (block_lines Keepalive) @ rest) = read_loop zero_event [] rest"
  by (simp add: has_content_def zero_event_def)

section \<open>Reading a whole stream\<close>

text \<open>Reading events until the decoder gives an error.\<close>

function decode_all :: "SSEDecoder \<Rightarrow> SSEEvent list \<times> read_error \<times> SSEDecoder" where
  "decode_all d =
     (case ReadEvent d of
        (Inl err, d1) \<Rightarrow> ([], err, d1)
      | (Inr e, d1) \<Rightarrow> (case decode_all d1 of (es, r) \<Rightarrow> (e # es, r)))"
  by pat_completeness auto
termination by (relation "measure (\<lambda>d. length (sd_lineCh d))") (auto dest: ReadEvent_consumes)

declare decode_all.simps [simp del]

definition last_id :: "string \<Rightarrow> SSEEvent list \<Rightarrow> string" where
  "last_id i es = foldl (\<lambda>i e. if se_ID e \<noteq> [] \<and> isValidEventID (se_ID e) then se_ID e else i) i es"

text \<open>An open decoder whose channel holds these blocks and then the error \<open>err\<close>.\<close>

definition at_blocks :: "SSEDecoder \<Rightarrow> wire_block list \<Rightarrow> read_error \<Rightarrow> bool" where
  "at_blocks d bs err \<longleftrightarrow> \<not> sd_closed d
     \<and> sd_lineCh d = map ok_line (concat (map block_lines bs)) @ [\<lparr>lr_line = [], lr_err = Some err\<rparr>]"

lemma at_blocks_new:
  assumes "sendable_blocks bs"
  shows "at_blocks (NewSSEDecoder (readerLoop (wire bs) err)) bs err"
  using reader_lines [of "concat (map block_lines bs)" err] block_lines_plain [OF assms]
  by (simp add: at_blocks_def NewSSEDecoder_def wire_def)

lemma read_end:
  assumes "at_blocks d bs err" and "messages bs = []"
  shows "ReadEvent d = (Inl err, d\<lparr>sd_lineCh := []\<rparr>)"
proof -
  have "read_loop zero_event [] (map ok_line (concat (map block_lines bs)) @ [\<lparr>lr_line = [], lr_err = Some err\<rparr>]) = (Inl err, [])"
    using assms(2)
  proof (induction bs rule: messages.induct)
    case (2 bs)
    then show ?case using read_keepalive by simp
  qed (simp_all add: has_content_def zero_event_def Let_def)
  with assms(1) show ?thesis by (simp add: ReadEvent_def at_blocks_def)
qed

lemma read_next:
  assumes "at_blocks d bs err" and "sendable_blocks bs" and "messages bs = e # es"
  obtains bs1 d1 where "ReadEvent d = (Inr e, d1)" "at_blocks d1 bs1 err" "messages bs1 = es" "sendable_blocks bs1"
    "sd_lastEventID d1 = (if se_ID e \<noteq> [] \<and> isValidEventID (se_ID e) then se_ID e else sd_lastEventID d)"
proof -
  let ?stop = "[\<lparr>lr_line = [], lr_err = Some err\<rparr>]"
  have "\<exists>bs1. read_loop zero_event [] (map ok_line (concat (map block_lines bs)) @ ?stop)
      = (Inr e, map ok_line (concat (map block_lines bs1)) @ ?stop) \<and> messages bs1 = es"
    using assms(2,3)
  proof (induction bs rule: messages.induct)
    case (2 bs)
    then show ?case using read_keepalive by simp
  next
    case (3 e' bs)
    then have "e' = e" "messages bs = es" "sendable e" by auto
    with read_message [of e "map ok_line (concat (map block_lines bs)) @ ?stop"] show ?case by auto
  qed simp
  then obtain bs1 where r: "read_loop zero_event [] (sd_lineCh d) = (Inr e, map ok_line (concat (map block_lines bs1)) @ ?stop)" "messages bs1 = es"
    using assms(1) by (auto simp: at_blocks_def)
  show thesis
    by (rule that [of "d\<lparr>sd_lineCh := map ok_line (concat (map block_lines bs1)) @ ?stop,
          sd_lastEventID := (if se_ID e \<noteq> [] \<and> isValidEventID (se_ID e) then se_ID e else sd_lastEventID d)\<rparr>" bs1])
      (use r assms in \<open>auto simp: ReadEvent_def at_blocks_def\<close>)
qed

lemma decode_blocks:
  assumes "at_blocks d bs err" and "sendable_blocks bs"
  shows "\<exists>d'. decode_all d = (messages bs, err, d') \<and> sd_lastEventID d' = last_id (sd_lastEventID d) (messages bs)"
  using assms
proof (induction "messages bs" arbitrary: bs d)
  case Nil
  with read_end [OF Nil(2)] show ?case by (simp add: decode_all.simps [of d] last_id_def)
next
  case (Cons e es)
  from Cons(3,4) Cons(2) [symmetric] obtain bs1 d1 where r: "ReadEvent d = (Inr e, d1)" "at_blocks d1 bs1 err" "messages bs1 = es"
    "sendable_blocks bs1" "sd_lastEventID d1 = (if se_ID e \<noteq> [] \<and> isValidEventID (se_ID e) then se_ID e else sd_lastEventID d)"
    by (rule read_next)
  from Cons(1) [OF r(3) [symmetric] r(2,4)] r(3) Cons(2) [symmetric] show ?case
    by (auto simp: decode_all.simps [of d] r(1) r(5) last_id_def)
qed

text \<open>The parser of a buffer.\<close>

lemma parse_field:
  assumes "l \<noteq> []" and "hd l \<noteq> CHR '':''"
  shows "parse_loop current ds events ([ok_line l] @ rest) =
    (case set_field (fst (split_field l)) (snd (split_field l)) (case current of Some e \<Rightarrow> e | None \<Rightarrow> zero_event, ds) of
       (event1, ds1) \<Rightarrow> parse_loop (Some event1) ds1 events rest)"
  using assms by (simp add: Let_def split: prod.split)

lemma parse_message:
  assumes "sendable e"
  shows "parse_loop None [] events (map ok_line (block_lines (Message e)) @ rest) = parse_loop None [] (events @ [e]) rest"
proof -
  have ev: "parse_loop c ds events ([ok_line (''event: '' @ v)] @ rest') =
      parse_loop (Some ((case c of Some e \<Rightarrow> e | None \<Rightarrow> zero_event)\<lparr>se_Event := v\<rparr>)) ds events rest'" for c ds v rest'
    by (subst parse_field) (simp_all add: fields [simplified] set_field_def)
  have id: "CHR 0x00 \<notin> set v \<Longrightarrow> parse_loop c ds events ([ok_line (''id: '' @ v)] @ rest') =
      parse_loop (Some ((case c of Some e \<Rightarrow> e | None \<Rightarrow> zero_event)\<lparr>se_ID := v\<rparr>)) ds events rest'" for c ds v rest'
    by (subst parse_field) (simp_all add: fields [simplified] set_field_def)
  have da: "parse_loop c ds events ([ok_line (''data: '' @ v)] @ rest') =
      parse_loop (Some (case c of Some e \<Rightarrow> e | None \<Rightarrow> zero_event)) (ds @ [v]) events rest'" for c ds v rest'
    by (subst parse_field) (simp_all add: fields [simplified] set_field_def)
  have fin: "parse_loop (Some event) [v] events ([ok_line []] @ rest') = parse_loop None [] (events @ [event\<lparr>se_Data := v\<rparr>]) rest'" for event v rest'
    by (simp add: finish_event_def)
  show ?thesis
    using assms by (cases e) (auto simp del: parse_loop.simps append_Cons simp: ev id da fin event_lines_def zero_event_def sendable_def)
qed

lemma parse_blocks:
  assumes "sendable_blocks bs"
  shows "parse_loop None [] events (map ok_line (concat (map block_lines bs)) @ [\<lparr>lr_line = [], lr_err = Some EOF\<rparr>]) = events @ messages bs"
  using assms
proof (induction bs arbitrary: events rule: messages.induct)
  case (3 e bs)
  have "parse_loop None [] events (map ok_line (concat (map block_lines (Message e # bs))) @ [\<lparr>lr_line = [], lr_err = Some EOF\<rparr>])
      = parse_loop None [] (events @ [e]) (map ok_line (concat (map block_lines bs)) @ [\<lparr>lr_line = [], lr_err = Some EOF\<rparr>])"
    using parse_message [of e events "map ok_line (concat (map block_lines bs)) @ [\<lparr>lr_line = [], lr_err = Some EOF\<rparr>]"] 3(2) by simp
  with 3 show ?case by simp
qed simp_all

text \<open>Both readers agree on everything written in the format.\<close>

lemma wire_roundtrip:
  assumes "sendable_blocks bs"
  shows "ParseSSEFromBytes (wire bs) = messages bs"
    and "\<exists>d. decode_all (NewSSEDecoder (readerLoop (wire bs) err)) = (messages bs, err, d) \<and> sd_lastEventID d = last_id [] (messages bs)"
proof -
  show "ParseSSEFromBytes (wire bs) = messages bs"
    unfolding ParseSSEFromBytes_def wire_def
    by (subst reader_lines) (use block_lines_plain [OF assms] parse_blocks [OF assms] in auto)
  show "\<exists>d. decode_all (NewSSEDecoder (readerLoop (wire bs) err)) = (messages bs, err, d) \<and> sd_lastEventID d = last_id [] (messages bs)"
    using decode_blocks [OF at_blocks_new [OF assms] assms] by (simp add: NewSSEDecoder_def)
qed

section \<open>The response handler\<close>

text \<open>An event that the handler reads over: no data, a response to something else, or a notification.\<close>

definition passes :: "stream_world \<Rightarrow> string \<Rightarrow> SSEEvent \<Rightarrow> bool" where
  "passes W requestID e \<longleftrightarrow> se_Data e = []
     \<or> (case sw_response W (se_Data e) of
          Inr m \<Rightarrow> rp_ID m = JNull \<or> sw_idText W (rp_ID m) \<noteq> requestID
        | Inl _ \<Rightarrow> (case sw_method W (se_Data e) of Some m \<Rightarrow> m \<noteq> [] | None \<Rightarrow> False))"

text \<open>What the handler gives for a stream of the events \<open>ms\<close> that ends with \<open>err\<close>, after \<open>c\<close> earlier events.\<close>

definition stream_outcome :: "stream_world \<Rightarrow> int \<Rightarrow> string \<Rightarrow> read_error \<Rightarrow> int \<Rightarrow> string \<Rightarrow> SSEEvent list
    \<Rightarrow> JSONRPCResponse option \<times> StreamSignals \<times> stream_error option \<Rightarrow> bool" where
  "stream_outcome W stallTimeout requestID err c lid ms = (\<lambda>(resp, sg, e).
     case dropWhile (passes W requestID) ms of
       [] \<Rightarrow> resp = None \<and> \<not> sg_EndedNormally sg \<and> sg_EventsCount sg = c + int (length ms)
         \<and> e = Some (if err = EOF then SSEDisconnectError (c + int (length ms)) (last_id lid ms)
                     else if err = ErrStreamStall then StreamStallError (to_millis stallTimeout) else ReadFailed err)
     | x # _ \<Rightarrow> sg_EventsCount sg = c + int (length (takeWhile (passes W requestID) ms)) + 1
         \<and> (case sw_response W (se_Data x) of
              Inr m \<Rightarrow> resp = Some m \<and> e = None \<and> sg_EndedNormally sg
            | Inl text \<Rightarrow> resp = None \<and> e = Some (ErrInvalidJSON text) \<and> \<not> sg_EndedNormally sg))"

lemma finalize_parts [simp]:
  "sg_EventsCount (finalizeStreamSignals sg gt) = sg_EventsCount sg" "sg_EndedNormally (finalizeStreamSignals sg gt) = sg_EndedNormally sg"
  "sg_StallDurationMs (finalizeStreamSignals sg gt) = sg_StallDurationMs sg"
  by (simp_all add: finalizeStreamSignals_def)

lemma note_event_parts:
  assumes "note_event W n lt (sg, gt) = (sg1, gt1)"
  shows "sg_EventsCount sg1 = sg_EventsCount sg + 1" and "sg_EndedNormally sg1 = sg_EndedNormally sg"
  using assms by (auto simp: note_event_def Let_def split: if_splits)

lemma handle_blocks:
  assumes "at_blocks d bs err" and "sendable_blocks bs" and "\<forall>n. sw_ctxDone W n = None" and "\<not> sg_EndedNormally sg"
  shows "stream_outcome W stall rid err (sg_EventsCount sg) (sd_lastEventID d) (messages bs) (handle_loop W stall rid n d lt sg gt)"
  using assms(1,2,4)
proof (induction "messages bs" arbitrary: bs d n lt sg gt)
  case Nil
  with read_end [OF Nil(2)] assms(3) show ?case
    by (simp add: handle_loop.simps [of W stall rid n d] stream_outcome_def stalled_signals_def last_id_def Let_def)
next
  case (Cons e es)
  from Cons(3,4) Cons(2) [symmetric] obtain bs1 d1 where r: "ReadEvent d = (Inr e, d1)" "at_blocks d1 bs1 err" "messages bs1 = es"
    "sendable_blocks bs1" "sd_lastEventID d1 = (if se_ID e \<noteq> [] \<and> isValidEventID (se_ID e) then se_ID e else sd_lastEventID d)"
    by (rule read_next)
  obtain sg1 gt1 where ne: "note_event W n lt (sg, gt) = (sg1, gt1)" by (cases "note_event W n lt (sg, gt)")
  note parts = note_event_parts [OF ne]
  have ms: "messages bs = e # es" using Cons(2) by simp
  show ?case
  proof (cases "passes W rid e")
    case True
    let ?again = "handle_loop W stall rid (Suc n) d1 (Some (sw_now W n)) sg1 gt1"
    have "handle_loop W stall rid n d lt sg gt = ?again"
      using True r(1) assms(3) ne by (auto simp: handle_loop.simps [of W stall rid n d] passes_def Let_def split: sum.splits option.splits)
    moreover have "stream_outcome W stall rid err (sg_EventsCount sg1) (sd_lastEventID d1) es ?again"
      using Cons(1) [OF r(3) [symmetric] r(2,4)] Cons(5) parts(2) r(3) by simp
    ultimately show ?thesis using True parts(1) r(5)
      by (auto simp: stream_outcome_def ms last_id_def split: list.splits prod.splits)
  next
    case False
    with r(1) assms(3) ne parts Cons(5) show ?thesis
      by (auto simp: handle_loop.simps [of W stall rid n d] passes_def stream_outcome_def ms Let_def split: sum.splits option.splits)
  qed
qed

section \<open>Properties\<close>

text \<open>C30: the response handler on any stream written in the format, keepalives included, that is not cancelled: it reads over
  events without data, responses to other requests and notifications; the first other event decides. If it is the response
  to the request, that response is returned and the stream has ended normally; if it is not valid, the handler fails with
  that error. If the stream ends before, the error is the one for a disconnect (with the number of events and the id of the
  last event that had a valid one), a stall or the failed read. The number of events counted is the number read.\<close>
theorem sse_response:
  assumes "\<forall>e \<in> set (messages bs). sendable e" and "\<forall>n. sw_ctxDone W n = None"
  shows "stream_outcome W stallTimeout requestID err 0 [] (messages bs)
    (HandleSSEStream W stallTimeout requestID (readerLoop (wire bs) err))"
  using handle_blocks [OF at_blocks_new [OF assms(1)] assms(1,2), where sg = "\<lparr>sg_IsStreaming = True, sg_EventsCount = 0,
      sg_EndedNormally = False, sg_Stalled = False, sg_StallDurationMs = 0, sg_StreamConnectMs = 0, sg_TimeToFirstEventMs = 0,
      sg_StallCount = 0, sg_TotalStallSeconds = 0, sg_EventGapHistogram = None\<rparr>"]
  by (simp add: HandleSSEStream_def NewSSEDecoder_def)

definition sample_message :: "string \<Rightarrow> wire_block" where
  "sample_message s = Message (zero_event\<lparr>se_Data := s\<rparr>)"

definition sample_reply :: JSONRPCResponse where
  "sample_reply = \<lparr>rp_ID = JStr ''7'', rp_Result = Some JNull, rp_Error = None\<rparr>"

definition sample_world :: stream_world where
  "sample_world = \<lparr>sw_ctxDone = (\<lambda>_. None), sw_startTime = 0, sw_now = int,
     sw_response = (\<lambda>s. if s = ''reply'' then Inr sample_reply else Inl ''bad''),
     sw_method = (\<lambda>s. if s = ''progress'' then Some ''notifications/progress'' else None),
     sw_idText = (\<lambda>j. case j of JStr s \<Rightarrow> s | _ \<Rightarrow> [])\<rparr>"

theorem sse_response_witness:
  "fst (HandleSSEStream sample_world 0 ''7''
     (readerLoop (wire [Keepalive, sample_message ''progress'', sample_message ''reply'', sample_message ''junk'']) EOF)) = Some sample_reply"
proof -
  let ?bs = "[Keepalive, sample_message ''progress'', sample_message ''reply'', sample_message ''junk'']"
  have "\<forall>e \<in> set (messages ?bs). sendable e" "\<forall>n. sw_ctxDone sample_world n = None"
    by (simp_all add: sample_message_def sendable_def plain_text_def zero_event_def sample_world_def)
  from sse_response [OF this, of 0 "''7''" EOF] show ?thesis
    by (auto simp: stream_outcome_def passes_def sample_message_def sample_world_def sample_reply_def)
qed

end
