(* ===== verification/Api_Stream.thy ===== *)
theory Api_Stream
  imports Api_Server Sse_Wire
begin

text \<open>
  The event stream of a run (\<^verbatim>\<open>handleStreamEvents\<close> of \<^verbatim>\<open>internal/controlplane/api/handlers.go\<close>): where it starts, what
  it writes, and what a client with the decoder of \<^verbatim>\<open>sse_decoder.go\<close> reads from it, over reconnections.

  The stream is the sequence of the ticks that its loop meets until the client is gone: heartbeats, and polls with the
  run manager as it is then. What \<^verbatim>\<open>json.Marshal\<close> gives for an event is a parameter: the text, or nothing when it fails.
\<close>

section \<open>Start of a stream\<close>

record stream_request =
  sr_Method :: string
  sr_LastEventID :: string
  sr_cursor :: string
  sr_since :: string
  sr_flusher :: bool

definition eventIDPattern :: "string \<Rightarrow> bool" where
  "eventIDPattern = isValidEventID"

definition sseEventBatchLimit :: int where
  "sseEventBatchLimit = 100"

definition NewNotFoundErrorResponse :: "string \<Rightarrow> ErrorResponse" where
  "NewNotFoundErrorResponse runID =
     \<lparr>er_ErrorType = ''not_found'', er_ErrorCode = ''RUN_NOT_FOUND'', er_ErrorMessage = ''Run not found'', er_Retryable = False,
      er_Details = [(''run_id'', JStr runID)]\<rparr>"

text \<open>\<^verbatim>\<open>strings.Contains\<close>.\<close>

fun str_contains :: "string \<Rightarrow> string \<Rightarrow> bool" where
  "str_contains s t = (take (length t) s = t \<or> (case s of [] \<Rightarrow> False | _ # s1 \<Rightarrow> str_contains s1 t))"

definition bad_position :: "string \<Rightarrow> string \<Rightarrow> string \<Rightarrow> string \<Rightarrow> response" where
  "bad_position code message field v =
     Response 400 (BodyError \<lparr>er_ErrorType = ''invalid_argument'', er_ErrorCode = code, er_ErrorMessage = message,
       er_Retryable = False, er_Details = [(field, JStr v)]\<rparr>)"

text \<open>The event after the one with this id.\<close>

definition position_after :: "string \<Rightarrow> string \<Rightarrow> string \<Rightarrow> string \<Rightarrow> string \<Rightarrow> string \<Rightarrow> run_manager \<Rightarrow> response + int" where
  "position_after code malformed unknown field eventID runID rm =
     (if \<not> eventIDPattern eventID then Inl (bad_position code malformed field eventID)
      else
        let idx = FindEventIndexOfRun runID eventID rm
        in if idx < 0 then Inl (bad_position code unknown field eventID) else Inr (idx + 1))"

definition stream_start :: "stream_request \<Rightarrow> string \<Rightarrow> run_manager \<Rightarrow> response + int" where
  "stream_start rq runID rm =
     (if sr_Method rq \<noteq> ''GET'' then Inl (writeMethodNotAllowed (sr_Method rq) ''GET'')
      else case GetRun runID rm of
        Inl err \<Rightarrow>
          if str_contains (Error err) ''not found'' then Inl (Response 404 (BodyError (NewNotFoundErrorResponse runID)))
          else Inl (internal_error (Error err))
      | Inr _ \<Rightarrow>
          if sr_LastEventID rq \<noteq> [] then
            position_after ''INVALID_LAST_EVENT_ID'' ''Invalid Last-Event-ID format: must be evt_<hex>''
              ''Last-Event-ID not found in event log'' ''last_event_id'' (sr_LastEventID rq) runID rm
          else if sr_cursor rq \<noteq> [] then
            position_after ''INVALID_CURSOR'' ''Invalid cursor format: must be evt_<hex>'' ''Cursor not found in event log''
              ''cursor'' (sr_cursor rq) runID rm
          else if sr_since rq \<noteq> [] then
            (case atoi (sr_since rq) of
               Some n \<Rightarrow>
                 if n < 0 then Inl (bad_position ''INVALID_SINCE_PARAM'' ''Invalid since parameter: must be non-negative integer'' ''since'' (sr_since rq))
                 else Inr n
             | None \<Rightarrow> Inl (bad_position ''INVALID_SINCE_PARAM'' ''Invalid since parameter: must be non-negative integer'' ''since'' (sr_since rq)))
          else Inr 0)"

section \<open>The loop\<close>

datatype stream_tick = HeartbeatTick | PollTick run_manager

definition emit_event :: "(RunEvent \<Rightarrow> string option) \<Rightarrow> RunEvent \<Rightarrow> string" where
  "emit_event marshal event =
     (case marshal event of
        None \<Rightarrow> []
      | Some eventData \<Rightarrow>
          ''event: run_event'' @ [LF] @ ''id: '' @ ev_EventID event @ [LF] @ ''data: '' @ eventData @ [LF, LF])"

text \<open>The bytes written and the position at the end. A failing \<^verbatim>\<open>TailEvents\<close> ends the stream; so does a panic in it,
  which the HTTP server recovers.\<close>

fun stream_loop :: "(RunEvent \<Rightarrow> string option) \<Rightarrow> string \<Rightarrow> int \<Rightarrow> stream_tick list \<Rightarrow> string \<times> int" where
  "stream_loop marshal runID cursor [] = ([], cursor)"
| "stream_loop marshal runID cursor (HeartbeatTick # ticks) =
     (case stream_loop marshal runID cursor ticks of (out, c) \<Rightarrow> ('':keepalive'' @ [LF, LF] @ out, c))"
| "stream_loop marshal runID cursor (PollTick rm # ticks) =
     (case TailEvents runID cursor sseEventBatchLimit rm of
        Some (Inr events) \<Rightarrow>
          (case stream_loop marshal runID (cursor + int (length events)) ticks of
             (out, c) \<Rightarrow> (concat (map (emit_event marshal) events) @ out, c))
      | _ \<Rightarrow> ([], cursor))"

text \<open>The whole handler: an error, or the bytes of the stream.\<close>

definition handleStreamEvents :: "(RunEvent \<Rightarrow> string option) \<Rightarrow> stream_request \<Rightarrow> string \<Rightarrow> run_manager \<Rightarrow> stream_tick list
    \<Rightarrow> response + string" where
  "handleStreamEvents marshal rq runID rm ticks =
     (case stream_start rq runID rm of
        Inl err \<Rightarrow> Inl err
      | Inr cursor \<Rightarrow>
          if \<not> sr_flusher rq then Inl (internal_error ''Streaming not supported'')
          else Inr (fst (stream_loop marshal runID cursor ticks)))"

section \<open>Logs only grow\<close>

definition extends :: "EventLog \<Rightarrow> EventLog \<Rightarrow> bool" where
  "extends el el' \<longleftrightarrow> (\<exists>new. el_events el' = el_events el @ new) \<and> el_maxEvents el' = el_maxEvents el"

lemma extends_refl [simp]: "extends el el"
  by (simp add: extends_def)

lemma extends_trans: "extends a b \<Longrightarrow> extends b c \<Longrightarrow> extends a c"
  by (auto simp: extends_def)

lemma append_extends: "extends el (snd (snd (Append t e n el)))"
  by (auto simp: extends_def Append_def Let_def store_event_events split: option.split prod.split)

definition grows :: "(string, EventLog) gomap \<Rightarrow> (string, EventLog) gomap \<Rightarrow> bool" where
  "grows L L' \<longleftrightarrow> (\<forall>k. case map_get L k of None \<Rightarrow> map_get L' k = None
     | Some el \<Rightarrow> \<exists>el'. map_get L' k = Some el' \<and> extends el el')"

lemma grows_refl [simp]: "grows L L"
  by (simp add: grows_def split: option.split)

lemma grows_get: "grows L L' \<Longrightarrow> map_get L k = Some el \<Longrightarrow> \<exists>el'. map_get L' k = Some el' \<and> extends el el'"
  unfolding grows_def by (drule spec [of _ k]) simp

lemma grows_append [intro!]:
  assumes "grows L (rm_eventLogs rm)"
  shows "grows L (rm_eventLogs (appendEventWithLog k e rm))"
proof (cases "map_get (rm_eventLogs rm) k")
  case None
  then show ?thesis using assms by (simp add: appendEventWithLog_def)
next
  case (Some el)
  define el1 where "el1 = snd (snd (Append (now_ms rm) e (rm_eventIDCounter rm) el))"
  have logs: "rm_eventLogs (appendEventWithLog k e rm) = map_upd k (\<lambda>_. el1) (rm_eventLogs rm)"
    using Some by (simp add: appendEventWithLog_def case_prod_unfold Let_def el1_def)
  have "extends el el1" by (simp add: el1_def append_extends)
  then show ?thesis
    unfolding grows_def logs
  proof (intro allI)
    fix k'
    from assms have "case map_get L k' of None \<Rightarrow> map_get (rm_eventLogs rm) k' = None
      | Some el \<Rightarrow> \<exists>el'. map_get (rm_eventLogs rm) k' = Some el' \<and> extends el el'" by (simp add: grows_def)
    then show "case map_get L k' of None \<Rightarrow> map_get (map_upd k (\<lambda>_. el1) (rm_eventLogs rm)) k' = None
      | Some el \<Rightarrow> \<exists>el'. map_get (map_upd k (\<lambda>_. el1) (rm_eventLogs rm)) k' = Some el' \<and> extends el el'"
      using Some \<open>extends el el1\<close> by (cases "k' = k") (auto split: option.splits dest: extends_trans)
  qed
qed

lemma log_sections:
  shows "grows (rm_eventLogs rm) (rm_eventLogs (snd (start_commit rid exe actor rm)))"
    "grows (rm_eventLogs rm) (rm_eventLogs (transitionToFailedFromCreated rid exe actor why rm))"
    "grows (rm_eventLogs rm) (rm_eventLogs (install_progression rid sid cfg actor rm))"
    "grows (rm_eventLogs rm) (rm_eventLogs (snd (baseline_enter rid actor rm)))"
    "grows (rm_eventLogs rm) (rm_eventLogs (snd (stage_enter a b op rid rm)))"
    "grows (rm_eventLogs rm) (rm_eventLogs (set_active_stage rid name sid rm))"
    "grows (rm_eventLogs rm) (rm_eventLogs (install_evaluator rid stage rm))"
    "grows (rm_eventLogs rm) (rm_eventLogs (snd (install_ramp rid rm)))"
    "grows (rm_eventLogs rm) (rm_eventLogs (addStageTimer rid t rm))"
    "grows (rm_eventLogs rm) (rm_eventLogs (removeStageTimer rid t rm))"
    "grows (rm_eventLogs rm) (rm_eventLogs (transitionToCompleted rid actor why rm))"
    "grows (rm_eventLogs rm) (rm_eventLogs (snd (analyzing_enter rid actor rm)))"
    "grows (rm_eventLogs rm) (rm_eventLogs (completeAnalysis rid rm))"
    "grows (rm_eventLogs rm) (rm_eventLogs (failAnalysis rid why details rm))"
  by (auto simp: start_commit_def transitionToFailedFromCreated_def install_progression_def baseline_enter_def
      stage_enter_def set_active_stage_def install_evaluator_def install_ramp_def addStageTimer_def removeStageTimer_def
      transitionToCompleted_def analyzing_enter_def completeAnalysis_def failAnalysis_def
      new_ctx_def analysis_outcome_def frames Let_def split: option.split)

lemma log_stops:
  shows "grows (rm_eventLogs rm) (rm_eventLogs (snd (requestStopWithReason rid mode actor why ev rm)))"
    "grows (rm_eventLogs rm) (rm_eventLogs (snd (EmergencyStop rid actor rm)))"
    "grows (rm_eventLogs rm) (rm_eventLogs (handleFailFastLocked rid wid rm))"
  by (auto simp: requestStopWithReason_def EmergencyStop_def handleFailFastLocked_def frames Let_def split: option.split)

lemma log_other:
  "rm_eventLogs (Shutdown rm) = rm_eventLogs rm" "rm_eventLogs (SetScheduler a b c rm) = rm_eventLogs rm"
  "rm_eventLogs (SetAssignmentSender a rm) = rm_eventLogs rm" "rm_eventLogs (SetArtifactStore a rm) = rm_eventLogs rm"
  "rm_eventLogs (SetTelemetryStore a rm) = rm_eventLogs rm" "rm_eventLogs (snd (new_timer rm)) = rm_eventLogs rm"
  "rm_eventLogs (AddAssignment w wa rm) = rm_eventLogs rm"
  by (simp_all add: Shutdown_def SetScheduler_def SetAssignmentSender_def SetArtifactStore_def SetTelemetryStore_def new_timer_def
      AddAssignment_def frames)

lemma log_timer: "rm_eventLogs (stopTimer t rm) = rm_eventLogs rm"
  by (cases t) (simp_all add: frames)

lemma step_grows:
  "rm_step E rm rm' \<Longrightarrow> grows (rm_eventLogs rm) (rm_eventLogs rm')
     \<or> (\<exists>k. get_run rm k = None \<and> grows (map_put k NewEventLog (rm_eventLogs rm)) (rm_eventLogs rm'))"
proof (induction rule: rm_step.induct)
  case (create rm config actor)
  then show ?case
    by (auto simp: insert_new_def insert_run_def generateRunID_def generateExecutionID_def new_record_def Let_def)
next
  case (fin_wait rid' actor t rm c rm1)
  then have "rm1 = init_drainCancel rid' rm" by (auto dest: finalize_begin_Some)
  with fin_wait show ?case by (simp add: frames)
qed (auto simp: log_other log_timer frames intro: log_sections log_stops)

definition logged :: "string \<Rightarrow> run_manager \<Rightarrow> RunEvent list" where
  "logged rid rm = (case map_get (rm_eventLogs rm) rid of None \<Rightarrow> [] | Some el \<Rightarrow> el_events el)"

definition logs_extend :: "run_manager \<Rightarrow> run_manager \<Rightarrow> bool" where
  "logs_extend rm rm' \<longleftrightarrow> evolves rm rm' \<and> (\<forall>rid. get_run rm rid \<noteq> None \<longrightarrow> (\<exists>new. logged rid rm' = logged rid rm @ new))"

definition limits_inv :: "run_manager \<Rightarrow> bool" where
  "limits_inv rm \<longleftrightarrow> rm_inv rm \<and> (\<forall>rid el. map_get (rm_eventLogs rm) rid = Some el \<longrightarrow> el_maxEvents el = DefaultMaxEventsPerLog)"

lemma grows_limits:
  assumes "grows L L'" and "\<forall>k el. map_get L k = Some el \<longrightarrow> el_maxEvents el = m"
  shows "\<forall>k el. map_get L' k = Some el \<longrightarrow> el_maxEvents el = m"
proof (intro allI impI)
  fix k el assume el: "map_get L' k = Some el"
  from assms(1) have "case map_get L k of None \<Rightarrow> map_get L' k = None
     | Some el \<Rightarrow> \<exists>el'. map_get L' k = Some el' \<and> extends el el'" by (simp add: grows_def)
  with el assms(2) show "el_maxEvents el = m" by (auto simp: extends_def split: option.splits)
qed

lemma step_limits:
  assumes "limits_inv rm" and "rm_step E rm rm'"
  shows "limits_inv rm'"
proof -
  have inv: "rm_inv rm" and lim: "\<forall>k el. map_get (rm_eventLogs rm) k = Some el \<longrightarrow> el_maxEvents el = DefaultMaxEventsPerLog"
    using assms(1) by (auto simp: limits_inv_def)
  have new: "el_maxEvents NewEventLog = DefaultMaxEventsPerLog" by (simp add: NewEventLog_def NewEventLogWithLimit_def)
  from step_grows [OF assms(2)] have "\<forall>k el. map_get (rm_eventLogs rm') k = Some el \<longrightarrow> el_maxEvents el = DefaultMaxEventsPerLog"
  proof
    assume "grows (rm_eventLogs rm) (rm_eventLogs rm')"
    then show ?thesis using lim by (rule grows_limits)
  next
    assume "\<exists>k. get_run rm k = None \<and> grows (map_put k NewEventLog (rm_eventLogs rm)) (rm_eventLogs rm')"
    then obtain k where "grows (map_put k NewEventLog (rm_eventLogs rm)) (rm_eventLogs rm')" by blast
    moreover have "\<forall>k' el. map_get (map_put k NewEventLog (rm_eventLogs rm)) k' = Some el \<longrightarrow> el_maxEvents el = DefaultMaxEventsPerLog"
      using lim new by auto
    ultimately show ?thesis by (rule grows_limits)
  qed
  with rm_step_inv [OF inv assms(2)] show ?thesis by (simp add: limits_inv_def)
qed

lemma step_extends:
  assumes "rm_inv rm" and "rm_step E rm rm'"
  shows "logs_extend rm rm'"
proof -
  have "\<exists>new. logged rid rm' = logged rid rm @ new" if run: "get_run rm rid \<noteq> None" for rid
  proof -
    from assms(1) run obtain el where el: "map_get (rm_eventLogs rm) rid = Some el"
      by (auto simp: rm_inv_def base_inv_def chan_inv_def)
    from step_grows [OF assms(2)] have "\<exists>el'. map_get (rm_eventLogs rm') rid = Some el' \<and> extends el el'"
    proof
      assume "grows (rm_eventLogs rm) (rm_eventLogs rm')"
      then show ?thesis using el by (rule grows_get)
    next
      assume "\<exists>k. get_run rm k = None \<and> grows (map_put k NewEventLog (rm_eventLogs rm)) (rm_eventLogs rm')"
      then obtain k where k: "get_run rm k = None" "grows (map_put k NewEventLog (rm_eventLogs rm)) (rm_eventLogs rm')" by blast
      from k(1) run have "map_get (map_put k NewEventLog (rm_eventLogs rm)) rid = Some el" using el by auto
      with k(2) show ?thesis by (rule grows_get)
    qed
    with el show ?thesis by (auto simp: logged_def extends_def)
  qed
  with rm_step_evolves [OF assms(2)] show ?thesis using assms(1) by (simp add: logs_extend_def)
qed

lemma logs_extend_refl [simp]: "logs_extend rm rm"
  by (simp add: logs_extend_def)

lemma logs_extend_trans: "logs_extend a b \<Longrightarrow> logs_extend b c \<Longrightarrow> logs_extend a c"
proof -
  assume ab: "logs_extend a b" and bc: "logs_extend b c"
  have "\<exists>new. logged rid c = logged rid a @ new" if "get_run a rid \<noteq> None" for rid
  proof -
    from ab that have "get_run b rid \<noteq> None" by (fastforce simp: logs_extend_def evolves_def)
    with ab bc that show ?thesis unfolding logs_extend_def by (metis append.assoc)
  qed
  with ab bc show ?thesis unfolding logs_extend_def using evolves_trans by blast
qed

interpretation lg: monotone_steps "rm_step E" rm_inv logs_extend for E
  by unfold_locales (auto intro: rm_step_inv step_extends logs_extend_trans)

interpretation lim: kept_by_steps "rm_step E" limits_inv for E
  by unfold_locales (rule step_limits)

lemma reachable_limits: "reachable E rm \<Longrightarrow> limits_inv rm"
proof -
  assume "reachable E rm"
  then obtain now ttl where "clock_ms (now div 1000000)" "(rm_step E)\<^sup>*\<^sup>* (server_start now ttl) rm" by (auto simp: reachable_def)
  moreover from this have "limits_inv (server_start now ttl)"
    using server_start_inv by (simp add: limits_inv_def server_start_def NewRunManager_def)
  ultimately show ?thesis using lim.run_keeps by blast
qed

section \<open>What a client reads\<close>

definition client_event :: "(RunEvent \<Rightarrow> string) \<Rightarrow> RunEvent \<Rightarrow> SSEEvent" where
  "client_event js e = \<lparr>se_ID = ev_EventID e, se_Event = ''run_event'', se_Data = js e, se_Retry = 0\<rparr>"

text \<open>The ticks of one stream: between two polls the run manager takes any steps.\<close>

inductive watched :: "environment \<Rightarrow> run_manager \<Rightarrow> stream_tick list \<Rightarrow> run_manager \<Rightarrow> bool" for E where
  gone: "watched E rm [] rm"
| heartbeat: "watched E rm ticks rm' \<Longrightarrow> watched E rm (HeartbeatTick # ticks) rm'"
| poll: "(rm_step E)\<^sup>*\<^sup>* rm rm1 \<Longrightarrow> watched E rm1 ticks rm' \<Longrightarrow> watched E rm (PollTick rm1 # ticks) rm'"

fun polls :: "stream_tick list \<Rightarrow> nat" where
  "polls [] = 0"
| "polls (HeartbeatTick # ticks) = polls ticks"
| "polls (PollTick _ # ticks) = Suc (polls ticks)"

lemma wire_Keepalive: "wire (Keepalive # bs) = '':keepalive'' @ [LF, LF] @ wire bs"
  by (simp add: wire_def write_lines_def)

lemma wire_events:
  assumes "\<And>e. marshal e = Some (js e)" and "\<forall>e \<in> set es. ev_EventID e \<noteq> []"
  shows "wire (map (Message \<circ> client_event js) es @ bs) = concat (map (emit_event marshal) es) @ wire bs"
  using assms(2)
  by (induction es) (simp_all add: wire_def write_lines_def emit_event_def assms(1) client_event_def event_lines_def)

lemma messages_map [simp]: "messages (map (Message \<circ> f) es @ bs) = map f es @ messages bs"
  by (induction es) simp_all

lemma tail_batch:
  assumes "reachable E rm" and "get_run rm rid \<noteq> None" and "0 \<le> c"
  shows "TailEvents rid c sseEventBatchLimit rm = Some (Inr (take 100 (drop (nat c) (logged rid rm))))"
proof -
  from reachable_limits [OF assms(1)] assms(2) obtain el where el: "map_get (rm_eventLogs rm) rid = Some el"
    and ok: "log_ok (rm_eventIDCounter rm) rid el" and m: "el_maxEvents el = 10000"
    by (auto simp: limits_inv_def rm_inv_def base_inv_def chan_inv_def logs_inv_def DefaultMaxEventsPerLog_def)
  from ok m have len: "length (el_events el) \<le> 10000" by (auto simp: log_ok_def)
  show ?thesis
  proof (cases "c \<ge> int (length (el_events el))")
    case True
    then show ?thesis using el assms(3) by (simp add: TailEvents_def Tail_def sseEventBatchLimit_def logged_def)
  next
    case False
    then have "wrap64 (c + 100) = c + 100" using len assms(3) by (intro wrap64_id) (simp add: is_int64_def)
    with False el assms(3) show ?thesis
      by (auto simp: TailEvents_def Tail_def sseEventBatchLimit_def logged_def Let_def min_def not_le nat_diff_distrib' nat_add_distrib)
  qed
qed

lemma logged_ids:
  assumes "reachable E rm" and "e \<in> set (logged rid rm)"
  shows "isValidEventID (ev_EventID e)"
proof -
  from assms(2) obtain el where el: "map_get (rm_eventLogs rm) rid = Some el" "e \<in> set (el_events el)"
    by (cases "map_get (rm_eventLogs rm) rid") (simp_all add: logged_def)
  with reachable_inv [OF assms(1)] have "event_ok (rm_eventIDCounter rm) rid e"
    by (auto simp: rm_inv_def base_inv_def logs_inv_def log_ok_def)
  then obtain ts c where "ev_EventID e = stamp_id ''evt_'' ts c" by (auto simp: event_ok_def)
  moreover have "hex ts \<noteq> []" by (subst hex.simps) simp
  ultimately show ?thesis using hex_is_hex [of ts] hex_is_hex [of c] by (simp add: isValidEventID_def stamp_id_def)
qed

lemma id_plain: "isValidEventID i \<Longrightarrow> plain_text i \<and> CHR 0x00 \<notin> set i \<and> i \<noteq> []"
proof -
  assume v: "isValidEventID i"
  then have "set i \<subseteq> set ''evt_'' \<union> {c. is_hex c}"
    using set_append [of "take 4 i" "drop 4 i"] unfolding isValidEventID_def list_all_iff by (metis Un_mono append_take_drop_id subsetI mem_Collect_eq)
  moreover have "\<not> is_hex LF" "\<not> is_hex CR" "\<not> is_hex (CHR 0x00)" by (simp_all add: is_hex_def)
  ultimately show ?thesis using v by (auto simp: plain_text_def isValidEventID_def)
qed

lemma batches:
  fixes a b q n :: nat
  assumes "b \<le> a" and "min q (a - min 100 a) \<le> n"
  shows "min (100 + q) b \<le> min 100 a + n"
proof (cases "a \<le> 100")
  case False
  then have "q \<le> n \<or> a \<le> 100 + n" using assms(2) by (auto simp: min_def split: if_splits)
  with False assms(1) show ?thesis by (auto simp: min_def)
qed (use assms(1) in simp)

lemma stream_wire:
  assumes "watched E rm ticks rm'" and "reachable E rm" and "get_run rm rid \<noteq> None" and "0 \<le> c"
    and js: "\<And>e. marshal e = Some (js e)"
  shows "\<exists>bs n. stream_loop marshal rid c ticks = (wire bs, c + int n)
    \<and> messages bs = map (client_event js) (take n (drop (nat c) (logged rid rm')))
    \<and> n \<le> length (logged rid rm') - nat c \<and> min (100 * polls ticks) (length (logged rid rm) - nat c) \<le> n
    \<and> reachable E rm' \<and> get_run rm' rid \<noteq> None \<and> (\<exists>new. logged rid rm' = logged rid rm @ new)"
  using assms(1-4)
proof (induction arbitrary: c rule: watched.induct)
  case (gone rm)
  then show ?case by (intro exI [of _ "[]"] exI [of _ 0]) (simp add: wire_def write_lines_def)
next
  case (heartbeat rm ticks rm')
  then obtain bs n where *: "stream_loop marshal rid c ticks = (wire bs, c + int n)"
    "messages bs = map (client_event js) (take n (drop (nat c) (logged rid rm')))"
    "n \<le> length (logged rid rm') - nat c" "min (100 * polls ticks) (length (logged rid rm) - nat c) \<le> n"
    "reachable E rm'" "get_run rm' rid \<noteq> None" "\<exists>new. logged rid rm' = logged rid rm @ new" by blast
  show ?case by (rule exI [of _ "Keepalive # bs"], rule exI [of _ n]) (use * in \<open>simp add: wire_Keepalive\<close>)
next
  case (poll rm rm1 ticks rm')
  have r1: "reachable E rm1" using poll.prems(1) poll.hyps(1) by (rule reachable_run)
  have ext: "logs_extend rm rm1" using poll.hyps(1) reachable_inv [OF poll.prems(1)] by (rule lg.run_rel)
  with poll.prems(2) have run1: "get_run rm1 rid \<noteq> None" by (fastforce simp: logs_extend_def evolves_def)
  from ext poll.prems(2) obtain new1 where new1: "logged rid rm1 = logged rid rm @ new1" by (auto simp: logs_extend_def)
  let ?es = "take 100 (drop (nat c) (logged rid rm1))"
  from poll.IH [OF r1 run1, of "c + int (length ?es)"] poll.prems(3) obtain bs n where
    *: "stream_loop marshal rid (c + int (length ?es)) ticks = (wire bs, c + int (length ?es) + int n)"
    "messages bs = map (client_event js) (take n (drop (nat c + length ?es) (logged rid rm')))"
    "n \<le> length (logged rid rm') - (nat c + length ?es)"
    "min (100 * polls ticks) (length (logged rid rm1) - (nat c + length ?es)) \<le> n"
    "reachable E rm'" "get_run rm' rid \<noteq> None" "\<exists>new. logged rid rm' = logged rid rm1 @ new"
    by (auto simp: nat_add_distrib)
  obtain new where new: "logged rid rm' = logged rid rm1 @ new" using *(7) by blast
  have es: "?es = take (length ?es) (drop (nat c) (logged rid rm'))" unfolding new by (simp add: min_def)
  have k: "length ?es = min 100 (length (logged rid rm1) - nat c)" by (simp add: min.commute)
  have ids: "\<forall>e \<in> set ?es. ev_EventID e \<noteq> []"
    using logged_ids [OF r1] id_plain by (meson in_set_takeD in_set_dropD)
  show ?case
  proof (rule exI [of _ "map (Message \<circ> client_event js) ?es @ bs"], rule exI [of _ "length ?es + n"], intro conjI)
    show "stream_loop marshal rid c (PollTick rm1 # ticks) = (wire (map (Message \<circ> client_event js) ?es @ bs), c + int (length ?es + n))"
      using *(1) by (simp add: tail_batch [OF r1 run1 poll.prems(3)] wire_events [OF js ids])
    show "messages (map (Message \<circ> client_event js) ?es @ bs)
        = map (client_event js) (take (length ?es + n) (drop (nat c) (logged rid rm')))"
      using take_add [of "length ?es" n "drop (nat c) (logged rid rm')"]
      unfolding messages_map *(2) es [symmetric] drop_drop by (simp only: map_append add.commute)
    show "length ?es + n \<le> length (logged rid rm') - nat c" using *(3) new by simp arith
    show "min (100 * polls (PollTick rm1 # ticks)) (length (logged rid rm) - nat c) \<le> length ?es + n"
      unfolding k polls.simps mult_Suc_right
    proof (rule batches)
      show "length (logged rid rm) - nat c \<le> length (logged rid rm1) - nat c" by (simp add: new1)
    qed (use *(4) in \<open>simp only: k diff_diff_left\<close>)
    show "\<exists>new. logged rid rm' = logged rid rm @ new" using new new1 by simp
  qed (rule *(5), rule *(6))
qed

lemma last_id_valid: "es \<noteq> [] \<Longrightarrow> \<forall>e \<in> set es. isValidEventID (se_ID e) \<Longrightarrow> last_id i es = se_ID (last es)"
  using id_plain by (induction es rule: rev_induct) (auto simp: last_id_def)

lemma resume_at:
  assumes "reachable E rm" and "get_run rm rid \<noteq> None" and "n < length (logged rid rm)"
    and "sr_Method rq = ''GET''" and "sr_LastEventID rq = ev_EventID (logged rid rm ! n)"
  shows "stream_start rq rid rm = Inr (int n + 1)"
proof -
  from reachable_inv [OF assms(1)] assms(2) obtain el where el: "map_get (rm_eventLogs rm) rid = Some el"
    and ok: "log_ok (rm_eventIDCounter rm) rid el"
    by (auto simp: rm_inv_def base_inv_def chan_inv_def logs_inv_def)
  have "isValidEventID (ev_EventID (logged rid rm ! n))" using logged_ids [OF assms(1) nth_mem [OF assms(3)]] .
  moreover from this have "ev_EventID (logged rid rm ! n) \<noteq> []" using id_plain by blast
  moreover have "FindEventIndexOfRun rid (ev_EventID (logged rid rm ! n)) rm = int n"
    using ok assms(3) FindEventIndex_nth [of el n] by (simp add: FindEventIndexOfRun_def el logged_def log_ok_def)
  ultimately show ?thesis
    using assms by (auto simp: stream_start_def GetRun_def position_after_def eventIDPattern_def)
qed

lemma start_position:
  assumes "stream_start rq rid rm = Inr c"
  shows "0 \<le> c \<and> get_run rm rid \<noteq> None \<and> sr_Method rq = ''GET''"
  using assms
  by (auto simp: stream_start_def GetRun_def position_after_def Let_def split: if_splits option.splits)

text \<open>C29: a client that reads the event stream of a run with the decoder, from the position where the stream starts
  (given by \<^verbatim>\<open>Last-Event-ID\<close>, a cursor or an index), gets exactly the events of the run's log from that position on, in
  order, each once, with its id and its JSON text, whatever the run manager does between the polls and however many
  heartbeats come between them; up to a hundred events that were there are delivered per poll. If it read any, the id
  that the decoder kept makes a later stream start right after the last event that it read.\<close>
theorem event_stream:
  assumes "reachable E rm" and "watched E rm ticks rm'" and "stream_start rq rid rm = Inr c" and "sr_flusher rq"
    and "\<And>e. marshal e = Some (js e)" and "\<And>e. plain_text (js e)"
  shows "\<exists>out n d. handleStreamEvents marshal rq rid rm ticks = Inr out
    \<and> decode_all (NewSSEDecoder (readerLoop out err))
        = (map (client_event js) (take n (drop (nat c) (logged rid rm'))), err, d)
    \<and> n \<le> length (logged rid rm') - nat c \<and> min (100 * polls ticks) (length (logged rid rm) - nat c) \<le> n
    \<and> (n > 0 \<longrightarrow> (\<forall>rm'' rq'. (rm_step E)\<^sup>*\<^sup>* rm' rm'' \<longrightarrow> sr_Method rq' = ''GET'' \<longrightarrow> sr_LastEventID rq' = sd_lastEventID d
         \<longrightarrow> stream_start rq' rid rm'' = Inr (c + int n)))"
proof -
  have c: "0 \<le> c" and run: "get_run rm rid \<noteq> None" using start_position [OF assms(3)] by auto
  from stream_wire [OF assms(2,1) run c, of marshal js, OF assms(5)] obtain bs n where
    *: "stream_loop marshal rid c ticks = (wire bs, c + int n)"
    "messages bs = map (client_event js) (take n (drop (nat c) (logged rid rm')))"
    "n \<le> length (logged rid rm') - nat c" "min (100 * polls ticks) (length (logged rid rm) - nat c) \<le> n"
    "reachable E rm'" "get_run rm' rid \<noteq> None" by blast
  have valid: "\<forall>e \<in> set (messages bs). isValidEventID (se_ID e)"
    using logged_ids [OF *(5)] by (auto simp: *(2) client_event_def dest!: in_set_takeD in_set_dropD)
  have "\<forall>e \<in> set (messages bs). sendable e"
    using valid id_plain assms(6) by (auto simp: *(2) sendable_def client_event_def plain_text_def)
  from wire_roundtrip(2) [OF this] obtain d where
    d: "decode_all (NewSSEDecoder (readerLoop (wire bs) err)) = (messages bs, err, d)" "sd_lastEventID d = last_id [] (messages bs)" by blast
  have "stream_start rq' rid rm'' = Inr (c + int n)"
    if n: "n > 0" and steps: "(rm_step E)\<^sup>*\<^sup>* rm' rm''" and rq': "sr_Method rq' = ''GET''" "sr_LastEventID rq' = sd_lastEventID d" for rm'' rq'
  proof -
    let ?m = "nat c + (n - 1)"
    have m: "?m < length (logged rid rm')" using n *(3) by linarith
    have "logs_extend rm' rm''" using steps reachable_inv [OF *(5)] by (rule lg.run_rel)
    with *(6) obtain new where run2: "get_run rm'' rid \<noteq> None" and new: "logged rid rm'' = logged rid rm' @ new"
      by (fastforce simp: logs_extend_def evolves_def)
    have "messages bs \<noteq> []" using n m by (simp add: *(2))
    with valid d(2) have "sd_lastEventID d = se_ID (last (messages bs))" by (simp add: last_id_valid)
    also have "\<dots> = ev_EventID (logged rid rm'' ! ?m)"
      using n m *(3) by (simp add: *(2) new last_conv_nth client_event_def nth_append min_def)
    finally show ?thesis
      using resume_at [OF reachable_run [OF *(5) steps] run2, of ?m rq'] rq' m n c by (simp add: new)
  qed
  with * d assms(3,4) show ?thesis by (auto simp: handleStreamEvents_def)
qed

definition first_request :: stream_request where
  "first_request = \<lparr>sr_Method = ''GET'', sr_LastEventID = [], sr_cursor = [], sr_since = [], sr_flusher = True\<rparr>"

lemma small_logged: "\<exists>e. logged small_id small_created = [e]"
  by (simp add: logged_def small_created_def CreateRun_def ValidateRunConfig_def plain_env_def Let_def case_prod_unfold
      insert_run_def new_record_def small_id_def appendEventWithLog_def Append_def validate_event_def mk_event_def store_event_events
      NewEventLog_def NewEventLogWithLimit_def DefaultMaxEventsPerLog_def generateRunID_def generateExecutionID_def frames
      split: option.split)

theorem event_stream_witness:
  "\<exists>out e d. handleStreamEvents (\<lambda>_. Some ''{}'') first_request small_id small_created [HeartbeatTick, PollTick small_created] = Inr out
   \<and> decode_all (NewSSEDecoder (readerLoop out EOF)) = ([client_event (\<lambda>_. ''{}'') e], EOF, d)
   \<and> logged small_id small_created = [e]
   \<and> stream_start (first_request\<lparr>sr_LastEventID := sd_lastEventID d\<rparr>) small_id small_created = Inr 1"
proof -
  obtain e where e: "logged small_id small_created = [e]" using small_logged by blast
  have "watched plain_env small_created [HeartbeatTick, PollTick small_created] small_created" by (intro watched.intros) simp
  moreover have "stream_start first_request small_id small_created = Inr 0"
    using small_created_run by (auto simp: stream_start_def first_request_def GetRun_def)
  moreover have "sr_flusher first_request" by (simp add: first_request_def)
  ultimately obtain out n d where *:
    "handleStreamEvents (\<lambda>_. Some ''{}'') first_request small_id small_created [HeartbeatTick, PollTick small_created] = Inr out"
    "decode_all (NewSSEDecoder (readerLoop out EOF)) = (map (client_event (\<lambda>_. ''{}'')) (take n [e]), EOF, d)"
    "n \<le> 1" "1 \<le> n"
    "\<forall>rm'' rq'. (rm_step plain_env)\<^sup>*\<^sup>* small_created rm'' \<longrightarrow> sr_Method rq' = ''GET'' \<longrightarrow> sr_LastEventID rq' = sd_lastEventID d
       \<longrightarrow> stream_start rq' small_id rm'' = Inr (int n)"
    using event_stream [OF small_created_reachable, of "[HeartbeatTick, PollTick small_created]" small_created first_request small_id 0
        "\<lambda>_. Some ''{}''" "\<lambda>_. ''{}''" EOF] e
    by (auto simp: plain_text_def)
  from *(3,4) have "n = 1" by simp
  with * e show ?thesis by (auto simp: first_request_def)
qed

end
