(* ===== verification/Sse_Sort.thy ===== *)
theory Sse_Sort
  imports Sse_Decoder "HOL-Library.Multiset"
begin

text \<open>
  The sorting routines of \<^verbatim>\<open>sse_decoder.go\<close> sort, and the statistics of the gaps between events that rest on them:
  buckets, extremes and percentiles.
\<close>

section \<open>Sorting is correct\<close>

text \<open>Shifting into the gap \<open>h\<close> after \<open>xs\<close>, then storing the key.\<close>

definition store_key :: "int \<Rightarrow> int list \<Rightarrow> int \<Rightarrow> int list \<Rightarrow> int list" where
  "store_key key xs h zs = (case shift_loop (xs @ h # zs) key (int (length xs) - 1) of (s1, j) \<Rightarrow> s1[nat (j + 1) := key])"

lemma store_key_snoc:
  "store_key key (xs @ [x]) h zs = (if x > key then store_key key xs x (x # zs) else xs @ x # key # zs)"
proof (cases "x > key")
  case True
  then have "shift_loop ((xs @ [x]) @ h # zs) key (int (length (xs @ [x])) - 1) = shift_loop (xs @ x # x # zs) key (int (length xs) - 1)"
    by (subst shift_loop.simps) (simp add: nth_append list_update_append nat_add_distrib)
  with True show ?thesis by (simp add: store_key_def)
next
  case False
  then have "shift_loop ((xs @ [x]) @ h # zs) key (int (length (xs @ [x])) - 1) = ((xs @ [x]) @ h # zs, int (length xs))"
    by (subst shift_loop.simps) (simp add: nth_append)
  with False show ?thesis by (simp add: store_key_def nat_add_distrib list_update_append)
qed

lemma store_key_insert:
  "\<exists>ys ws. xs = ys @ ws \<and> (\<forall>w \<in> set ws. key < w) \<and> (ys \<noteq> [] \<longrightarrow> last ys \<le> key) \<and> store_key key xs h zs = ys @ key # ws @ zs"
proof (induction xs arbitrary: h zs rule: rev_induct)
  case Nil
  show ?case unfolding store_key_def by (subst shift_loop.simps) simp
next
  case (snoc x xs)
  show ?case
  proof (cases "x > key")
    case True
    from snoc.IH [where h = x and zs = "x # zs"] obtain ys ws where "xs = ys @ ws" "\<forall>w \<in> set ws. key < w"
      "ys \<noteq> [] \<longrightarrow> last ys \<le> key" "store_key key xs x (x # zs) = ys @ key # ws @ x # zs" by blast
    moreover have "store_key key (xs @ [x]) h zs = store_key key xs x (x # zs)" using True by (simp add: store_key_snoc)
    ultimately show ?thesis by - (rule exI [of _ ys], rule exI [of _ "ws @ [x]"], use True in auto)
  next
    case False
    then show ?thesis by - (rule exI [of _ "xs @ [x]"], rule exI [of _ "[]"], simp add: store_key_snoc)
  qed
qed

lemma insert_at_correct:
  assumes "i < length s" and "sorted (take i s)"
  shows "mset (insert_at s i) = mset s" and "sorted (take (Suc i) (insert_at s i))" and "length (insert_at s i) = length s"
proof -
  have len: "length (take i s) = i" using assms(1) by simp
  have s: "s = take i s @ s ! i # drop (Suc i) s" using assms(1) by (rule id_take_nth_drop)
  have st: "insert_at s i = store_key (s ! i) (take i s) (s ! i) (drop (Suc i) s)"
    unfolding store_key_def s [symmetric] len by (simp add: insert_at_def split_beta Let_def)
  obtain ys ws where yw: "take i s = ys @ ws" "\<forall>w \<in> set ws. s ! i < w" "ys \<noteq> [] \<longrightarrow> last ys \<le> s ! i"
    and "store_key (s ! i) (take i s) (s ! i) (drop (Suc i) s) = ys @ s ! i # ws @ drop (Suc i) s"
    using store_key_insert [where xs = "take i s" and key = "s ! i" and h = "s ! i" and zs = "drop (Suc i) s"] by blast
  then have eq: "insert_at s i = ys @ s ! i # ws @ drop (Suc i) s" unfolding st by blast
  have i: "i = length ys + length ws" using yw(1) len by (metis length_append)
  have m: "mset s = mset (take i s) + mset (s ! i # drop (Suc i) s)" by (metis mset_append s)
  show "mset (insert_at s i) = mset s" unfolding eq m yw(1) by simp
  have "sorted (ys @ ws)" using assms(2) yw(1) by simp
  moreover have "y \<le> s ! i" if "y \<in> set ys" for y
  proof -
    from that obtain k where "k < length ys" "ys ! k = y" by (auto simp: in_set_conv_nth)
    moreover have "sorted ys" "ys \<noteq> []" using \<open>sorted (ys @ ws)\<close> that by (auto simp: sorted_append)
    ultimately have "y \<le> last ys" using sorted_nth_mono [of ys k "length ys - 1"] by (simp add: last_conv_nth)
    with yw(3) that show ?thesis by force
  qed
  ultimately have "sorted (ys @ s ! i # ws)" using yw(2) by (auto simp: sorted_append less_imp_le)
  moreover have "take (Suc i) (insert_at s i) = ys @ s ! i # ws" unfolding eq by (simp add: i)
  ultimately show "sorted (take (Suc i) (insert_at s i))" by simp
  show "length (insert_at s i) = length s" unfolding eq using assms(1) i by simp
qed

lemma insertion_sort_sorts: "insertionSortInt64 s = sort s"
proof -
  have "mset (fold (\<lambda>i s. insert_at s i) [1..<Suc k] s) = mset s \<and> sorted (take (Suc k) (fold (\<lambda>i s. insert_at s i) [1..<Suc k] s))
      \<and> length (fold (\<lambda>i s. insert_at s i) [1..<Suc k] s) = length s" if "Suc k \<le> length s" for k
    using that
  proof (induction k)
    case (Suc k)
    let ?t = "fold (\<lambda>i s. insert_at s i) [1..<Suc k] s"
    have ih: "mset ?t = mset s" "sorted (take (Suc k) ?t)" "length ?t = length s" using Suc by auto
    have "fold (\<lambda>i s. insert_at s i) [1..<Suc (Suc k)] s = insert_at ?t (Suc k)" by simp
    with insert_at_correct [of "Suc k" ?t] ih Suc.prems show ?case by simp
  qed (cases s; simp)
  note loop = this
  show ?thesis
  proof (cases s)
    case (Cons a list)
    have n: "Suc (length list) = length s" by (simp add: Cons)
    from loop [of "length list"] have "mset (insertionSortInt64 s) = mset s" "sorted (insertionSortInt64 s)"
      unfolding n insertionSortInt64_def by auto
    then show ?thesis by (rule properties_for_sort [symmetric])
  qed (simp add: insertionSortInt64_def)
qed

text \<open>Two arrays that hold the same elements and agree outside a range hold the same elements in the range.\<close>

lemma range_mset:
  fixes s t :: "int list"
  assumes "mset t = mset s" and "a \<le> e" and "e \<le> length s" and "\<And>k. k < a \<or> e \<le> k \<Longrightarrow> k < length s \<Longrightarrow> t ! k = s ! k"
  shows "set (take (e - a) (drop a t)) = set (take (e - a) (drop a s))"
proof -
  have len: "length t = length s" using assms(1) by (rule mset_eq_length)
  have "take a t = take a s" "drop e t = drop e s"
    by (rule nth_equalityI; use assms(2,3,4) len in simp)+
  moreover have "xs = take a xs @ take (e - a) (drop a xs) @ drop e xs" for xs :: "int list"
    using assms(2) by (metis append_take_drop_id drop_drop le_add_diff_inverse2)
  then have "mset xs = mset (take a xs) + mset (take (e - a) (drop a xs)) + mset (drop e xs)" for xs :: "int list"
    by (metis mset_append add.assoc)
  ultimately have "mset (take (e - a) (drop a t)) = mset (take (e - a) (drop a s))"
    using assms(1) by (metis add_left_cancel add_right_cancel)
  then show ?thesis by (rule mset_eq_setD)
qed

lemma range_all:
  fixes s t :: "int list"
  assumes "mset t = mset s" and "0 \<le> a" and "b < int (length s)" and "\<And>k. int k < a \<or> b < int k \<Longrightarrow> k < length s \<Longrightarrow> t ! k = s ! k"
    and "\<And>k. a \<le> int k \<Longrightarrow> int k \<le> b \<Longrightarrow> P (s ! k)" and "a \<le> int k" and "int k \<le> b"
  shows "P (t ! k)"
proof -
  let ?a = "nat a" and ?e = "nat (b + 1)"
  have len: "length t = length s" using assms(1) by (rule mset_eq_length)
  have eq: "set (take (?e - ?a) (drop ?a t)) = set (take (?e - ?a) (drop ?a s))"
  proof (rule range_mset [OF assms(1)])
    show "t ! m = s ! m" if "m < ?a \<or> ?e \<le> m" "m < length s" for m by (rule assms(4)) (use that in auto)
  qed (use assms(3,6,7) in auto)
  have in_range: "v \<in> set (take (?e - ?a) (drop ?a xs)) \<longleftrightarrow> (\<exists>k. a \<le> int k \<and> int k \<le> b \<and> xs ! k = v)" if "length xs = length s" for v xs
  proof
    assume "v \<in> set (take (?e - ?a) (drop ?a xs))"
    then obtain i where "i < ?e - ?a" "?a + i < length xs" "xs ! (?a + i) = v" by (auto simp: in_set_conv_nth)
    then show "\<exists>k. a \<le> int k \<and> int k \<le> b \<and> xs ! k = v" using assms(2) by (intro exI [of _ "?a + i"]) auto
  next
    assume "\<exists>k. a \<le> int k \<and> int k \<le> b \<and> xs ! k = v"
    then obtain k where "a \<le> int k" "int k \<le> b" "xs ! k = v" by blast
    then show "v \<in> set (take (?e - ?a) (drop ?a xs))"
      using assms(2,3) that by (auto simp: in_set_conv_nth intro!: exI [of _ "k - ?a"])
  qed
  have "t ! k \<in> set (take (?e - ?a) (drop ?a t))" using in_range [OF len] assms(6,7) by blast
  then obtain m where "a \<le> int m" "int m \<le> b" "s ! m = t ! k" using in_range [OF refl] unfolding eq by blast
  with assms(5) show ?thesis by metis
qed

lemma swap_correct:
  assumes "0 \<le> i" and "0 \<le> j" and "i < int (length s)" and "j < int (length s)"
  shows "mset (swap s i j) = mset s" and "length (swap s i j) = length s"
    and "swap s i j ! k = (if k = nat j then s ! nat i else if k = nat i then s ! nat j else s ! k)"
proof -
  show "mset (swap s i j) = mset s" unfolding swap_def by (rule mset_swap) (use assms in auto)
  show "length (swap s i j) = length s" by (simp add: swap_def)
  show "swap s i j ! k = (if k = nat j then s ! nat i else if k = nat i then s ! nat j else s ! k)"
    using assms by (auto simp: swap_def nth_list_update nat_less_iff)
qed

text \<open>What the partition loop has done when it is at \<open>j\<close>: small elements up to \<open>i\<close>, large ones from there.\<close>

definition split_at :: "int \<Rightarrow> int \<Rightarrow> int \<Rightarrow> int \<Rightarrow> int list \<Rightarrow> bool" where
  "split_at pivot lo i j s \<longleftrightarrow> (\<forall>k. lo \<le> int k \<longrightarrow> int k \<le> i \<longrightarrow> s ! k \<le> pivot) \<and> (\<forall>k. i < int k \<longrightarrow> int k < j \<longrightarrow> pivot < s ! k)"

lemma partition_loop_correct:
  assumes "0 \<le> lo" and "lo - 1 \<le> i" and "i < j" and "j \<le> hi" and "hi < int (length s)" and "split_at pivot lo i j s"
    and "partition_loop s pivot hi i j = (s', i')"
  shows "mset s' = mset s \<and> split_at pivot lo i' hi s' \<and> (\<forall>k. int k < lo \<or> hi \<le> int k \<longrightarrow> k < length s \<longrightarrow> s' ! k = s ! k)"
  using assms
proof (induction s pivot hi i j rule: partition_loop.induct)
  case (1 s pivot hi i j)
  show ?case
  proof (cases "j < hi")
    case False
    with "1.prems" show ?thesis by (auto simp: partition_loop.simps [of s])
  next
    case j: True
    show ?thesis
    proof (cases "s ! nat j \<le> pivot")
      case True
      let ?s = "swap s (i + 1) j"
      have "0 \<le> i + 1" "0 \<le> j" "i + 1 < int (length s)" "j < int (length s)" using "1.prems" by auto
      note sw = swap_correct [OF this]
      have "split_at pivot lo (i + 1) (j + 1) ?s"
        using "1.prems"(1-4,6) True unfolding split_at_def sw(3) by (auto simp: nat_eq_iff2 nat_add_distrib)
      moreover have "partition_loop ?s pivot hi (i + 1) (j + 1) = (s', i')" using "1.prems"(7) j True by (simp add: partition_loop.simps [of s])
      ultimately have "mset s' = mset ?s \<and> split_at pivot lo i' hi s' \<and> (\<forall>k. int k < lo \<or> hi \<le> int k \<longrightarrow> k < length ?s \<longrightarrow> s' ! k = ?s ! k)"
        using "1.IH"(1) [OF j True] "1.prems"(1-5) j sw(2) by auto
      with sw "1.prems"(1-4) j show ?thesis by auto
    next
      case False
      have "split_at pivot lo i (j + 1) s" using "1.prems"(1-4,6) False unfolding split_at_def
        by (metis nat_int not_le order_le_less zless_add1_eq)
      moreover have "partition_loop s pivot hi i (j + 1) = (s', i')" using "1.prems"(7) j False by (simp add: partition_loop.simps [of s])
      ultimately show ?thesis using "1.IH"(2) [OF j False] "1.prems"(1-5) j by auto
    qed
  qed
qed

lemma partition_correct:
  assumes "0 \<le> lo" and "lo < hi" and "hi < int (length s)" and "partitionInt64 s lo hi = (s', p)"
  shows "mset s' = mset s" and "\<And>k. lo \<le> int k \<Longrightarrow> int k < p \<Longrightarrow> s' ! k \<le> s' ! nat p"
    and "\<And>k. p < int k \<Longrightarrow> int k \<le> hi \<Longrightarrow> s' ! nat p < s' ! k"
    and "\<And>k. int k < lo \<or> hi < int k \<Longrightarrow> k < length s \<Longrightarrow> s' ! k = s ! k"
proof -
  obtain t i where t: "partition_loop s (s ! nat hi) hi (lo - 1) lo = (t, i)" by (cases "partition_loop s (s ! nat hi) hi (lo - 1) lo")
  with assms(4) have s': "s' = swap t (i + 1) hi" "p = i + 1" by (auto simp: partitionInt64_def)
  have i: "lo - 1 \<le> i" "i < hi" using partition_loop_range [of "lo - 1" lo hi s "s ! nat hi"] assms(2) t by auto
  have "mset t = mset s \<and> split_at (s ! nat hi) lo i hi t \<and> (\<forall>k. int k < lo \<or> hi \<le> int k \<longrightarrow> k < length s \<longrightarrow> t ! k = s ! k)"
    by (rule partition_loop_correct [OF _ _ _ _ _ _ t]) (use assms in \<open>auto simp: split_at_def\<close>)
  then have t': "mset t = mset s" "split_at (s ! nat hi) lo i hi t" "\<And>k. int k < lo \<or> hi \<le> int k \<Longrightarrow> k < length s \<Longrightarrow> t ! k = s ! k" by auto
  have len: "length t = length s" using t'(1) by (rule mset_eq_length)
  have "0 \<le> i + 1" "0 \<le> hi" "i + 1 < int (length t)" "hi < int (length t)" using assms i len by auto
  note sw = swap_correct(1,3) [OF this, folded s'(1)]
  have pivot: "t ! nat hi = s ! nat hi" using t'(3) [of "nat hi"] assms by simp
  show "mset s' = mset s" using sw(1) t'(1) by simp
  show "s' ! k = s ! k" if "int k < lo \<or> hi < int k" "k < length s" for k
  proof -
    from that assms(1,2) i have "k \<noteq> nat hi" "k \<noteq> nat (i + 1)" by (auto split: if_splits)
    with that t'(3) [of k] show ?thesis by (auto simp: sw(2))
  qed
  have p: "s' ! nat p = s ! nat hi" using pivot by (simp add: sw(2) s'(2))
  show "s' ! k \<le> s' ! nat p" if "lo \<le> int k" "int k < p" for k
  proof -
    from that assms(1) i s'(2) have "k \<noteq> nat hi" "k \<noteq> nat (i + 1)" "int k \<le> i" by (auto split: if_splits)
    with that t'(2) show ?thesis unfolding p by (auto simp: sw(2) split_at_def)
  qed
  show "s' ! nat p < s' ! k" if "p < int k" "int k \<le> hi" for k
  proof (cases "k = nat hi")
    case True
    have "s ! nat hi < t ! nat (i + 1)" using t'(2) that i assms(1) s'(2) True by (auto simp: split_at_def)
    then show ?thesis unfolding p by (simp add: sw(2) True)
  next
    case False
    from that i s'(2) have "k \<noteq> nat (i + 1)" "i < int k" "int k < hi" using False assms(1) by (auto split: if_splits)
    with t'(2) False show ?thesis unfolding p by (auto simp: sw(2) split_at_def)
  qed
qed

text \<open>Sorting the two halves around the pivot sorts the range.\<close>

lemma halves_sorted:
  fixes s1 s2 s3 :: "int list"
  assumes left: "mset s2 = mset s1" "\<And>k. int k < lo \<or> p - 1 < int k \<Longrightarrow> k < length s1 \<Longrightarrow> s2 ! k = s1 ! k"
      "\<And>a b. lo \<le> int a \<Longrightarrow> a \<le> b \<Longrightarrow> int b \<le> p - 1 \<Longrightarrow> s2 ! a \<le> s2 ! b"
    and right: "mset s3 = mset s2" "\<And>k. int k < p + 1 \<or> hi < int k \<Longrightarrow> k < length s2 \<Longrightarrow> s3 ! k = s2 ! k"
      "\<And>a b. p + 1 \<le> int a \<Longrightarrow> a \<le> b \<Longrightarrow> int b \<le> hi \<Longrightarrow> s3 ! a \<le> s3 ! b"
    and part: "\<And>k. lo \<le> int k \<Longrightarrow> int k < p \<Longrightarrow> s1 ! k \<le> s1 ! nat p" "\<And>k. p < int k \<Longrightarrow> int k \<le> hi \<Longrightarrow> s1 ! nat p < s1 ! k"
    and range: "0 \<le> lo" "lo \<le> p" "p \<le> hi" "hi < int (length s1)"
    and ab: "lo \<le> int a" "a \<le> b" "int b \<le> hi"
  shows "s3 ! a \<le> s3 ! b"
proof -
  have len: "length s2 = length s1" using left(1) by (rule mset_eq_length)
  have v: "s3 ! nat p = s1 ! nat p" using left(2) [of "nat p"] right(2) [of "nat p"] range len by auto
  have s2: "s3 ! k = s2 ! k" if "int k < p" for k using right(2) [of k] that range len by simp
  have small: "s3 ! k \<le> s1 ! nat p" if "lo \<le> int k" "int k < p" for k
  proof -
    have "s2 ! k \<le> s1 ! nat p"
      by (rule range_all [where P = "\<lambda>x. x \<le> s1 ! nat p" and a = lo and b = "p - 1", OF left(1)])
        (use that range part(1) left(2) in auto)
    then show ?thesis by (simp add: s2 [OF that(2)])
  qed
  have large: "s1 ! nat p \<le> s3 ! k" if "p < int k" "int k \<le> hi" for k
  proof (rule range_all [where P = "\<lambda>x. s1 ! nat p \<le> x" and a = "p + 1" and b = hi, OF right(1)])
    show "s1 ! nat p \<le> s2 ! m" if "p + 1 \<le> int m" "int m \<le> hi" for m
      using part(2) [of m] left(2) [of m] that range by simp
  qed (use that range len right(2) in auto)
  consider "int b < p" | "p < int a" | "int a \<le> p" "p \<le> int b" by linarith
  then show ?thesis
  proof cases
    case 1
    with left(3) [of a b] ab s2 [of a] s2 [of b] show ?thesis by simp
  next
    case 2
    with right(3) [of a b] ab show ?thesis by simp
  next
    case 3
    have "s3 ! a \<le> s1 ! nat p" using small [of a] v ab(1) 3(1) by (cases "int a = p") auto
    also have "s1 ! nat p \<le> s3 ! b" using large [of b] v ab(3) 3(2) by (cases "int b = p") auto
    finally show ?thesis .
  qed
qed

lemma quicksort_correct:
  assumes "0 \<le> lo" and "hi < int (length s)"
  shows "mset (quicksortInt64 s lo hi) = mset s
    \<and> (\<forall>k. int k < lo \<or> hi < int k \<longrightarrow> k < length s \<longrightarrow> quicksortInt64 s lo hi ! k = s ! k)
    \<and> (\<forall>a b. lo \<le> int a \<longrightarrow> a \<le> b \<longrightarrow> int b \<le> hi \<longrightarrow> quicksortInt64 s lo hi ! a \<le> quicksortInt64 s lo hi ! b)"
  using assms
proof (induction s lo hi rule: quicksortInt64.induct)
  case (1 s lo hi)
  show ?case
  proof (cases "lo < hi")
    case False
    then have "quicksortInt64 s lo hi = s" by (simp add: quicksortInt64.simps [of s])
    with False show ?thesis by (auto intro: eq_refl dest: antisym)
  next
    case True
    obtain s1 p where p: "partitionInt64 s lo hi = (s1, p)" by (cases "partitionInt64 s lo hi")
    define s2 where "s2 = quicksortInt64 s1 lo (p - 1)"
    define s3 where "s3 = quicksortInt64 s2 (p + 1) hi"
    have eq: "quicksortInt64 s lo hi = s3" using True by (simp add: quicksortInt64.simps [of s] p s2_def s3_def Let_def)
    note part = partition_correct [OF "1.prems"(1) True "1.prems"(2) p]
    have pr: "lo \<le> p" "p \<le> hi" using partition_range [OF p [symmetric] True] by auto
    have len1: "length s1 = length s" using part(1) by (rule mset_eq_length)
    have left: "mset s2 = mset s1" "\<And>k. int k < lo \<or> p - 1 < int k \<Longrightarrow> k < length s1 \<Longrightarrow> s2 ! k = s1 ! k"
      "\<And>a b. lo \<le> int a \<Longrightarrow> a \<le> b \<Longrightarrow> int b \<le> p - 1 \<Longrightarrow> s2 ! a \<le> s2 ! b"
      using "1.IH"(1) [OF True p [symmetric] refl "1.prems"(1)] pr "1.prems"(2) len1 unfolding s2_def by auto
    have len2: "length s2 = length s" using left(1) len1 by (metis mset_eq_length)
    have right: "mset s3 = mset s2" "\<And>k. int k < p + 1 \<or> hi < int k \<Longrightarrow> k < length s2 \<Longrightarrow> s3 ! k = s2 ! k"
      "\<And>a b. p + 1 \<le> int a \<Longrightarrow> a \<le> b \<Longrightarrow> int b \<le> hi \<Longrightarrow> s3 ! a \<le> s3 ! b"
      using "1.IH"(2) [OF True p [symmetric] refl s2_def] pr "1.prems" len2 unfolding s3_def by auto
    have "s3 ! a \<le> s3 ! b" if "lo \<le> int a" "a \<le> b" "int b \<le> hi" for a b
      by (rule halves_sorted [OF left right part(2,3) _ _ _ _ that]) (use pr "1.prems" len1 len2 in auto)
    moreover have "s3 ! k = s ! k" if "int k < lo \<or> hi < int k" "k < length s" for k
      using right(2) [of k] left(2) [of k] part(4) [of k] that pr len1 len2 by auto
    ultimately show ?thesis unfolding eq using part(1) left(1) right(1) by auto
  qed
qed

lemma quicksort_whole: "mset (quicksortInt64 s 0 (int (length s) - 1)) = mset s \<and> sorted (quicksortInt64 s 0 (int (length s) - 1))"
proof -
  let ?q = "quicksortInt64 s 0 (int (length s) - 1)"
  have q: "mset ?q = mset s" "\<And>a b. a \<le> b \<Longrightarrow> b < length s \<Longrightarrow> ?q ! a \<le> ?q ! b"
    using quicksort_correct [of 0 "int (length s) - 1" s] by auto
  then show ?thesis using mset_eq_length [OF q(1)] by (auto simp: sorted_iff_nth_mono)
qed

lemma sortInt64Slice_sorts: "sortInt64Slice s = sort s"
  using quicksort_whole [of s] by (auto simp: sortInt64Slice_def insertion_sort_sorts properties_for_sort)

section \<open>Gap statistics\<close>

lemma to_int64_floor: "0 \<le> x \<Longrightarrow> to_int64 x = \<lfloor>x\<rfloor>"
  by (simp add: to_int64_def)

lemma nth_mono_int: "sorted s \<Longrightarrow> 0 \<le> a \<Longrightarrow> a \<le> b \<Longrightarrow> b < int (length s) \<Longrightarrow> s ! nat a \<le> s ! nat b" for s :: "int list"
  by (intro sorted_nth_mono) (auto simp: nat_less_iff nat_le_eq_zle)

text \<open>The value at the rank \<open>r\<close>, between the two elements next to it.\<close>

definition at_rank :: "int list \<Rightarrow> real \<Rightarrow> int" where
  "at_rank s r = s ! nat \<lfloor>r\<rfloor> + \<lfloor>(r - real_of_int \<lfloor>r\<rfloor>) * real_of_int (s ! nat (\<lfloor>r\<rfloor> + 1) - s ! nat \<lfloor>r\<rfloor>)\<rfloor>"

lemma gap_percentile_rank:
  assumes "s \<noteq> []" and "0 \<le> p" and "p \<le> 100"
  defines "r \<equiv> real_of_int p / 100 * real (length s - 1)"
  shows "0 \<le> r" and "r \<le> real (length s - 1)"
    and "sorted s \<Longrightarrow> gap_percentile s p = (if \<lfloor>r\<rfloor> + 1 \<ge> int (length s) then s ! (length s - 1) else at_rank s r)"
proof -
  show r: "0 \<le> r" using assms(2) by (simp add: r_def)
  have "real_of_int p / 100 \<le> 1" using assms(3) by simp
  then show "r \<le> real (length s - 1)" unfolding r_def using mult_right_mono [of "real_of_int p / 100" 1 "real (length s - 1)"] by simp
  assume "sorted s"
  show "gap_percentile s p = (if \<lfloor>r\<rfloor> + 1 \<ge> int (length s) then s ! (length s - 1) else at_rank s r)"
  proof (cases "length s = 1")
    case True
    then have "r = 0" by (simp add: r_def)
    with True assms(1) show ?thesis by (simp add: gap_percentile_def)
  next
    case False
    have eq: "gap_percentile s p = (if \<lfloor>r\<rfloor> + 1 \<ge> int (length s) then s ! (length s - 1)
        else s ! nat \<lfloor>r\<rfloor> + to_int64 ((r - real_of_int \<lfloor>r\<rfloor>) * real_of_int (s ! nat (\<lfloor>r\<rfloor> + 1) - s ! nat \<lfloor>r\<rfloor>)))"
      using False assms(1) r unfolding gap_percentile_def Let_def r_def [symmetric] by (simp add: to_int64_floor)
    have "s ! nat \<lfloor>r\<rfloor> \<le> s ! nat (\<lfloor>r\<rfloor> + 1)" if "\<lfloor>r\<rfloor> + 1 < int (length s)"
      using \<open>sorted s\<close> r that by (intro nth_mono_int) auto
    then have "\<lfloor>r\<rfloor> + 1 < int (length s) \<Longrightarrow> 0 \<le> (r - real_of_int \<lfloor>r\<rfloor>) * real_of_int (s ! nat (\<lfloor>r\<rfloor> + 1) - s ! nat \<lfloor>r\<rfloor>)"
      by (intro mult_nonneg_nonneg) auto
    then show ?thesis unfolding eq by (simp add: at_rank_def to_int64_floor)
  qed
qed

lemma at_rank_between:
  assumes "sorted s" and "0 \<le> r" and "\<lfloor>r\<rfloor> + 1 < int (length s)"
  shows "s ! nat \<lfloor>r\<rfloor> \<le> at_rank s r" and "at_rank s r \<le> s ! nat (\<lfloor>r\<rfloor> + 1)"
proof -
  let ?w = "r - real_of_int \<lfloor>r\<rfloor>" and ?d = "s ! nat (\<lfloor>r\<rfloor> + 1) - s ! nat \<lfloor>r\<rfloor>"
  have d: "0 \<le> ?d" using assms nth_mono_int [of s "\<lfloor>r\<rfloor>" "\<lfloor>r\<rfloor> + 1"] by simp
  have w: "0 \<le> ?w" "?w \<le> 1" by linarith+
  have "0 \<le> ?w * real_of_int ?d" using w(1) d by (intro mult_nonneg_nonneg) auto
  then show "s ! nat \<lfloor>r\<rfloor> \<le> at_rank s r" by (simp add: at_rank_def)
  have "?w * real_of_int ?d \<le> real_of_int ?d" using w d mult_right_mono [of ?w 1 "real_of_int ?d"] by simp
  then have "\<lfloor>?w * real_of_int ?d\<rfloor> \<le> ?d" by linarith
  then show "at_rank s r \<le> s ! nat (\<lfloor>r\<rfloor> + 1)" by (simp add: at_rank_def)
qed

lemma gap_percentile_mono:
  assumes "sorted s" and "s \<noteq> []" and "0 \<le> p" and "p \<le> q" and "q \<le> 100"
  shows "gap_percentile s p \<le> gap_percentile s q"
proof -
  define r where "r = real_of_int p / 100 * real (length s - 1)"
  define t where "t = real_of_int q / 100 * real (length s - 1)"
  have rt: "r \<le> t" unfolding r_def t_def using assms(4) by (intro mult_right_mono) auto
  note P = gap_percentile_rank [OF assms(2,3), folded r_def] and Q = gap_percentile_rank [OF assms(2) _ assms(5), folded t_def]
  have p100: "p \<le> 100" "0 \<le> q" using assms by auto
  have fl: "\<lfloor>r\<rfloor> \<le> \<lfloor>t\<rfloor>" using rt by (rule floor_mono)
  have p: "gap_percentile s p = (if \<lfloor>r\<rfloor> + 1 \<ge> int (length s) then s ! (length s - 1) else at_rank s r)" using P(3) p100(1) assms(1) by simp
  have q: "gap_percentile s q = (if \<lfloor>t\<rfloor> + 1 \<ge> int (length s) then s ! (length s - 1) else at_rank s t)" using Q(3) p100(2) assms(1) by simp
  have r0: "0 \<le> r" "0 \<le> t" using P(1) Q(1) p100 by auto
  consider "int (length s) \<le> \<lfloor>r\<rfloor> + 1" | "\<lfloor>r\<rfloor> + 1 < int (length s)" "int (length s) \<le> \<lfloor>t\<rfloor> + 1"
    | "\<lfloor>t\<rfloor> + 1 < int (length s)" "\<lfloor>r\<rfloor> < \<lfloor>t\<rfloor>" | "\<lfloor>t\<rfloor> + 1 < int (length s)" "\<lfloor>r\<rfloor> = \<lfloor>t\<rfloor>" using fl by linarith
  then show ?thesis
  proof cases
    case 2
    have "nat (int (length s) - 1) = length s - 1" by (cases s) auto
    then have "s ! nat (\<lfloor>r\<rfloor> + 1) \<le> s ! (length s - 1)"
      using assms(1) 2(1) r0 nth_mono_int [of s "\<lfloor>r\<rfloor> + 1" "int (length s) - 1"] by simp
    with at_rank_between(2) [OF assms(1) r0(1) 2(1)] 2 show ?thesis by (simp add: p q)
  next
    case 3
    then have lt: "\<lfloor>r\<rfloor> + 1 < int (length s)" by simp
    have "s ! nat (\<lfloor>r\<rfloor> + 1) \<le> s ! nat \<lfloor>t\<rfloor>" using assms(1) 3 r0 by (intro nth_mono_int) auto
    with at_rank_between(2) [OF assms(1) r0(1) lt] at_rank_between(1) [OF assms(1) r0(2) 3(1)] 3 lt show ?thesis by (simp add: p q)
  next
    case 4
    have "s ! nat \<lfloor>t\<rfloor> \<le> s ! nat (\<lfloor>t\<rfloor> + 1)" using assms(1) 4(1) r0 by (intro nth_mono_int) auto
    then have "(r - real_of_int \<lfloor>t\<rfloor>) * real_of_int (s ! nat (\<lfloor>t\<rfloor> + 1) - s ! nat \<lfloor>t\<rfloor>) \<le> (t - real_of_int \<lfloor>t\<rfloor>) * real_of_int (s ! nat (\<lfloor>t\<rfloor> + 1) - s ! nat \<lfloor>t\<rfloor>)"
      using rt by (intro mult_right_mono) auto
    then have "at_rank s r \<le> at_rank s t" unfolding at_rank_def 4(2) by (intro add_left_mono floor_mono)
    with 4 show ?thesis by (simp add: p q)
  qed (use fl in \<open>simp add: p q\<close>)
qed

lemma percentile_range:
  assumes "sorted s" and "s \<noteq> []" and "0 \<le> p" and "p \<le> 100"
  shows "hd s \<le> gap_percentile s p" and "gap_percentile s p \<le> last s"
proof -
  have "gap_percentile s 0 = hd s"
    using assms(1,2) gap_percentile_rank(3) [of s 0] by (cases s) (auto simp: at_rank_def)
  with gap_percentile_mono [OF assms(1,2) order_refl assms(3,4)] show "hd s \<le> gap_percentile s p" by simp
  have "\<lfloor>real_of_int 100 / 100 * real (length s - 1)\<rfloor> + 1 \<ge> int (length s)" using assms(2) by (cases s) auto
  then have "gap_percentile s 100 = last s"
    using gap_percentile_rank(3) [OF assms(2) _ order_refl assms(1)] assms(2) by (simp only: if_True) (simp add: last_conv_nth)
  with gap_percentile_mono [OF assms order_refl] show "gap_percentile s p \<le> last s" by simp
qed

text \<open>The tracker after any gaps.\<close>

definition bucket_count :: "int list \<Rightarrow> nat \<Rightarrow> int" where
  "bucket_count gs b = int (length (filter (\<lambda>g. gap_bucket g = b) gs))"

lemma gap_bucket_less: "gap_bucket g < 6"
  by (simp add: gap_bucket_def)

lemma tracker_after:
  assumes "\<forall>g \<in> set gs. 0 \<le> g"
  defines "t \<equiv> fold recordGap gs newEventGapTracker"
  shows "gt_gaps t = take eventGapTrackerMaxSample gs" and "gt_count t = int (length gs)" and "gt_sum t = wrap64 (sum_list gs)"
    and "gt_buckets t = map (bucket_count gs) [0..<6]"
    and "gs \<noteq> [] \<Longrightarrow> gt_min t = Min (set gs) \<and> gt_max t = Max (set gs)"
proof -
  have "gt_gaps t = take eventGapTrackerMaxSample gs \<and> gt_count t = int (length gs) \<and> gt_sum t = wrap64 (sum_list gs)
      \<and> gt_buckets t = map (bucket_count gs) [0..<6]
      \<and> (gs = [] \<longrightarrow> gt_min t = -1 \<and> gt_max t = 0) \<and> (gs \<noteq> [] \<longrightarrow> gt_min t = Min (set gs) \<and> gt_max t = Max (set gs))"
    using assms(1) unfolding t_def
  proof (induction gs rule: rev_induct)
    case Nil
    show ?case by (simp add: newEventGapTracker_def eventGapTrackerMinUnset_def bucket_count_def wrap64_def map_replicate_const)
  next
    case (snoc g gs)
    define u where "u = fold recordGap gs newEventGapTracker"
    from snoc have ih: "gt_gaps u = take eventGapTrackerMaxSample gs" "gt_count u = int (length gs)" "gt_sum u = wrap64 (sum_list gs)"
      "gt_buckets u = map (bucket_count gs) [0..<6]" "gs = [] \<longrightarrow> gt_min u = -1 \<and> gt_max u = 0"
      "gs \<noteq> [] \<longrightarrow> gt_min u = Min (set gs) \<and> gt_max u = Max (set gs)" unfolding u_def by auto
    have fold: "fold recordGap (gs @ [g]) newEventGapTracker = recordGap g u" by (simp add: u_def)
    have mm: "gt_min (recordGap g u) = Min (set (gs @ [g])) \<and> gt_max (recordGap g u) = Max (set (gs @ [g]))"
    proof (cases "gs = []")
      case True
      then show ?thesis using ih(5) snoc.prems by (simp add: recordGap_def eventGapTrackerMinUnset_def)
    next
      case False
      define m M where "m = Min (set gs)" and "M = Max (set gs)"
      have "Min (set (gs @ [g])) = min g m" "Max (set (gs @ [g])) = max g M" using False by (simp_all add: m_def M_def)
      moreover have "0 \<le> m" using False snoc.prems by (simp add: m_def)
      ultimately show ?thesis using ih(6) False
        by (simp only: m_def [symmetric] M_def [symmetric]) (simp add: recordGap_def eventGapTrackerMinUnset_def min_def max_def)
    qed
    have bk: "gt_buckets (recordGap g u) = map (bucket_count (gs @ [g])) [0..<6]"
      by (rule nth_equalityI) (use gap_bucket_less [of g] in \<open>auto simp: recordGap_def ih(4) bucket_count_def nth_list_update\<close>)
    show ?case unfolding fold using mm bk by (auto simp: recordGap_def ih(1-3) wrap64_add)
  qed
  then show "gt_gaps t = take eventGapTrackerMaxSample gs" "gt_count t = int (length gs)" "gt_sum t = wrap64 (sum_list gs)"
    "gt_buckets t = map (bucket_count gs) [0..<6]" "gs \<noteq> [] \<Longrightarrow> gt_min t = Min (set gs) \<and> gt_max t = Max (set gs)" by auto
qed

lemma bucket_sum: "sum_list (map (bucket_count gs) [0..<6]) = int (length gs)"
proof (induction gs)
  case (Cons g gs)
  have "gap_bucket g \<in> {0, 1, 2, 3, 4, 5}" by (simp add: gap_bucket_def)
  with Cons show ?case by (auto simp: bucket_count_def upt_rec)
qed (simp add: bucket_count_def upt_rec)

section \<open>Properties\<close>

text \<open>C31: sorting ends on every array and sorts it: quicksort over the whole range, insertion sort, and the choice between
  them, give the sorted list of the same numbers.\<close>
theorem sorting_ends_sorted:
  "quicksortInt64 s 0 (int (length s) - 1) = sort s \<and> insertionSortInt64 s = sort s \<and> sortInt64Slice s = sort s"
proof -
  let ?q = "quicksortInt64 s 0 (int (length s) - 1)"
  have "mset ?q = mset s" "sorted ?q" using quicksort_whole by blast+
  then have "sort s = ?q" by (rule properties_for_sort)
  then show ?thesis by (simp add: insertion_sort_sorts sortInt64Slice_sorts)
qed

text \<open>C32: the statistics of the gaps between the events of a stream: every gap is in exactly one bucket, the minimum and the
  maximum are exact, and the percentiles, taken over the first thousand gaps, are ordered and lie between the two.\<close>
theorem gap_statistics:
  assumes "gs \<noteq> []" and "\<forall>g \<in> set gs. 0 \<le> g"
  shows "\<exists>h. buildHistogram (fold recordGap gs newEventGapTracker) = Some h
    \<and> gh_buckets h = map (\<lambda>b. int (length (filter (\<lambda>g. gap_bucket g = b) gs))) [0..<6]
    \<and> sum_list (gh_buckets h) = int (length gs)
    \<and> gh_MinGapMs h = Min (set gs) \<and> gh_MaxGapMs h = Max (set gs)
    \<and> Min (set gs) \<le> gh_P50GapMs h \<and> gh_P50GapMs h \<le> gh_P95GapMs h \<and> gh_P95GapMs h \<le> gh_P99GapMs h \<and> gh_P99GapMs h \<le> Max (set gs)"
proof -
  let ?t = "fold recordGap gs newEventGapTracker"
  define s where "s = sort (take eventGapTrackerMaxSample gs)"
  note t = tracker_after [OF assms(2)]
  have "length s > 0" using assms(1) by (simp add: s_def eventGapTrackerMaxSample_def)
  then have s: "sorted s" "s \<noteq> []" unfolding length_greater_0_conv by (simp_all add: s_def)
  have "set s \<subseteq> set gs" by (simp add: s_def set_take_subset)
  then have "hd s \<in> set gs" "last s \<in> set gs" using s(2) by auto
  then have lo: "Min (set gs) \<le> hd s" and hi: "last s \<le> Max (set gs)" by simp_all
  have ps: "hd s \<le> gap_percentile s 50" "gap_percentile s 50 \<le> gap_percentile s 95" "gap_percentile s 95 \<le> gap_percentile s 99"
    "gap_percentile s 99 \<le> last s"
    using percentile_range [OF s, of 50] percentile_range [OF s, of 99] gap_percentile_mono [OF s, of 50 95] gap_percentile_mono [OF s, of 95 99]
    by simp_all
  have "buildHistogram ?t = Some \<lparr>gh_buckets = map (bucket_count gs) [0..<6], gh_MinGapMs = Min (set gs), gh_MaxGapMs = Max (set gs),
      gh_AvgGapMs = real_of_int (gt_sum ?t) / real_of_int (gt_count ?t),
      gh_P50GapMs = gap_percentile s 50, gh_P95GapMs = gap_percentile s 95, gh_P99GapMs = gap_percentile s 99\<rparr>"
    using assms(1) t(5) by (simp add: buildHistogram_def Let_def t(1,2,4) sortInt64Slice_sorts s_def eventGapTrackerMaxSample_def)
  then show ?thesis using lo hi ps bucket_sum [of gs] by (auto simp: bucket_count_def [abs_def])
qed

theorem gap_statistics_witness:
  "\<exists>h. buildHistogram (fold recordGap [700, 3, 40, 5] newEventGapTracker) = Some h \<and> gh_buckets h = [2, 1, 0, 0, 1, 0] \<and> gh_MinGapMs h = 3
    \<and> gh_P99GapMs h \<le> 700"
  using gap_statistics [of "[700, 3, 40, 5]"] by (auto simp: gap_bucket_def upt_rec)

end
