(* ===== verification/Session_Pool.thy ===== *)
theory Session_Pool
  imports Go_Prelude "HOL-Library.Multiset"
begin

text \<open>
  The session pool of a worker (\<^verbatim>\<open>internal/session\<close>: \<^verbatim>\<open>pool.go\<close>, the sessions of \<^verbatim>\<open>types.go\<close>, the evictor of
  \<^verbatim>\<open>eviction.go\<close> and the pool mode of \<^verbatim>\<open>modes.go\<close>), with the goroutines that borrow from it.

  Sessions are shared objects, so they live in a heap: a pointer is a number below \<open>sp_next\<close>. The clock is in nanoseconds.
  A connection is \<open>None\<close> when it is nil and otherwise says whether it is open. The critical sections of the pool's mutex
  are single steps; where the code checks \<^verbatim>\<open>closed\<close> before it takes the mutex, the check is a step of its own.
\<close>

section \<open>Sessions\<close>

datatype SessionState = StateCreating | StateActive | StateIdle | StateExpired | StateClosed

record SessionInfo =
  si_ID :: string
  si_State :: SessionState
  si_CreatedAt :: int
  si_LastUsedAt :: int
  si_ExpiresAt :: "int option"
  si_IdleExpiresAt :: "int option"
  si_OperationCount :: int
  si_Connection :: "bool option"

text \<open>\<^verbatim>\<open>time.Duration(ms) * time.Millisecond\<close>.\<close>

definition ms_duration :: "int \<Rightarrow> int" where
  "ms_duration ms = wrap64 (ms * 1000000)"

definition NewSessionInfo :: "int \<Rightarrow> string \<Rightarrow> int \<Rightarrow> int \<Rightarrow> SessionInfo" where
  "NewSessionInfo now i ttlMs maxIdleMs =
     \<lparr>si_ID = i, si_State = StateActive, si_CreatedAt = now, si_LastUsedAt = now,
      si_ExpiresAt = (if ttlMs > 0 then Some (now + ms_duration ttlMs) else None),
      si_IdleExpiresAt = (if maxIdleMs > 0 then Some (now + ms_duration maxIdleMs) else None),
      si_OperationCount = 0, si_Connection = Some True\<rparr>"

definition Touch :: "int \<Rightarrow> int \<Rightarrow> SessionInfo \<Rightarrow> SessionInfo" where
  "Touch now maxIdleMs s =
     s\<lparr>si_LastUsedAt := now, si_OperationCount := si_OperationCount s + 1,
       si_IdleExpiresAt := (if maxIdleMs > 0 then Some (now + ms_duration maxIdleMs) else si_IdleExpiresAt s)\<rparr>"

definition past :: "int \<Rightarrow> int option \<Rightarrow> bool" where
  "past now t = (case t of None \<Rightarrow> False | Some t \<Rightarrow> now > t)"

definition IsExpired :: "int \<Rightarrow> SessionInfo \<Rightarrow> bool" where
  "IsExpired now s \<longleftrightarrow> past now (si_ExpiresAt s) \<or> past now (si_IdleExpiresAt s)"

definition SetState :: "SessionState \<Rightarrow> SessionInfo \<Rightarrow> SessionInfo" where
  "SetState st s = s\<lparr>si_State := st\<rparr>"

text \<open>\<^verbatim>\<open>if session.Connection != nil { closeWithLog(session.Connection, ...) }\<close>.\<close>

definition closeWithLog :: "SessionInfo \<Rightarrow> SessionInfo" where
  "closeWithLog s = s\<lparr>si_Connection := map_option (\<lambda>_. False) (si_Connection s)\<rparr>"

section \<open>Evictor and pool\<close>

datatype EvictionReason = EvictionTTL | EvictionIdle

record Evictor =
  ec_ttlMs :: int
  ec_maxIdleMs :: int
  ec_sessions :: "(string, nat) gomap"
  ec_closed :: bool
  ec_ttlEvictions :: nat
  ec_idleEvictions :: nat

record SessionPool =
  sp_maxSize :: int
  sp_maxIdleMs :: int
  sp_ttlMs :: int
  sp_sessions :: "nat list"
  sp_inUse :: "(string, nat) gomap"
  sp_pendingCreates :: nat
  sp_closed :: bool
  sp_totalCreated :: nat
  sp_poolWaits :: nat
  sp_poolTimeouts :: nat
  sp_evictor :: Evictor
  sp_heap :: "nat \<Rightarrow> SessionInfo"
  sp_next :: nat
  sp_now :: int

definition NewEvictor :: "int \<Rightarrow> int \<Rightarrow> Evictor" where
  "NewEvictor ttlMs maxIdleMs = \<lparr>ec_ttlMs = ttlMs, ec_maxIdleMs = maxIdleMs, ec_sessions = [], ec_closed = False,
     ec_ttlEvictions = 0, ec_idleEvictions = 0\<rparr>"

definition NewSessionPool :: "int \<Rightarrow> int \<Rightarrow> int \<Rightarrow> int \<Rightarrow> SessionPool" where
  "NewSessionPool now maxSize ttlMs maxIdleMs =
     \<lparr>sp_maxSize = maxSize, sp_maxIdleMs = maxIdleMs, sp_ttlMs = ttlMs, sp_sessions = [], sp_inUse = [], sp_pendingCreates = 0,
      sp_closed = False, sp_totalCreated = 0, sp_poolWaits = 0, sp_poolTimeouts = 0, sp_evictor = NewEvictor ttlMs maxIdleMs,
      sp_heap = (\<lambda>_. NewSessionInfo 0 [] 0 0), sp_next = 0, sp_now = now\<rparr>"

definition on_session :: "nat \<Rightarrow> (SessionInfo \<Rightarrow> SessionInfo) \<Rightarrow> SessionPool \<Rightarrow> SessionPool" where
  "on_session p f pl = pl\<lparr>sp_heap := (sp_heap pl)(p := f (sp_heap pl p))\<rparr>"

definition sid :: "SessionPool \<Rightarrow> nat \<Rightarrow> string" where
  "sid pl p = si_ID (sp_heap pl p)"

definition Track :: "nat \<Rightarrow> SessionPool \<Rightarrow> SessionPool" where
  "Track p pl = (if ec_closed (sp_evictor pl) then pl
     else pl\<lparr>sp_evictor := (sp_evictor pl)\<lparr>ec_sessions := map_put (sid pl p) p (ec_sessions (sp_evictor pl))\<rparr>\<rparr>)"

definition Untrack :: "string \<Rightarrow> SessionPool \<Rightarrow> SessionPool" where
  "Untrack i pl = pl\<lparr>sp_evictor := (sp_evictor pl)\<lparr>ec_sessions := map_del i (ec_sessions (sp_evictor pl))\<rparr>\<rparr>"

subsection \<open>Operations under the mutex\<close>

text \<open>The loop over the idle sessions: expired and closed ones are dropped, the first usable one is taken.\<close>

fun take_idle :: "nat list \<Rightarrow> SessionPool \<Rightarrow> nat option \<times> SessionPool" where
  "take_idle [] pl = (None, pl\<lparr>sp_sessions := []\<rparr>)"
| "take_idle (p # ps) pl =
     (if IsExpired (sp_now pl) (sp_heap pl p) \<or> si_State (sp_heap pl p) = StateClosed
      then take_idle ps (on_session p closeWithLog (Untrack (sid pl p) pl))
      else
        let pl1 = on_session p (Touch (sp_now pl) (sp_maxIdleMs pl) \<circ> SetState StateActive) (pl\<lparr>sp_sessions := ps\<rparr>)
        in (Some p, pl1\<lparr>sp_inUse := map_put (sid pl1 p) p (sp_inUse pl1)\<rparr>))"

datatype acquired = ErrManagerClosed | CtxErr | Borrowed nat | NeedsCreate | MustWait

definition try_acquire :: "SessionPool \<Rightarrow> acquired \<times> SessionPool" where
  "try_acquire pl =
     (case take_idle (sp_sessions pl) pl of
        (Some p, pl1) \<Rightarrow> (Borrowed p, pl1)
      | (None, pl1) \<Rightarrow>
          if int (length (sp_sessions pl1)) + int (length (sp_inUse pl1)) + int (sp_pendingCreates pl1) < sp_maxSize pl1
          then (NeedsCreate, pl1\<lparr>sp_pendingCreates := sp_pendingCreates pl1 + 1\<rparr>)
          else (MustWait, pl1))"

definition wait_or_fail :: "bool \<Rightarrow> SessionPool \<Rightarrow> acquired \<times> SessionPool" where
  "wait_or_fail ctxErr pl =
     (if ctxErr then (CtxErr, pl\<lparr>sp_poolTimeouts := sp_poolTimeouts pl + 1\<rparr>) else (MustWait, pl))"

text \<open>\<^verbatim>\<open>Acquire\<close> up to its end or to \<^verbatim>\<open>cond.Wait\<close>, and the round after a wake-up.\<close>

definition Acquire :: "bool \<Rightarrow> SessionPool \<Rightarrow> acquired \<times> SessionPool" where
  "Acquire ctxErr pl =
     (if sp_closed pl then (ErrManagerClosed, pl)
      else case try_acquire pl of
        (MustWait, pl1) \<Rightarrow> wait_or_fail ctxErr (pl1\<lparr>sp_poolWaits := sp_poolWaits pl1 + 1\<rparr>)
      | r \<Rightarrow> r)"

definition Acquire_woken :: "bool \<Rightarrow> SessionPool \<Rightarrow> acquired \<times> SessionPool" where
  "Acquire_woken ctxErr pl = (case try_acquire pl of (MustWait, pl1) \<Rightarrow> wait_or_fail ctxErr pl1 | r \<Rightarrow> r)"

definition Add_locked :: "nat \<Rightarrow> SessionPool \<Rightarrow> SessionPool" where
  "Add_locked p pl =
     Track p (pl\<lparr>sp_pendingCreates := (if sp_pendingCreates pl > 0 then sp_pendingCreates pl - 1 else sp_pendingCreates pl),
       sp_inUse := map_put (sid pl p) p (sp_inUse pl), sp_totalCreated := sp_totalCreated pl + 1\<rparr>)"

definition CancelReservation :: "SessionPool \<Rightarrow> SessionPool" where
  "CancelReservation pl = pl\<lparr>sp_pendingCreates := (if sp_pendingCreates pl > 0 then sp_pendingCreates pl - 1 else sp_pendingCreates pl)\<rparr>"

definition Release_locked :: "nat \<Rightarrow> SessionPool \<Rightarrow> SessionPool" where
  "Release_locked p pl =
     (let s = sp_heap pl p; pl1 = pl\<lparr>sp_inUse := map_del (si_ID s) (sp_inUse pl)\<rparr>
      in if IsExpired (sp_now pl) s \<or> si_State s = StateClosed \<or> si_State s = StateExpired
         then on_session p closeWithLog (Untrack (si_ID s) pl1)
         else (on_session p (Touch (sp_now pl) (sp_maxIdleMs pl) \<circ> SetState StateIdle) pl1)\<lparr>sp_sessions := sp_sessions pl @ [p]\<rparr>)"

text \<open>The first idle session with this id is removed from the list.\<close>

fun drop_idle :: "SessionPool \<Rightarrow> string \<Rightarrow> nat list \<Rightarrow> nat list" where
  "drop_idle pl i [] = []"
| "drop_idle pl i (p # ps) = (if sid pl p = i then ps else p # drop_idle pl i ps)"

definition Remove :: "nat \<Rightarrow> SessionPool \<Rightarrow> SessionPool" where
  "Remove p pl =
     (let i = sid pl p
      in on_session p closeWithLog (Untrack i (pl\<lparr>sp_inUse := map_del i (sp_inUse pl), sp_sessions := drop_idle pl i (sp_sessions pl)\<rparr>)))"

definition removeSession :: "nat \<Rightarrow> SessionPool \<Rightarrow> SessionPool" where
  "removeSession p pl =
     (let i = sid pl p
      in if map_get (sp_inUse pl) i \<noteq> None then pl
         else on_session p closeWithLog (pl\<lparr>sp_sessions := drop_idle pl i (sp_sessions pl)\<rparr>))"

definition Close_locked :: "SessionPool \<Rightarrow> SessionPool" where
  "Close_locked pl =
     (let known = set (sp_sessions pl) \<union> snd ` set (sp_inUse pl)
      in pl\<lparr>sp_heap := (\<lambda>p. if p \<in> known then closeWithLog (SetState StateClosed (sp_heap pl p)) else sp_heap pl p),
            sp_sessions := [], sp_inUse := []\<rparr>)"

subsection \<open>Evictions\<close>

text \<open>What a check does with one tracked session: forget it, mark it for eviction, or nothing.\<close>

datatype eviction = Forget | Evict EvictionReason | Keep

definition check_session :: "int \<Rightarrow> Evictor \<Rightarrow> SessionInfo \<Rightarrow> eviction" where
  "check_session now ec s =
     (if si_State s = StateExpired \<or> si_State s = StateClosed then Forget
      else if ec_ttlMs ec > 0 \<and> past now (si_ExpiresAt s) then Evict EvictionTTL
      else if ec_maxIdleMs ec > 0 \<and> past now (si_IdleExpiresAt s) \<and> si_State s = StateIdle then Evict EvictionIdle
      else Keep)"

definition checkEvictions :: "SessionPool \<Rightarrow> (nat \<times> EvictionReason) list \<times> SessionPool" where
  "checkEvictions pl =
     (let ec = sp_evictor pl; verdict = (\<lambda>p. check_session (sp_now pl) ec (sp_heap pl p))
      in (List.map_filter (\<lambda>(_, p). case verdict p of Evict r \<Rightarrow> Some (p, r) | _ \<Rightarrow> None) (ec_sessions ec),
          pl\<lparr>sp_evictor := ec\<lparr>ec_sessions := filter (\<lambda>(_, p). verdict p \<noteq> Forget) (ec_sessions ec)\<rparr>\<rparr>))"

text \<open>\<^verbatim>\<open>evictSession\<close> up to its callback; the flag says whether the callback is called.\<close>

definition evictSession :: "nat \<Rightarrow> EvictionReason \<Rightarrow> SessionPool \<Rightarrow> bool \<times> SessionPool" where
  "evictSession p reason pl =
     (let s = sp_heap pl p; st = si_State s
      in if st = StateExpired \<or> st = StateClosed then (False, Untrack (si_ID s) pl)
         else if (case reason of
                    EvictionIdle \<Rightarrow> st \<noteq> StateIdle \<or> \<not> past (sp_now pl) (si_IdleExpiresAt s)
                  | EvictionTTL \<Rightarrow> st = StateActive \<or> \<not> past (sp_now pl) (si_ExpiresAt s)) then (False, pl)
         else
           let pl1 = Untrack (si_ID s) (on_session p (SetState StateExpired) pl); ec = sp_evictor pl1
           in (True, pl1\<lparr>sp_evictor := (case reason of
                 EvictionTTL \<Rightarrow> ec\<lparr>ec_ttlEvictions := ec_ttlEvictions ec + 1\<rparr>
               | EvictionIdle \<Rightarrow> ec\<lparr>ec_idleEvictions := ec_idleEvictions ec + 1\<rparr>)\<rparr>))"

section \<open>The goroutines of pool mode\<close>

text \<open>
  Where a goroutine that uses \<^verbatim>\<open>PoolMode\<close> is: outside, in \<^verbatim>\<open>cond.Wait\<close>, woken and about to take the mutex again, creating a
  session with a reservation, about to add the new session, holding a session, or about to give it ret.
\<close>

datatype borrower = Outside | Waiting | Woken | Creating | Adding nat | Holds nat | Releasing nat

record pool_system =
  ps_pool :: SessionPool
  ps_borrowers :: "borrower multiset"
  ps_toEvict :: "(nat \<times> EvictionReason) list"
  ps_callback :: "nat option"
  ps_closeDone :: bool

definition wake_one :: "borrower multiset \<Rightarrow> borrower multiset" where
  "wake_one M = (if Waiting \<in># M then add_mset Woken (M - {#Waiting#}) else M)"

definition wake_all :: "borrower multiset \<Rightarrow> borrower multiset" where
  "wake_all M = image_mset (\<lambda>b. if b = Waiting then Woken else b) M"

fun after_acquire :: "acquired \<Rightarrow> borrower" where
  "after_acquire ErrManagerClosed = Outside"
| "after_acquire CtxErr = Outside"
| "after_acquire (Borrowed p) = Holds p"
| "after_acquire NeedsCreate = Creating"
| "after_acquire MustWait = Waiting"

text \<open>A new session object with the id of the server or a generated one.\<close>

definition new_session :: "string \<Rightarrow> SessionPool \<Rightarrow> SessionPool" where
  "new_session i pl =
     pl\<lparr>sp_heap := (sp_heap pl)(sp_next pl := NewSessionInfo (sp_now pl) i (sp_ttlMs pl) (sp_maxIdleMs pl)), sp_next := sp_next pl + 1\<rparr>"

inductive pool_step :: "pool_system \<Rightarrow> pool_system \<Rightarrow> bool" where
  tick: "d \<ge> 0 \<Longrightarrow> pool_step s (s\<lparr>ps_pool := (ps_pool s)\<lparr>sp_now := sp_now (ps_pool s) + d\<rparr>\<rparr>)"
| acquire: "ps_borrowers s = add_mset Outside M \<Longrightarrow> Acquire ctxErr (ps_pool s) = (r, pl) \<Longrightarrow>
    pool_step s (s\<lparr>ps_pool := pl, ps_borrowers := add_mset (after_acquire r) M\<rparr>)"
| woken: "ps_borrowers s = add_mset Woken M \<Longrightarrow> Acquire_woken ctxErr (ps_pool s) = (r, pl) \<Longrightarrow>
    pool_step s (s\<lparr>ps_pool := pl, ps_borrowers := add_mset (after_acquire r) M\<rparr>)"
| ctx_done: "pool_step s (s\<lparr>ps_borrowers := wake_all (ps_borrowers s)\<rparr>)"
| create_failed: "ps_borrowers s = add_mset Creating M \<Longrightarrow>
    pool_step s (s\<lparr>ps_pool := CancelReservation (ps_pool s), ps_borrowers := wake_one (add_mset Outside M)\<rparr>)"
| created: "ps_borrowers s = add_mset Creating M \<Longrightarrow> \<forall>q < sp_next (ps_pool s). sid (ps_pool s) q \<noteq> i \<Longrightarrow> p = sp_next (ps_pool s) \<Longrightarrow>
    \<not> sp_closed (ps_pool s) \<Longrightarrow>
    pool_step s (s\<lparr>ps_pool := new_session i (ps_pool s), ps_borrowers := add_mset (Adding p) M\<rparr>)"
| created_late: "ps_borrowers s = add_mset Creating M \<Longrightarrow> p = sp_next (ps_pool s) \<Longrightarrow> sp_closed (ps_pool s) \<Longrightarrow>
    pool_step s (s\<lparr>ps_pool := on_session p closeWithLog (new_session i (ps_pool s)), ps_borrowers := add_mset (Holds p) M\<rparr>)"
| add: "ps_borrowers s = add_mset (Adding p) M \<Longrightarrow>
    pool_step s (s\<lparr>ps_pool := Add_locked p (ps_pool s), ps_borrowers := add_mset (Holds p) M\<rparr>)"
| release: "ps_borrowers s = add_mset (Holds p) M \<Longrightarrow> \<not> sp_closed (ps_pool s) \<Longrightarrow>
    pool_step s (s\<lparr>ps_borrowers := add_mset (Releasing p) M\<rparr>)"
| release_late: "ps_borrowers s = add_mset (Holds p) M \<Longrightarrow> sp_closed (ps_pool s) \<Longrightarrow>
    pool_step s (s\<lparr>ps_pool := on_session p closeWithLog (ps_pool s), ps_borrowers := add_mset Outside M\<rparr>)"
| released: "ps_borrowers s = add_mset (Releasing p) M \<Longrightarrow>
    pool_step s (s\<lparr>ps_pool := Release_locked p (ps_pool s), ps_borrowers := wake_one (add_mset Outside M)\<rparr>)"
| invalidate: "ps_borrowers s = add_mset (Holds p) M \<Longrightarrow>
    pool_step s (s\<lparr>ps_pool := Remove p (ps_pool s), ps_borrowers := wake_one (add_mset Outside M)\<rparr>)"
| check: "\<not> ec_closed (sp_evictor (ps_pool s)) \<Longrightarrow> ps_toEvict s = [] \<Longrightarrow> ps_callback s = None \<Longrightarrow> checkEvictions (ps_pool s) = (q, pl) \<Longrightarrow>
    pool_step s (s\<lparr>ps_pool := pl, ps_toEvict := q\<rparr>)"
| evict: "ps_toEvict s = (p, reason) # q \<Longrightarrow> ps_callback s = None \<Longrightarrow> evictSession p reason (ps_pool s) = (b, pl) \<Longrightarrow>
    pool_step s (s\<lparr>ps_pool := pl, ps_toEvict := q, ps_callback := (if b then Some p else None)\<rparr>)"
| callback: "ps_callback s = Some p \<Longrightarrow>
    pool_step s (s\<lparr>ps_pool := removeSession p (ps_pool s),
      ps_borrowers := (if map_get (sp_inUse (ps_pool s)) (sid (ps_pool s) p) \<noteq> None then ps_borrowers s else wake_one (ps_borrowers s)),
      ps_callback := None\<rparr>)"
| closing: "pool_step s (s\<lparr>ps_pool := (ps_pool s)\<lparr>sp_closed := True, sp_evictor := (sp_evictor (ps_pool s))\<lparr>ec_closed := True\<rparr>\<rparr>\<rparr>)"
| closed: "sp_closed (ps_pool s) \<Longrightarrow> ps_toEvict s = [] \<Longrightarrow> ps_callback s = None \<Longrightarrow> \<not> ps_closeDone s \<Longrightarrow>
    pool_step s (s\<lparr>ps_pool := Close_locked (ps_pool s), ps_borrowers := wake_all (ps_borrowers s), ps_closeDone := True\<rparr>)"

definition pool_start :: "int \<Rightarrow> int \<Rightarrow> int \<Rightarrow> int \<Rightarrow> nat \<Rightarrow> pool_system" where
  "pool_start now maxSize ttlMs maxIdleMs n =
     \<lparr>ps_pool = NewSessionPool now maxSize ttlMs maxIdleMs, ps_borrowers = replicate_mset n Outside, ps_toEvict = [], ps_callback = None,
      ps_closeDone = False\<rparr>"

section \<open>Invariant\<close>

fun held_by :: "borrower \<Rightarrow> nat multiset" where
  "held_by (Holds p) = {#p#}"
| "held_by (Releasing p) = {#p#}"
| "held_by _ = {#}"

fun added_by :: "borrower \<Rightarrow> nat multiset" where
  "added_by (Adding p) = {#p#}"
| "added_by _ = {#}"

fun reserved_by :: "borrower \<Rightarrow> nat" where
  "reserved_by Creating = 1"
| "reserved_by (Adding _) = 1"
| "reserved_by _ = 0"

definition held :: "borrower multiset \<Rightarrow> nat multiset" where
  "held M = \<Sum>\<^sub># (image_mset held_by M)"

definition added :: "borrower multiset \<Rightarrow> nat multiset" where
  "added M = \<Sum>\<^sub># (image_mset added_by M)"

definition reserved :: "borrower multiset \<Rightarrow> nat" where
  "reserved M = \<Sum>\<^sub># (image_mset reserved_by M)"

lemmas counts = held_def added_def reserved_def

text \<open>The pointers that the evictor may act on.\<close>

definition tracked :: "SessionPool \<Rightarrow> nat set" where
  "tracked pl = snd ` set (ec_sessions (sp_evictor pl))"

definition evictor_knows :: "pool_system \<Rightarrow> nat set" where
  "evictor_knows s = tracked (ps_pool s) \<union> fst ` set (ps_toEvict s) \<union> set_option (ps_callback s)"

text \<open>Slots of the pool that are neither in use nor reserved.\<close>

definition free_slots :: "SessionPool \<Rightarrow> int" where
  "free_slots pl = sp_maxSize pl - int (length (sp_inUse pl)) - int (sp_pendingCreates pl)"

text \<open>Every session has one place: idle, held by one borrower, or about to be added by one; the ids of the sessions differ.\<close>

definition unique :: "'a multiset \<Rightarrow> bool" where
  "unique A \<longleftrightarrow> (\<forall>x. count A x \<le> 1)"

definition places_ok :: "SessionPool \<Rightarrow> borrower multiset \<Rightarrow> bool" where
  "places_ok pl M \<longleftrightarrow> unique (mset (sp_sessions pl) + held M + added M)
     \<and> (\<forall>p \<in># mset (sp_sessions pl) + held M + added M. p < sp_next pl) \<and> inj_on (sid pl) {..<sp_next pl}"

text \<open>The map of the sessions in use has exactly the held ones.\<close>

definition in_use_ok :: "SessionPool \<Rightarrow> borrower multiset \<Rightarrow> bool" where
  "in_use_ok pl M \<longleftrightarrow> keys_distinct (sp_inUse pl) \<and> length (sp_inUse pl) = size (held M)
     \<and> (\<forall>i p. map_get (sp_inUse pl) i = Some p \<longleftrightarrow> p \<in># held M \<and> sid pl p = i)"

definition size_ok :: "SessionPool \<Rightarrow> borrower multiset \<Rightarrow> bool" where
  "size_ok pl M \<longleftrightarrow> sp_pendingCreates pl = reserved M \<and> int (length (sp_sessions pl)) \<le> free_slots pl"

definition connection :: "SessionPool \<Rightarrow> nat \<Rightarrow> bool option" where
  "connection pl p = si_Connection (sp_heap pl p)"

definition open_ok :: "SessionPool \<Rightarrow> borrower multiset \<Rightarrow> bool" where
  "open_ok pl M \<longleftrightarrow> (\<forall>p \<in># mset (sp_sessions pl) + held M + added M. connection pl p = Some True)"

definition waiters_ok :: "SessionPool \<Rightarrow> borrower multiset \<Rightarrow> bool" where
  "waiters_ok pl M \<longleftrightarrow> (Waiting \<in># M \<longrightarrow> free_slots pl \<le> int (count M Woken))"

definition evictor_ok :: "pool_system \<Rightarrow> bool" where
  "evictor_ok s \<longleftrightarrow> (\<forall>p \<in> evictor_knows s. p < sp_next (ps_pool s) \<and> p \<notin># added (ps_borrowers s))"

definition pool_ok :: "SessionPool \<Rightarrow> borrower multiset \<Rightarrow> bool" where
  "pool_ok pl M \<longleftrightarrow> places_ok pl M \<and> in_use_ok pl M \<and> size_ok pl M \<and> open_ok pl M"

definition pool_inv :: "pool_system \<Rightarrow> bool" where
  "pool_inv s \<longleftrightarrow> (\<not> sp_closed (ps_pool s) \<longrightarrow> pool_ok (ps_pool s) (ps_borrowers s)
     \<and> waiters_ok (ps_pool s) (ps_borrowers s) \<and> evictor_ok s)"

subsection \<open>Simplification\<close>

lemma id_keepers [simp]: "si_ID (closeWithLog s) = si_ID s" "si_ID (SetState st s) = si_ID s" "si_ID (Touch now m s) = si_ID s"
  by (simp_all add: closeWithLog_def SetState_def Touch_def)

lemma connection_keepers [simp]: "si_Connection (SetState st s) = si_Connection s" "si_Connection (Touch now m s) = si_Connection s"
  by (simp_all add: SetState_def Touch_def)

lemma sid_frame [simp]:
  "(\<And>s. si_ID (f s) = si_ID s) \<Longrightarrow> sid (on_session p f pl) = sid pl" "sid (Untrack i pl) = sid pl" "sid (Track p pl) = sid pl"
  "sid (pl\<lparr>sp_sessions := x\<rparr>) = sid pl" "sid (pl\<lparr>sp_inUse := y\<rparr>) = sid pl" "sid (pl\<lparr>sp_pendingCreates := z\<rparr>) = sid pl"
  "sid (pl\<lparr>sp_totalCreated := z\<rparr>) = sid pl" "sid (pl\<lparr>sp_poolWaits := z\<rparr>) = sid pl" "sid (pl\<lparr>sp_poolTimeouts := z\<rparr>) = sid pl"
  "sid (pl\<lparr>sp_evictor := ec\<rparr>) = sid pl" "sid (pl\<lparr>sp_closed := b\<rparr>) = sid pl" "sid (pl\<lparr>sp_now := t\<rparr>) = sid pl"
  by (auto simp: sid_def [abs_def] on_session_def Untrack_def Track_def)

lemma connection_frame [simp]:
  "(\<And>s. si_Connection (f s) = si_Connection s) \<Longrightarrow> connection (on_session p f pl) = connection pl"
  "connection (on_session p closeWithLog pl) q = (if q = p then map_option (\<lambda>_. False) (connection pl p) else connection pl q)"
  "connection (Untrack i pl) = connection pl" "connection (Track p pl) = connection pl"
  "connection (pl\<lparr>sp_sessions := x\<rparr>) = connection pl" "connection (pl\<lparr>sp_inUse := y\<rparr>) = connection pl"
  "connection (pl\<lparr>sp_pendingCreates := z\<rparr>) = connection pl" "connection (pl\<lparr>sp_totalCreated := z\<rparr>) = connection pl"
  "connection (pl\<lparr>sp_poolWaits := z\<rparr>) = connection pl" "connection (pl\<lparr>sp_poolTimeouts := z\<rparr>) = connection pl"
  "connection (pl\<lparr>sp_evictor := ec\<rparr>) = connection pl" "connection (pl\<lparr>sp_closed := b\<rparr>) = connection pl"
  "connection (pl\<lparr>sp_now := t\<rparr>) = connection pl"
  by (auto simp: connection_def [abs_def] on_session_def Untrack_def Track_def closeWithLog_def)

lemma on_session_frame [simp]:
  "sp_sessions (on_session p f pl) = sp_sessions pl" "sp_inUse (on_session p f pl) = sp_inUse pl"
  "sp_pendingCreates (on_session p f pl) = sp_pendingCreates pl" "sp_maxSize (on_session p f pl) = sp_maxSize pl"
  "sp_next (on_session p f pl) = sp_next pl" "sp_closed (on_session p f pl) = sp_closed pl"
  "sp_evictor (on_session p f pl) = sp_evictor pl" "sp_now (on_session p f pl) = sp_now pl"
  "sp_maxIdleMs (on_session p f pl) = sp_maxIdleMs pl" "sp_ttlMs (on_session p f pl) = sp_ttlMs pl"
  by (simp_all add: on_session_def)

lemma untrack_frame [simp]:
  "sp_sessions (Untrack i pl) = sp_sessions pl" "sp_inUse (Untrack i pl) = sp_inUse pl"
  "sp_pendingCreates (Untrack i pl) = sp_pendingCreates pl" "sp_maxSize (Untrack i pl) = sp_maxSize pl"
  "sp_next (Untrack i pl) = sp_next pl" "sp_closed (Untrack i pl) = sp_closed pl" "sp_heap (Untrack i pl) = sp_heap pl"
  "sp_now (Untrack i pl) = sp_now pl" "sp_maxIdleMs (Untrack i pl) = sp_maxIdleMs pl"
  by (simp_all add: Untrack_def)

lemma track_frame [simp]:
  "sp_sessions (Track p pl) = sp_sessions pl" "sp_inUse (Track p pl) = sp_inUse pl"
  "sp_pendingCreates (Track p pl) = sp_pendingCreates pl" "sp_maxSize (Track p pl) = sp_maxSize pl"
  "sp_next (Track p pl) = sp_next pl" "sp_closed (Track p pl) = sp_closed pl" "sp_heap (Track p pl) = sp_heap pl"
  by (simp_all add: Track_def)

lemma count_add [simp]:
  "held (add_mset b M) = held_by b + held M" "added (add_mset b M) = added_by b + added M"
  "reserved (add_mset b M) = reserved_by b + reserved M"
  by (simp_all add: counts)

lemma wake_same [simp]:
  "held (wake_one M) = held M" "added (wake_one M) = added M" "reserved (wake_one M) = reserved M"
  "held (wake_all M) = held M" "added (wake_all M) = added M" "reserved (wake_all M) = reserved M"
proof -
  have one: "held (wake_one M) = held M \<and> added (wake_one M) = added M \<and> reserved (wake_one M) = reserved M"
  proof (cases "Waiting \<in># M")
    case True
    then obtain M0 where "M = add_mset Waiting M0" by (auto dest: multi_member_split)
    then show ?thesis by (simp add: wake_one_def)
  qed (simp add: wake_one_def)
  have all: "held (wake_all M) = held M \<and> added (wake_all M) = added M \<and> reserved (wake_all M) = reserved M"
    by (induction M) (simp_all add: wake_all_def counts)
  from one all show "held (wake_one M) = held M" "added (wake_one M) = added M" "reserved (wake_one M) = reserved M"
    "held (wake_all M) = held M" "added (wake_all M) = added M" "reserved (wake_all M) = reserved M" by blast+
qed

lemma waiting_after_wake: "Waiting \<notin># wake_all M"
  by (auto simp: wake_all_def)

lemma wake_one_counts: "Waiting \<in># wake_one M \<Longrightarrow> Waiting \<in># M \<and> count (wake_one M) Woken = Suc (count M Woken)"
  by (auto simp: wake_one_def dest: in_diffD split: if_splits)

lemma pool_ok_cong:
  assumes "pool_ok pl M" and "sp_sessions pl' = sp_sessions pl" "sp_inUse pl' = sp_inUse pl" "sp_pendingCreates pl' = sp_pendingCreates pl"
    "sp_maxSize pl' = sp_maxSize pl" "sp_next pl' = sp_next pl" "sid pl' = sid pl"
    "\<And>p. p \<in># mset (sp_sessions pl) + held M + added M \<Longrightarrow> connection pl' p = connection pl p"
    "held M' = held M" "added M' = added M" "reserved M' = reserved M"
  shows "pool_ok pl' M'"
  using assms by (auto simp: pool_ok_def places_ok_def in_use_ok_def size_ok_def open_ok_def free_slots_def)

subsection \<open>The operations keep the invariant\<close>

lemma unique_empty [simp]: "unique {#}"
  by (simp add: unique_def)

lemma unique_add [simp]: "unique (add_mset x A) \<longleftrightarrow> unique A \<and> x \<notin># A"
proof
  assume u: "unique (add_mset x A)"
  have "count A y \<le> 1" for y using u [unfolded unique_def, rule_format, of y] by (auto split: if_splits)
  moreover have "count A x = 0" using u [unfolded unique_def, rule_format, of x] by simp
  ultimately show "unique A \<and> x \<notin># A" by (simp add: unique_def not_in_iff)
next
  assume "unique A \<and> x \<notin># A"
  then show "unique (add_mset x A)" by (auto simp: unique_def not_in_iff)
qed

lemma unique_union: "unique (A + B) \<longleftrightarrow> unique A \<and> unique B \<and> set_mset A \<inter> set_mset B = {}"
  by (induction A) auto

lemma unique_mset [simp]: "unique (mset xs) \<longleftrightarrow> distinct xs"
  by (induction xs) auto

lemmas parts = pool_ok_def places_ok_def in_use_ok_def size_ok_def open_ok_def free_slots_def unique_union

lemma drop_first_ok:
  assumes "pool_ok (pl\<lparr>sp_sessions := p # ps\<rparr>) M"
  shows "pool_ok ((on_session p closeWithLog (Untrack i pl))\<lparr>sp_sessions := ps\<rparr>) M"
  using assms by (auto simp: parts)

lemma length_put: "map_get m k = None \<Longrightarrow> length (map_put k v m) = Suc (length m)"
  by (induction m) (auto split: if_splits)

lemma length_del: "keys_distinct m \<Longrightarrow> map_get m k = Some v \<Longrightarrow> Suc (length (map_del k m)) = length m"
proof (induction m)
  case (Cons x m)
  have absent: "map_get m k = None \<Longrightarrow> map_del k m = m" for m :: "('a, 'b) gomap"
    by (induction m) (auto split: if_splits)
  from Cons show ?case by (cases x) (auto simp: absent map_of_eq_None_iff keys_distinct_def split: if_splits)
qed simp

lemma id_unique: "pool_ok pl M \<Longrightarrow> p < sp_next pl \<Longrightarrow> q < sp_next pl \<Longrightarrow> sid pl p = sid pl q \<Longrightarrow> p = q"
  by (auto simp: parts inj_on_def)

lemma not_in_use:
  assumes "pool_ok pl M" and "p < sp_next pl" and "p \<notin># held M"
  shows "map_get (sp_inUse pl) (sid pl p) = None"
proof (rule ccontr)
  assume "map_get (sp_inUse pl) (sid pl p) \<noteq> None"
  then obtain q where "map_get (sp_inUse pl) (sid pl p) = Some q" by blast
  with assms(1) have "q \<in># held M" "sid pl q = sid pl p" "q < sp_next pl" by (auto simp: parts)
  with id_unique [OF assms(1) assms(2), of q] assms(3) show False by simp
qed

lemma in_use:
  assumes "pool_ok pl M" and "p \<in># held M"
  shows "map_get (sp_inUse pl) (sid pl p) = Some p" and "Suc (length (map_del (sid pl p) (sp_inUse pl))) = length (sp_inUse pl)"
proof -
  show get: "map_get (sp_inUse pl) (sid pl p) = Some p" using assms by (simp add: parts)
  show "Suc (length (map_del (sid pl p) (sp_inUse pl))) = length (sp_inUse pl)"
    by (rule length_del [OF _ get]) (use assms in \<open>simp add: parts\<close>)
qed

lemma take_first_ok:
  assumes "pool_ok (pl\<lparr>sp_sessions := p # ps\<rparr>) M" and "\<And>s. si_ID (f s) = si_ID s" and "\<And>s. si_Connection (f s) = si_Connection s"
  shows "pool_ok ((on_session p f (pl\<lparr>sp_sessions := ps\<rparr>))\<lparr>sp_inUse := map_put (sid pl p) p (sp_inUse pl)\<rparr>) (add_mset (Holds p) M)"
    and "length (map_put (sid pl p) p (sp_inUse pl)) = Suc (length (sp_inUse pl))"
proof -
  let ?pl = "pl\<lparr>sp_sessions := p # ps\<rparr>"
  have p: "p < sp_next ?pl" "p \<notin># held M" using assms(1) by (auto simp: parts)
  from not_in_use [OF assms(1) p] have none: "map_get (sp_inUse pl) (sid pl p) = None" by simp
  then show len: "length (map_put (sid pl p) p (sp_inUse pl)) = Suc (length (sp_inUse pl))" by (rule length_put)
  have "q \<in># held M \<Longrightarrow> sid pl q \<noteq> sid pl p" for q using in_use(1) [OF assms(1), of q] none by auto
  with assms none len show "pool_ok ((on_session p f (pl\<lparr>sp_sessions := ps\<rparr>))\<lparr>sp_inUse := map_put (sid pl p) p (sp_inUse pl)\<rparr>) (add_mset (Holds p) M)"
    by (auto simp: parts)
qed

lemma give_back_ok:
  assumes "pool_ok pl (add_mset b M)" and "held_by b = {#p#}" "added_by b = {#}" "reserved_by b = 0"
  shows "pool_ok (pl\<lparr>sp_inUse := map_del (sid pl p) (sp_inUse pl)\<rparr>) M"
    and "free_slots (pl\<lparr>sp_inUse := map_del (sid pl p) (sp_inUse pl)\<rparr>) = free_slots pl + 1"
    and "p < sp_next pl \<and> p \<notin> set (sp_sessions pl) \<and> p \<notin># held M \<and> p \<notin># added M \<and> connection pl p = Some True"
    and "int (length (sp_sessions pl)) + 1 \<le> free_slots pl + 1"
proof -
  have p: "p \<in># held (add_mset b M)" using assms(2) by simp
  note len = in_use(2) [OF assms(1) p]
  show facts: "p < sp_next pl \<and> p \<notin> set (sp_sessions pl) \<and> p \<notin># held M \<and> p \<notin># added M \<and> connection pl p = Some True"
    using assms by (auto simp: parts)
  have ne: "q \<in># held M \<Longrightarrow> sid pl q \<noteq> sid pl p" for q
    using id_unique [OF assms(1), of q p] facts assms by (auto simp: parts)
  show "pool_ok (pl\<lparr>sp_inUse := map_del (sid pl p) (sp_inUse pl)\<rparr>) M"
    using assms len ne by (auto simp: parts keys_distinct_del)
  show "free_slots (pl\<lparr>sp_inUse := map_del (sid pl p) (sp_inUse pl)\<rparr>) = free_slots pl + 1"
    using len by (simp add: free_slots_def)
  show "int (length (sp_sessions pl)) + 1 \<le> free_slots pl + 1" using assms(1) by (simp add: pool_ok_def size_ok_def)
qed

lemma release_ok:
  assumes "pool_ok pl (add_mset (Releasing p) M)"
  shows "pool_ok (Release_locked p pl) M" "free_slots (Release_locked p pl) = free_slots pl + 1"
proof -
  let ?pl = "pl\<lparr>sp_inUse := map_del (sid pl p) (sp_inUse pl)\<rparr>"
  note ret = give_back_ok [OF assms, of p, simplified]
  have drop: "pool_ok (on_session p closeWithLog (Untrack (sid pl p) ?pl)) M"
    by (rule pool_ok_cong [OF ret(1)]) (use ret(3) in auto)
  have push: "pool_ok ((on_session p f ?pl)\<lparr>sp_sessions := sp_sessions pl @ [p]\<rparr>) M"
    if "\<And>s. si_ID (f s) = si_ID s" "\<And>s. si_Connection (f s) = si_Connection s" for f
    using ret that by (auto simp: parts)
  show "pool_ok (Release_locked p pl) M" using drop push by (simp add: Release_locked_def Let_def sid_def)
  show "free_slots (Release_locked p pl) = free_slots pl + 1"
    using ret(2) by (simp add: Release_locked_def Let_def sid_def free_slots_def)
qed

lemma drop_idle_remove1:
  assumes "\<And>q. q \<in> set ps \<Longrightarrow> sid pl q = sid pl p \<Longrightarrow> q = p"
  shows "drop_idle pl (sid pl p) ps = remove1 p ps"
  using assms by (induction ps) auto

lemma idle_remove1:
  assumes "pool_ok pl M" and "p < sp_next pl"
  shows "drop_idle pl (sid pl p) (sp_sessions pl) = remove1 p (sp_sessions pl)"
  by (rule drop_idle_remove1) (use assms id_unique [OF assms(1), of _ p] in \<open>auto simp: parts\<close>)

lemma remove_ok:
  assumes "pool_ok pl (add_mset (Holds p) M)"
  shows "pool_ok (Remove p pl) M" "free_slots (Remove p pl) = free_slots pl + 1"
proof -
  let ?pl = "pl\<lparr>sp_inUse := map_del (sid pl p) (sp_inUse pl)\<rparr>"
  note ret = give_back_ok [OF assms, of p, simplified]
  have same: "drop_idle pl (sid pl p) (sp_sessions pl) = sp_sessions pl"
    using idle_remove1 [OF assms] ret(3) by (simp add: remove1_idem)
  have "Remove p pl = on_session p closeWithLog (Untrack (sid pl p) ?pl)" by (simp add: Remove_def Let_def same)
  moreover have "pool_ok (on_session p closeWithLog (Untrack (sid pl p) ?pl)) M"
    by (rule pool_ok_cong [OF ret(1)]) (use ret(3) in auto)
  ultimately show "pool_ok (Remove p pl) M" "free_slots (Remove p pl) = free_slots pl + 1"
    using ret(2) by (simp_all add: free_slots_def)
qed

lemma remove_session_ok:
  assumes "pool_ok pl M" and "p < sp_next pl" and "p \<notin># added M"
  shows "pool_ok (removeSession p pl) M" "free_slots (removeSession p pl) = free_slots pl"
proof -
  define ys where "ys = remove1 p (sp_sessions pl)"
  have ys: "distinct ys" "set ys = set (sp_sessions pl) - {p}" "length ys \<le> length (sp_sessions pl)"
    using assms(1) by (auto simp: ys_def parts length_remove1)
  let ?pl = "on_session p closeWithLog (pl\<lparr>sp_sessions := ys\<rparr>)"
  have eq: "removeSession p pl = (if map_get (sp_inUse pl) (sid pl p) \<noteq> None then pl else ?pl)"
    by (simp add: removeSession_def Let_def idle_remove1 [OF assms(1,2)] ys_def)
  have "pool_ok ?pl M" if "map_get (sp_inUse pl) (sid pl p) = None"
  proof -
    have "p \<notin># held M" using in_use(1) [OF assms(1), of p] that by auto
    with assms ys show ?thesis by (auto simp: parts)
  qed
  with eq assms(1) show "pool_ok (removeSession p pl) M" by simp
  show "free_slots (removeSession p pl) = free_slots pl" unfolding eq by (simp add: free_slots_def)
qed

lemma add_ok:
  assumes "pool_ok pl (add_mset (Adding p) M)"
  shows "pool_ok (Add_locked p pl) (add_mset (Holds p) M)" "free_slots (Add_locked p pl) = free_slots pl"
proof -
  have p: "p < sp_next pl" "p \<notin># held (add_mset (Adding p) M)" using assms by (auto simp: parts)
  from not_in_use [OF assms p] have none: "map_get (sp_inUse pl) (sid pl p) = None" .
  note len = length_put [OF none, of p]
  have "q \<in># held M \<Longrightarrow> sid pl q \<noteq> sid pl p" for q using in_use(1) [OF assms, of q] none by auto
  then show "pool_ok (Add_locked p pl) (add_mset (Holds p) M)" using assms none len by (auto simp: parts Add_locked_def)
  show "free_slots (Add_locked p pl) = free_slots pl" using assms len by (simp add: free_slots_def Add_locked_def parts)
qed

lemma cancel_ok:
  assumes "pool_ok pl (add_mset Creating M)"
  shows "pool_ok (CancelReservation pl) M" "free_slots (CancelReservation pl) = free_slots pl + 1"
  using assms by (auto simp: parts CancelReservation_def)

lemma new_session_ok:
  assumes "pool_ok pl (add_mset Creating M)" and "\<forall>q < sp_next pl. sid pl q \<noteq> i"
  shows "pool_ok (new_session i pl) (add_mset (Adding (sp_next pl)) M)" "free_slots (new_session i pl) = free_slots pl"
proof -
  let ?pl = "new_session i pl"
  have ids: "sid ?pl q = (if q = sp_next pl then i else sid pl q)" for q
    by (simp add: new_session_def sid_def NewSessionInfo_def)
  have conns: "connection ?pl q = (if q = sp_next pl then Some True else connection pl q)" for q
    by (simp add: new_session_def connection_def NewSessionInfo_def)
  have fields: "sp_sessions ?pl = sp_sessions pl" "sp_inUse ?pl = sp_inUse pl" "sp_pendingCreates ?pl = sp_pendingCreates pl"
    "sp_maxSize ?pl = sp_maxSize pl" "sp_next ?pl = Suc (sp_next pl)" by (simp_all add: new_session_def)
  have old: "q \<in># mset (sp_sessions pl) + held M + added M \<Longrightarrow> q \<noteq> sp_next pl" for q using assms(1) by (auto simp: parts)
  have inj: "inj_on (sid ?pl) {..<Suc (sp_next pl)}"
    using assms by (auto simp: parts inj_on_def ids lessThan_Suc)
  have "places_ok ?pl (add_mset (Adding (sp_next pl)) M)"
    using assms(1) old inj by (auto simp: parts fields less_Suc_eq)
  moreover have "in_use_ok ?pl (add_mset (Adding (sp_next pl)) M)"
    using assms(1) old by (auto simp: parts fields ids)
  moreover have "size_ok ?pl (add_mset (Adding (sp_next pl)) M)" using assms(1) by (simp add: parts fields)
  moreover have "open_ok ?pl (add_mset (Adding (sp_next pl)) M)" using assms(1) by (auto simp: parts fields conns)
  ultimately show "pool_ok ?pl (add_mset (Adding (sp_next pl)) M)" by (simp add: pool_ok_def)
  show "free_slots ?pl = free_slots pl" by (simp add: free_slots_def fields)
qed

text \<open>What an operation leaves alone: the closed flag, the allocated sessions, and it lets the evictor know no more sessions.\<close>

definition frame :: "SessionPool \<Rightarrow> SessionPool \<Rightarrow> bool" where
  "frame pl pl' \<longleftrightarrow> sp_closed pl' = sp_closed pl \<and> sp_next pl' = sp_next pl
     \<and> tracked pl' \<subseteq> tracked pl"

lemma frame_refl [simp]: "frame pl pl"
  by (simp add: frame_def)

lemma frame_trans: "frame a b \<Longrightarrow> frame b c \<Longrightarrow> frame a c"
  by (auto simp: frame_def)

lemma del_subset: "set (map_del k m) \<subseteq> set m"
  by (induction m) (auto split: if_splits)

lemma untrack_knows: "tracked (Untrack i pl) \<subseteq> tracked pl"
  using del_subset by (fastforce simp: Untrack_def tracked_def)

lemma tracked_frame [simp]: "tracked (on_session p f pl) = tracked pl" "tracked (pl\<lparr>sp_sessions := x\<rparr>) = tracked pl"
  "tracked (pl\<lparr>sp_inUse := y\<rparr>) = tracked pl" "tracked (pl\<lparr>sp_pendingCreates := z\<rparr>) = tracked pl"
  "tracked (pl\<lparr>sp_poolWaits := z\<rparr>) = tracked pl" "tracked (pl\<lparr>sp_poolTimeouts := z\<rparr>) = tracked pl"
  "tracked (pl\<lparr>sp_now := t\<rparr>) = tracked pl"
  "tracked (pl\<lparr>sp_evictor := (sp_evictor pl)\<lparr>ec_ttlEvictions := z\<rparr>\<rparr>) = tracked pl"
  "tracked (pl\<lparr>sp_evictor := (sp_evictor pl)\<lparr>ec_idleEvictions := z\<rparr>\<rparr>) = tracked pl"
  by (simp_all add: tracked_def)

lemma frame_untrack [simp]: "frame pl (on_session p f (Untrack i pl))" "frame pl (Untrack i pl)"
  using untrack_knows [of i pl] by (simp_all add: frame_def)

lemma free_same [simp]: "free_slots (on_session p f (Untrack i pl)) = free_slots pl" "free_slots (pl\<lparr>sp_sessions := xs\<rparr>) = free_slots pl"
  by (simp_all add: free_slots_def)

lemma take_idle_ok:
  "take_idle ps pl = (r, pl1) \<Longrightarrow> pool_ok (pl\<lparr>sp_sessions := ps\<rparr>) M \<Longrightarrow> frame pl pl1 \<and>
     (case r of None \<Rightarrow> pool_ok pl1 M \<and> sp_sessions pl1 = [] \<and> free_slots pl1 = free_slots pl
      | Some p \<Rightarrow> pool_ok pl1 (add_mset (Holds p) M) \<and> free_slots pl1 = free_slots pl - 1)"
proof (induction ps arbitrary: pl)
  case Nil
  then show ?case by (auto simp: frame_def)
next
  case (Cons p ps)
  let ?drop = "on_session p closeWithLog (Untrack (sid pl p) pl)"
  let ?f = "Touch (sp_now pl) (sp_maxIdleMs pl) \<circ> SetState StateActive"
  show ?case
  proof (cases "IsExpired (sp_now pl) (sp_heap pl p) \<or> si_State (sp_heap pl p) = StateClosed")
    case True
    then have "take_idle ps ?drop = (r, pl1)" using Cons.prems(1) by simp
    from Cons.IH [OF this drop_first_ok [OF Cons.prems(2)]] show ?thesis
      using frame_trans [of pl ?drop pl1] by (auto split: option.splits)
  next
    case False
    then have r: "r = Some p" and pl1: "pl1 = (on_session p ?f (pl\<lparr>sp_sessions := ps\<rparr>))\<lparr>sp_inUse := map_put (sid pl p) p (sp_inUse pl)\<rparr>"
      using Cons.prems(1) by (auto simp: Let_def)
    show ?thesis using take_first_ok [OF Cons.prems(2), of ?f] unfolding r pl1 by (simp add: frame_def free_slots_def)
  qed
qed

lemma try_acquire_ok:
  assumes "try_acquire pl = (r, pl1)" and "pool_ok pl M"
  shows "frame pl pl1 \<and> pool_ok pl1 (add_mset (after_acquire r) M)
    \<and> (r = MustWait \<and> free_slots pl1 \<le> 0 \<or> (\<exists>p. r = Borrowed p) \<and> free_slots pl1 = free_slots pl - 1
       \<or> r = NeedsCreate \<and> free_slots pl1 = free_slots pl - 1)"
proof -
  obtain t pl0 where t: "take_idle (sp_sessions pl) pl = (t, pl0)" by fastforce
  have "pool_ok (pl\<lparr>sp_sessions := sp_sessions pl\<rparr>) M" using assms(2) by simp
  note ok = take_idle_ok [OF t this]
  show ?thesis
  proof (cases t)
    case (Some p)
    then show ?thesis using ok assms(1) by (auto simp: try_acquire_def t)
  next
    case None
    have "pool_ok (pl0\<lparr>sp_pendingCreates := Suc (sp_pendingCreates pl0)\<rparr>) (add_mset Creating M)" if "free_slots pl0 > 0"
      using ok None that by (auto simp: parts)
    moreover have "pool_ok pl0 (add_mset Waiting M)" by (rule pool_ok_cong [of pl0 M]) (use ok None in auto)
    ultimately show ?thesis using ok None assms(1)
      by (auto simp: try_acquire_def t frame_def free_slots_def split: if_splits)
  qed
qed

lemma wait_or_fail_ok:
  assumes "wait_or_fail ctxErr pl = (r, pl1)" and "pool_ok pl (add_mset Waiting M)"
  shows "frame pl pl1 \<and> pool_ok pl1 (add_mset (after_acquire r) M) \<and> free_slots pl1 = free_slots pl \<and> (r = MustWait \<or> r = CtxErr)"
proof -
  have "pool_ok pl1 (add_mset (after_acquire r) M)"
    by (rule pool_ok_cong [OF assms(2)]) (use assms(1) in \<open>auto simp: wait_or_fail_def split: if_splits\<close>)
  then show ?thesis using assms(1) by (auto simp: wait_or_fail_def frame_def free_slots_def split: if_splits)
qed

lemma waits_ok_cong: "pool_ok pl M \<Longrightarrow> pool_ok (pl\<lparr>sp_poolWaits := n\<rparr>) M"
  by (rule pool_ok_cong) auto

text \<open>An acquisition either takes a slot or there is none.\<close>

lemma acquire_ok:
  assumes "Acquire_woken ctxErr pl = (r, pl1) \<or> Acquire ctxErr pl = (r, pl1) \<and> \<not> sp_closed pl" and "pool_ok pl M"
  shows "frame pl pl1 \<and> pool_ok pl1 (add_mset (after_acquire r) M)
    \<and> (free_slots pl1 \<le> 0 \<or> free_slots pl1 = free_slots pl - 1 \<and> after_acquire r \<noteq> Waiting)"
proof -
  obtain t pl0 where t: "try_acquire pl = (t, pl0)" by fastforce
  note ok = try_acquire_ok [OF t assms(2)]
  show ?thesis
  proof (cases "t = MustWait")
    case True
    have "wait_or_fail ctxErr (pl0\<lparr>sp_poolWaits := sp_poolWaits pl0\<rparr>) = (r, pl1)
      \<or> wait_or_fail ctxErr (pl0\<lparr>sp_poolWaits := sp_poolWaits pl0 + 1\<rparr>) = (r, pl1)"
      using True assms(1) by (auto simp: Acquire_def Acquire_woken_def t)
    then obtain n where w: "wait_or_fail ctxErr (pl0\<lparr>sp_poolWaits := n\<rparr>) = (r, pl1)" by blast
    have "pool_ok (pl0\<lparr>sp_poolWaits := n\<rparr>) (add_mset Waiting M)" using ok True by (auto intro: waits_ok_cong)
    from wait_or_fail_ok [OF w this] ok True show ?thesis
      using frame_trans [of pl "pl0\<lparr>sp_poolWaits := n\<rparr>" pl1] by (auto simp: frame_def free_slots_def)
  next
    case False
    then have "(r, pl1) = (t, pl0)" using assms(1) by (cases t) (auto simp: Acquire_def Acquire_woken_def t)
    with ok False show ?thesis by auto
  qed
qed

lemma waiters_acquire:
  assumes "waiters_ok pl (add_mset b M)" and "b = Outside \<or> b = Woken"
    and "free_slots pl' \<le> 0 \<or> free_slots pl' = free_slots pl - 1 \<and> b' \<noteq> Waiting"
  shows "waiters_ok pl' (add_mset b' M)"
  using assms by (auto simp: waiters_ok_def split: if_splits)

lemma waiters_signal:
  assumes "waiters_ok pl (add_mset b M)" and "b \<noteq> Waiting" "b \<noteq> Woken" and "free_slots pl' \<le> free_slots pl + 1"
  shows "waiters_ok pl' (wake_one (add_mset Outside M))"
  unfolding waiters_ok_def
proof
  assume "Waiting \<in># wake_one (add_mset Outside M)"
  from wake_one_counts [OF this] assms show "free_slots pl' \<le> int (count (wake_one (add_mset Outside M)) Woken)"
    by (auto simp: waiters_ok_def split: if_splits)
qed

lemma waiters_same:
  assumes "waiters_ok pl (add_mset b M)" and "b \<noteq> Waiting" "b \<noteq> Woken" "b' \<noteq> Waiting" "b' \<noteq> Woken" and "free_slots pl' = free_slots pl"
  shows "waiters_ok pl' (add_mset b' M)"
  using assms by (auto simp: waiters_ok_def split: if_splits)

lemma waiters_more:
  assumes "waiters_ok pl M" and "free_slots pl' = free_slots pl"
  shows "waiters_ok pl' (wake_one M)"
  using assms wake_one_counts [of M] by (auto simp: waiters_ok_def)

text \<open>Who is in the pool after a step, given who was.\<close>

lemma inv_step:
  assumes "pool_inv s" and "\<not> sp_closed (ps_pool s)"
    and "pool_ok pl' M'" and "waiters_ok pl' M'" and "frame (ps_pool s) pl'" and "set_mset (added M') \<subseteq> set_mset (added (ps_borrowers s))"
    and "fst ` set q \<union> set_option cb \<subseteq> evictor_knows s"
  shows "pool_inv (s\<lparr>ps_pool := pl', ps_borrowers := M', ps_toEvict := q, ps_callback := cb\<rparr>)"
proof -
  let ?s = "s\<lparr>ps_pool := pl', ps_borrowers := M', ps_toEvict := q, ps_callback := cb\<rparr>"
  have "tracked pl' \<subseteq> evictor_knows s" using assms(5) by (auto simp: frame_def evictor_knows_def)
  then have "evictor_knows ?s \<subseteq> evictor_knows s" using assms(7) by (simp add: evictor_knows_def [of ?s])
  moreover have "evictor_ok s" using assms(1,2) by (simp add: pool_inv_def)
  ultimately have "evictor_ok ?s" using assms(5,6) by (auto simp: evictor_ok_def frame_def)
  with assms(3,4) show ?thesis by (simp add: pool_inv_def)
qed

lemma knows_own: "fst ` set (ps_toEvict s) \<union> set_option (ps_callback s) \<subseteq> evictor_knows s"
  by (auto simp: evictor_knows_def)

lemma evict_frame:
  assumes "evictSession p reason pl = (b, pl1)" and "pool_ok pl M"
  shows "frame pl pl1 \<and> pool_ok pl1 M \<and> free_slots pl1 = free_slots pl"
proof -
  have "frame pl pl1 \<and> free_slots pl1 = free_slots pl"
    using assms(1) untrack_knows [of "si_ID (sp_heap pl p)" "on_session p (SetState StateExpired) pl"] untrack_knows [of "si_ID (sp_heap pl p)" pl]
    by (auto simp: evictSession_def Let_def frame_def free_slots_def split: if_splits EvictionReason.splits)
  moreover have "pool_ok pl1 M"
    by (rule pool_ok_cong [OF assms(2)])
      (use assms(1) in \<open>auto simp: evictSession_def Let_def split: if_splits EvictionReason.splits\<close>)
  ultimately show ?thesis by blast
qed

lemma mem_map_filter: "y \<in> set (List.map_filter f xs) \<longleftrightarrow> (\<exists>x \<in> set xs. f x = Some y)"
  by (induction xs) (auto simp: List.map_filter_simps split: option.splits)

lemma check_frame:
  assumes "checkEvictions pl = (q, pl1)" and "pool_ok pl M"
  shows "frame pl pl1 \<and> pool_ok pl1 M \<and> free_slots pl1 = free_slots pl \<and> fst ` set q \<subseteq> tracked pl"
proof -
  have "pool_ok pl1 M"
    by (rule pool_ok_cong [OF assms(2)]) (use assms(1) in \<open>auto simp: checkEvictions_def Let_def\<close>)
  moreover have "fst ` set q \<subseteq> tracked pl"
    using assms(1) by (auto simp: checkEvictions_def Let_def tracked_def mem_map_filter image_iff split: eviction.splits) force
  moreover have "tracked pl1 \<subseteq> tracked pl" using assms(1) by (auto simp: checkEvictions_def Let_def tracked_def)
  ultimately show ?thesis using assms(1) by (auto simp: checkEvictions_def Let_def frame_def free_slots_def)
qed

lemma frame_release [simp]: "frame pl (Release_locked p pl)" "frame pl (Remove p pl)" "frame pl (removeSession p pl)" "frame pl (CancelReservation pl)"
  using untrack_knows [of "sid pl p" "pl\<lparr>sp_inUse := map_del (sid pl p) (sp_inUse pl)\<rparr>"]
    untrack_knows [of "sid pl p" "pl\<lparr>sp_inUse := map_del (sid pl p) (sp_inUse pl), sp_sessions := drop_idle pl (sid pl p) (sp_sessions pl)\<rparr>"]
  by (auto simp: frame_def Release_locked_def Remove_def removeSession_def CancelReservation_def Let_def sid_def)

lemma borrower_swap:
  "pool_ok pl (add_mset b M) \<Longrightarrow> held_by b' = held_by b \<Longrightarrow> added_by b' = added_by b \<Longrightarrow> reserved_by b' = reserved_by b \<Longrightarrow> pool_ok pl (add_mset b' M)"
  by (rule pool_ok_cong) auto

lemma outside_ok: "pool_ok pl M \<Longrightarrow> pool_ok pl (wake_one (add_mset Outside M))"
  by (rule pool_ok_cong) auto

lemma idle_ok: "pool_ok pl (add_mset b M) \<Longrightarrow> b = Outside \<or> b = Woken \<Longrightarrow> pool_ok pl M"
  by (erule pool_ok_cong) auto

lemma take_idle_closed: "sp_closed (snd (take_idle ps pl)) = sp_closed pl"
  by (induction ps arbitrary: pl) (simp_all add: Let_def)

lemma acquire_closed: "Acquire_woken ctxErr pl = (r, pl1) \<Longrightarrow> sp_closed pl1 = sp_closed pl" "Acquire ctxErr pl = (r, pl1) \<Longrightarrow> sp_closed pl1 = sp_closed pl"
  using take_idle_closed [of "sp_sessions pl" pl]
  by (auto simp: Acquire_woken_def Acquire_def try_acquire_def wait_or_fail_def split: prod.splits option.splits if_splits acquired.splits)

lemma other_closed [simp]: "sp_closed (CancelReservation pl) = sp_closed pl" "sp_closed (new_session i pl) = sp_closed pl"
  "sp_closed (Add_locked p pl) = sp_closed pl" "sp_closed (Release_locked p pl) = sp_closed pl" "sp_closed (Remove p pl) = sp_closed pl"
  "sp_closed (removeSession p pl) = sp_closed pl" "sp_closed (Close_locked pl) = sp_closed pl"
  by (simp_all add: CancelReservation_def new_session_def Add_locked_def Release_locked_def Remove_def removeSession_def Close_locked_def Let_def)

lemma evictor_closed: "checkEvictions pl = (q, pl1) \<Longrightarrow> sp_closed pl1 = sp_closed pl"
  "evictSession p reason pl = (b, pl1) \<Longrightarrow> sp_closed pl1 = sp_closed pl"
  by (auto simp: checkEvictions_def evictSession_def Let_def split: if_splits)

lemma step_open: "pool_step s t \<Longrightarrow> sp_closed (ps_pool s) \<Longrightarrow> sp_closed (ps_pool t)"
  by (induction rule: pool_step.induct) (auto simp: acquire_closed evictor_closed)

lemma inv_signal:
  assumes "pool_inv s" and "\<not> sp_closed (ps_pool s)" and b: "ps_borrowers s = add_mset b M" "b \<noteq> Waiting" "b \<noteq> Woken"
    and "pool_ok pl M" and "free_slots pl = free_slots (ps_pool s) + 1" and "frame (ps_pool s) pl"
  shows "pool_inv (s\<lparr>ps_pool := pl, ps_borrowers := wake_one (add_mset Outside M)\<rparr>)"
proof -
  have "waiters_ok (ps_pool s) (add_mset b M)" using assms(1,2) b(1) by (auto simp: pool_inv_def)
  from waiters_signal [OF this b(2,3)] have "waiters_ok pl (wake_one (add_mset Outside M))" using assms(7) by simp
  with inv_step [OF assms(1,2) outside_ok [OF assms(6)] _ assms(8) _ knows_own] b(1) show ?thesis by simp
qed

lemma inv_acquire:
  assumes "pool_inv s" and "\<not> sp_closed (ps_pool s)" and b: "ps_borrowers s = add_mset b M" "b = Outside \<or> b = Woken"
    and "Acquire_woken ctxErr (ps_pool s) = (r, pl) \<or> Acquire ctxErr (ps_pool s) = (r, pl)"
  shows "pool_inv (s\<lparr>ps_pool := pl, ps_borrowers := add_mset (after_acquire r) M\<rparr>)"
proof -
  have ok: "pool_ok (ps_pool s) (add_mset b M)" and w: "waiters_ok (ps_pool s) (add_mset b M)"
    using assms(1,2) b(1) by (auto simp: pool_inv_def)
  from acquire_ok [of ctxErr "ps_pool s" r pl M] assms(2,5) idle_ok [OF ok b(2)]
  have a: "frame (ps_pool s) pl" "pool_ok pl (add_mset (after_acquire r) M)"
    "free_slots pl \<le> 0 \<or> free_slots pl = free_slots (ps_pool s) - 1 \<and> after_acquire r \<noteq> Waiting" by blast+
  have "added_by (after_acquire r) = {#}" by (cases r) auto
  with inv_step [OF assms(1,2) a(2) waiters_acquire [OF w b(2) a(3)] a(1) _ knows_own] b show ?thesis by auto
qed

lemma inv_evictor:
  assumes "pool_inv s" and "\<not> sp_closed (ps_pool s)" and "pool_ok pl (ps_borrowers s)" and "free_slots pl = free_slots (ps_pool s)"
    and "frame (ps_pool s) pl" and "fst ` set q \<union> set_option cb \<subseteq> evictor_knows s"
  shows "pool_inv (s\<lparr>ps_pool := pl, ps_toEvict := q, ps_callback := cb\<rparr>)"
    and "pool_inv (s\<lparr>ps_pool := pl, ps_borrowers := wake_one (ps_borrowers s), ps_toEvict := q, ps_callback := cb\<rparr>)"
proof -
  have w: "waiters_ok (ps_pool s) (ps_borrowers s)" using assms(1,2) by (auto simp: pool_inv_def)
  then have "waiters_ok pl (ps_borrowers s)" using assms(4) by (simp add: waiters_ok_def)
  from inv_step [OF assms(1-3) this assms(5) _ assms(6)]
  show "pool_inv (s\<lparr>ps_pool := pl, ps_toEvict := q, ps_callback := cb\<rparr>)" by simp
  have "pool_ok pl (wake_one (ps_borrowers s))" by (rule pool_ok_cong [OF assms(3)]) auto
  from inv_step [OF assms(1,2) this waiters_more [OF w assms(4)] assms(5) _ assms(6)]
  show "pool_inv (s\<lparr>ps_pool := pl, ps_borrowers := wake_one (ps_borrowers s), ps_toEvict := q, ps_callback := cb\<rparr>)" by simp
qed

lemma inv_created:
  assumes "pool_inv s" and "\<not> sp_closed (ps_pool s)" and b: "ps_borrowers s = add_mset Creating M"
    and fresh: "\<forall>q < sp_next (ps_pool s). sid (ps_pool s) q \<noteq> i"
  shows "pool_inv (s\<lparr>ps_pool := new_session i (ps_pool s), ps_borrowers := add_mset (Adding (sp_next (ps_pool s))) M\<rparr>)"
proof -
  have ok: "pool_ok (ps_pool s) (add_mset Creating M)" and w: "waiters_ok (ps_pool s) (add_mset Creating M)" and ev: "evictor_ok s"
    using assms(1,2) b(1) by (auto simp: pool_inv_def)
  note new = new_session_ok [OF ok fresh]
  let ?s = "s\<lparr>ps_pool := new_session i (ps_pool s), ps_borrowers := add_mset (Adding (sp_next (ps_pool s))) M\<rparr>"
  have knows: "evictor_knows ?s = evictor_knows s" by (simp add: evictor_knows_def tracked_def new_session_def)
  have next1: "sp_next (new_session i (ps_pool s)) = Suc (sp_next (ps_pool s))" by (simp add: new_session_def)
  have "evictor_ok ?s" using ev unfolding evictor_ok_def knows by (auto simp: b next1)
  with new(1) waiters_same [OF w, of "Adding (sp_next (ps_pool s))" "new_session i (ps_pool s)"] new(2)
  show ?thesis by (simp add: pool_inv_def)
qed

lemma add_knows: "tracked (Add_locked p pl) \<subseteq> insert p (tracked pl)"
proof -
  have "snd ` set (map_put k v m) \<subseteq> insert v (snd ` set m)" for k :: string and v :: nat and m
    by (induction m) (auto split: if_splits)
  then show ?thesis by (simp add: tracked_def Add_locked_def Track_def) blast?
qed

lemma inv_added:
  assumes "pool_inv s" and "\<not> sp_closed (ps_pool s)" and b: "ps_borrowers s = add_mset (Adding p) M"
  shows "pool_inv (s\<lparr>ps_pool := Add_locked p (ps_pool s), ps_borrowers := add_mset (Holds p) M\<rparr>)"
proof -
  have ok: "pool_ok (ps_pool s) (add_mset (Adding p) M)" and w: "waiters_ok (ps_pool s) (add_mset (Adding p) M)" and ev: "evictor_ok s"
    using assms(1,2) b(1) by (auto simp: pool_inv_def)
  note new = add_ok [OF ok]
  let ?s = "s\<lparr>ps_pool := Add_locked p (ps_pool s), ps_borrowers := add_mset (Holds p) M\<rparr>"
  have p: "p < sp_next (ps_pool s)" "p \<notin># added M" using ok by (auto simp: parts)
  have "tracked (Add_locked p (ps_pool s)) \<subseteq> insert p (tracked (ps_pool s))" by (rule add_knows)
  then have "evictor_knows ?s \<subseteq> insert p (evictor_knows s)" by (auto simp: evictor_knows_def)
  moreover have "sp_next (Add_locked p (ps_pool s)) = sp_next (ps_pool s)" by (simp add: Add_locked_def)
  ultimately have "evictor_ok ?s" using ev p unfolding evictor_ok_def by (auto simp: b)
  with new(1) waiters_same [OF w, of "Holds p" "Add_locked p (ps_pool s)"] new(2)
  show ?thesis by (simp add: pool_inv_def)
qed

lemma open_step:
  assumes "pool_step s t" and inv: "pool_inv s" and "\<not> sp_closed (ps_pool t)"
  shows "pool_inv t"
proof -
  have cl: "\<not> sp_closed (ps_pool s)" using assms(1,3) step_open by blast
  then have ok: "pool_ok (ps_pool s) (ps_borrowers s)" and w: "waiters_ok (ps_pool s) (ps_borrowers s)" and ev: "evictor_ok s"
    using inv by (auto simp: pool_inv_def)
  note keep = inv_step [OF inv cl _ _ _ _ knows_own] and signal = inv_signal [OF inv cl]
  from assms(1,3) cl show ?thesis
  proof cases
    case (tick d)
    then show ?thesis
      using keep [of "(ps_pool s)\<lparr>sp_now := sp_now (ps_pool s) + d\<rparr>" "ps_borrowers s"] pool_ok_cong [OF ok] w
      by (simp add: frame_def waiters_ok_def free_slots_def)
  next
    case ctx_done
    then show ?thesis
      using keep [of "ps_pool s" "wake_all (ps_borrowers s)"] pool_ok_cong [OF ok] waiting_after_wake [of "ps_borrowers s"]
      by (simp add: waiters_ok_def)
  next
    case (release p M)
    then show ?thesis
      using keep [of "ps_pool s" "add_mset (Releasing p) M"] borrower_swap [of "ps_pool s" "Holds p" M "Releasing p"] ok
        waiters_same [of "ps_pool s" "Holds p" M "Releasing p" "ps_pool s"] w by simp
  next
    case (check q pl)
    have "s\<lparr>ps_pool := pl, ps_toEvict := q\<rparr> = s\<lparr>ps_pool := pl, ps_toEvict := q, ps_callback := ps_callback s\<rparr>" by simp
    moreover from check_frame [OF check(5) ok] have "fst ` set q \<union> set_option (ps_callback s) \<subseteq> evictor_knows s"
      unfolding evictor_knows_def by blast
    ultimately show ?thesis unfolding check(1) using inv_evictor(1) [OF inv cl, of pl q "ps_callback s"] check_frame [OF check(5) ok] by metis
  next
    case (evict p reason q b pl)
    have "fst ` set q \<union> set_option (if b then Some p else None) \<subseteq> evictor_knows s"
      using evict(2) unfolding evictor_knows_def by auto
    then show ?thesis unfolding evict(1)
      using inv_evictor(1) [OF inv cl, of pl q "if b then Some p else None"] evict_frame [OF evict(4) ok] by blast
  next
    case (callback p)
    have "p < sp_next (ps_pool s)" "p \<notin># added (ps_borrowers s)" using ev callback(2) by (auto simp: evictor_ok_def evictor_knows_def)
    from remove_session_ok [OF ok this] show ?thesis unfolding callback(1)
      using inv_evictor [OF inv cl, of "removeSession p (ps_pool s)" "ps_toEvict s" None] knows_own [of s] by simp
  next
    case (acquire M ctxErr r pl)
    then show ?thesis using inv_acquire [OF inv cl acquire(2), of ctxErr r pl] by simp
  next
    case (woken M ctxErr r pl)
    then show ?thesis using inv_acquire [OF inv cl woken(2), of ctxErr r pl] by simp
  next
    case (create_failed M)
    then show ?thesis using signal [OF create_failed(2)] cancel_ok [OF ok [unfolded create_failed(2)]] by simp
  next
    case (released p M)
    then show ?thesis using signal [OF released(2)] release_ok [OF ok [unfolded released(2)]] by simp
  next
    case (invalidate p M)
    then show ?thesis using signal [OF invalidate(2)] remove_ok [OF ok [unfolded invalidate(2)]] by simp
  qed (use inv_created [OF inv cl] inv_added [OF inv cl] in simp_all)
qed

lemma take_idle_max: "sp_maxSize (snd (take_idle ps pl)) = sp_maxSize pl"
  by (induction ps arbitrary: pl) (simp_all add: Let_def)

lemma step_max: "pool_step s t \<Longrightarrow> sp_maxSize (ps_pool t) = sp_maxSize (ps_pool s)"
proof (induction rule: pool_step.induct)
  case (acquire s M ctxErr r pl)
  then show ?case using take_idle_max [of "sp_sessions (ps_pool s)" "ps_pool s"]
    by (auto simp: Acquire_def try_acquire_def wait_or_fail_def split: prod.splits option.splits if_splits acquired.splits)
next
  case (woken s M ctxErr r pl)
  then show ?case using take_idle_max [of "sp_sessions (ps_pool s)" "ps_pool s"]
    by (auto simp: Acquire_woken_def try_acquire_def wait_or_fail_def split: prod.splits option.splits if_splits acquired.splits)
qed (auto simp: CancelReservation_def new_session_def Add_locked_def Release_locked_def Remove_def removeSession_def Close_locked_def
    checkEvictions_def evictSession_def Let_def split: if_splits)

lemma run_max: "pool_step\<^sup>*\<^sup>* s t \<Longrightarrow> sp_maxSize (ps_pool t) = sp_maxSize (ps_pool s)"
  by (induction rule: rtranclp_induct) (auto simp: step_max)

interpretation pool: kept_by_steps pool_step pool_inv
proof
  show "pool_inv t" if "pool_inv s" "pool_step s t" for s t
    using open_step [OF that(2,1)] by (cases "sp_closed (ps_pool t)") (simp_all add: pool_inv_def)
qed

lemma start_counts [simp]: "held (replicate_mset n Outside) = {#}" "added (replicate_mset n Outside) = {#}" "reserved (replicate_mset n Outside) = 0"
  by (induction n) (simp_all add: counts)

lemma start_inv: "0 \<le> maxSize \<Longrightarrow> pool_inv (pool_start now maxSize ttlMs maxIdleMs n)"
  by (auto simp: pool_inv_def parts evictor_ok_def evictor_knows_def tracked_def pool_start_def NewSessionPool_def NewEvictor_def
      waiters_ok_def keys_distinct_def)

section \<open>Properties\<close>

text \<open>C33: whatever the goroutines that share the pool, the evictor, the clock and the contexts do, as long as the pool is not
  closed: idle sessions, sessions held and reservations together never exceed the size of the pool; a session is never held
  by two goroutines, nor idle while it is held; the connection of a session that is held is open; and no goroutine waits for
  a free slot or an idle session that nobody has been woken for.\<close>
theorem pool_safe:
  assumes "pool_step\<^sup>*\<^sup>* (pool_start now maxSize ttlMs maxIdleMs n) s" and "0 \<le> maxSize" and "\<not> sp_closed (ps_pool s)"
  shows "int (length (sp_sessions (ps_pool s)) + size (held (ps_borrowers s)) + reserved (ps_borrowers s)) \<le> maxSize
    \<and> unique (mset (sp_sessions (ps_pool s)) + held (ps_borrowers s))
    \<and> (\<forall>p \<in># held (ps_borrowers s). connection (ps_pool s) p = Some True)
    \<and> (Waiting \<in># ps_borrowers s \<longrightarrow> Woken \<in># ps_borrowers s
        \<or> sp_sessions (ps_pool s) = [] \<and> int (size (held (ps_borrowers s)) + reserved (ps_borrowers s)) = maxSize)"
proof -
  have max: "sp_maxSize (ps_pool s) = maxSize" using run_max [OF assms(1)] by (simp add: pool_start_def NewSessionPool_def)
  have "pool_inv s" using pool.run_keeps [OF assms(1) start_inv [OF assms(2)]] .
  with assms(3) have ok: "pool_ok (ps_pool s) (ps_borrowers s)" and w: "waiters_ok (ps_pool s) (ps_borrowers s)" by (auto simp: pool_inv_def)
  have free: "free_slots (ps_pool s) = maxSize - int (size (held (ps_borrowers s))) - int (reserved (ps_borrowers s))"
    "int (length (sp_sessions (ps_pool s))) \<le> free_slots (ps_pool s)" using ok max by (simp_all add: parts)
  have "Woken \<in># ps_borrowers s \<or> sp_sessions (ps_pool s) = [] \<and> int (size (held (ps_borrowers s)) + reserved (ps_borrowers s)) = maxSize"
    if "Waiting \<in># ps_borrowers s"
  proof (cases "Woken \<in># ps_borrowers s")
    case False
    then have "free_slots (ps_pool s) \<le> 0" using w that by (simp add: waiters_ok_def not_in_iff)
    with free have "length (sp_sessions (ps_pool s)) = 0" "int (size (held (ps_borrowers s)) + reserved (ps_borrowers s)) = maxSize" by linarith+
    then show ?thesis by simp
  qed simp
  with ok free show ?thesis by (auto simp: parts)
qed

definition reserved_pool :: SessionPool where
  "reserved_pool = (NewSessionPool 0 1 0 0)\<lparr>sp_pendingCreates := 1\<rparr>"

definition busy_pool :: SessionPool where
  "busy_pool = Add_locked 0 (new_session ''ses_1'' reserved_pool)"

definition busy :: pool_system where
  "busy = \<lparr>ps_pool = busy_pool\<lparr>sp_poolWaits := 1\<rparr>, ps_borrowers = {#Waiting, Holds 0#}, ps_toEvict = [], ps_callback = None, ps_closeDone = False\<rparr>"

lemma busy_acquires: "Acquire False (NewSessionPool 0 1 0 0) = (NeedsCreate, reserved_pool)"
  "Acquire False busy_pool = (MustWait, busy_pool\<lparr>sp_poolWaits := 1\<rparr>)"
  by (simp_all add: Acquire_def try_acquire_def wait_or_fail_def NewSessionPool_def NewEvictor_def reserved_pool_def busy_pool_def
      Add_locked_def new_session_def Track_def)

lemma busy_run: "pool_step\<^sup>*\<^sup>* (pool_start 0 1 0 0 2) busy"
proof -
  let ?s = "\<lambda>pl M. \<lparr>ps_pool = pl, ps_borrowers = M, ps_toEvict = [], ps_callback = None, ps_closeDone = False\<rparr>"
  have start: "pool_start 0 1 0 0 2 = ?s (NewSessionPool 0 1 0 0) {#Outside, Outside#}"
    by (simp add: pool_start_def numeral_2_eq_2)
  have r1: "pool_step (?s (NewSessionPool 0 1 0 0) {#Outside, Outside#}) (?s reserved_pool {#Creating, Outside#})"
    using pool_step.acquire [of "?s (NewSessionPool 0 1 0 0) {#Outside, Outside#}" "{#Outside#}" False] busy_acquires(1) by simp
  have r2: "pool_step (?s reserved_pool {#Creating, Outside#}) (?s (new_session ''ses_1'' reserved_pool) {#Adding 0, Outside#})"
    using pool_step.created [of "?s reserved_pool {#Creating, Outside#}" "{#Outside#}" "''ses_1''" 0]
    by (simp add: reserved_pool_def NewSessionPool_def)
  have r3: "pool_step (?s (new_session ''ses_1'' reserved_pool) {#Adding 0, Outside#}) (?s busy_pool {#Holds 0, Outside#})"
    using pool_step.add [of "?s (new_session ''ses_1'' reserved_pool) {#Adding 0, Outside#}" 0 "{#Outside#}"] by (simp add: busy_pool_def)
  have r4: "pool_step (?s busy_pool {#Holds 0, Outside#}) busy"
    using pool_step.acquire [of "?s busy_pool {#Holds 0, Outside#}" "{#Holds 0#}" False] busy_acquires(2)
    by (simp add: busy_def add_mset_commute)
  show ?thesis unfolding start using r1 r2 r3 r4 by (meson converse_rtranclp_into_rtranclp r_into_rtranclp)
qed

theorem pool_safe_witness:
  "pool_step\<^sup>*\<^sup>* (pool_start 0 1 0 0 2) busy \<and> Waiting \<in># ps_borrowers busy \<and> held (ps_borrowers busy) = {#0#}
   \<and> connection (ps_pool busy) 0 = Some True \<and> sp_sessions (ps_pool busy) = []"
proof -
  have held: "held (ps_borrowers busy) = {#0#}" by (simp add: busy_def counts)
  have "\<not> sp_closed (ps_pool busy)"
    by (simp add: busy_def busy_pool_def reserved_pool_def NewSessionPool_def)
  from pool_safe [OF busy_run _ this] have "connection (ps_pool busy) 0 = Some True"
    "Waiting \<in># ps_borrowers busy \<Longrightarrow> Woken \<in># ps_borrowers busy \<or> sp_sessions (ps_pool busy) = []" by (auto simp: held)
  with busy_run held show ?thesis by (auto simp: busy_def)
qed

text \<open>C34: closing the pool does not refuse the goroutines that wait in it. When \<^verbatim>\<open>Close\<close> has emptied the pool and woken them, one
  that still finds no reservations in the way takes one, creates a session with the server, and returns it as acquired;
  \<^verbatim>\<open>Add\<close> has closed its connection, so what it returns cannot be used, and it never returns \<^verbatim>\<open>ErrManagerClosed\<close>.\<close>
theorem close_serves_waiters:
  assumes "sp_closed (ps_pool s)" and "ps_toEvict s = []" "ps_callback s = None" "\<not> ps_closeDone s"
    and "ps_borrowers s = add_mset Waiting M" and "int (sp_pendingCreates (ps_pool s)) < sp_maxSize (ps_pool s)"
  shows "(\<exists>t. pool_step\<^sup>*\<^sup>* s t \<and> ps_borrowers t = add_mset (Holds (sp_next (ps_pool s))) (wake_all M)
      \<and> connection (ps_pool t) (sp_next (ps_pool s)) = Some False)
    \<and> fst (Acquire_woken ctxErr (Close_locked (ps_pool s))) = NeedsCreate"
proof -
  let ?pl = "Close_locked (ps_pool s)"
  let ?pl1 = "?pl\<lparr>sp_pendingCreates := sp_pendingCreates ?pl + 1\<rparr>"
  have "sp_sessions ?pl = []" "sp_inUse ?pl = []" "sp_pendingCreates ?pl = sp_pendingCreates (ps_pool s)" "sp_maxSize ?pl = sp_maxSize (ps_pool s)"
    "sp_next ?pl = sp_next (ps_pool s)" by (simp_all add: Close_locked_def Let_def)
  note fields = this
  then have woken: "Acquire_woken c ?pl = (NeedsCreate, ?pl1)" for c
    using assms(6) by (simp add: Acquire_woken_def try_acquire_def)
  let ?s1 = "s\<lparr>ps_pool := ?pl, ps_borrowers := add_mset Woken (wake_all M), ps_closeDone := True\<rparr>"
  let ?s2 = "?s1\<lparr>ps_pool := ?pl1, ps_borrowers := add_mset Creating (wake_all M)\<rparr>"
  let ?p = "sp_next (ps_pool s)"
  let ?pl3 = "on_session ?p closeWithLog (new_session [] ?pl1)"
  let ?s3 = "?s2\<lparr>ps_pool := ?pl3, ps_borrowers := add_mset (Holds ?p) (wake_all M)\<rparr>"
  have r1: "pool_step s ?s1" using pool_step.closed [OF assms(1-4)] assms(5) by (simp add: wake_all_def)
  have r2: "pool_step ?s1 ?s2" using pool_step.woken [of ?s1 "wake_all M" False] woken by simp
  have r3: "pool_step ?s2 ?s3"
    using pool_step.created_late [of ?s2 "wake_all M" ?p "[]"] assms(1) fields(5) by simp
  have "pool_step\<^sup>*\<^sup>* s ?s3" using r1 r2 r3 by (meson converse_rtranclp_into_rtranclp r_into_rtranclp)
  moreover have "connection ?pl3 ?p = Some False" using fields(5) by (simp add: connection_def on_session_def new_session_def NewSessionInfo_def closeWithLog_def)
  ultimately show ?thesis using woken by (intro conjI exI [of _ ?s3]) simp_all
qed

theorem close_serves_waiters_witness:
  "\<exists>t. pool_step\<^sup>*\<^sup>* (busy\<lparr>ps_pool := (ps_pool busy)\<lparr>sp_closed := True\<rparr>\<rparr>) t \<and> Holds 1 \<in># ps_borrowers t \<and> connection (ps_pool t) 1 = Some False"
proof -
  let ?s = "busy\<lparr>ps_pool := (ps_pool busy)\<lparr>sp_closed := True\<rparr>\<rparr>"
  have "sp_next (ps_pool ?s) = 1" "sp_pendingCreates (ps_pool ?s) = 0" "sp_maxSize (ps_pool ?s) = 1" "ps_borrowers ?s = {#Waiting, Holds 0#}"
    by (simp_all add: busy_def busy_pool_def new_session_def reserved_pool_def NewSessionPool_def Add_locked_def)
  then show ?thesis
    using close_serves_waiters [of ?s "{#Holds 0#}" False] by (fastforce simp: busy_def)
qed

end
