(* ===== verification/Go_Net.thy ===== *)
theory Go_Net
  imports Run_Config "HOL-Library.Word" "HOL-Library.Sublist"
begin

text \<open>
  What the sources use of the packages \<^verbatim>\<open>strings\<close>, \<^verbatim>\<open>net\<close>, \<^verbatim>\<open>net/netip\<close> and \<^verbatim>\<open>net/url\<close> of Go
  1.24: addresses, networks and their containment, the texts of both, and the scheme, user and host of a
  URL. Strings are byte strings; lower case is taken of the ASCII letters only. An address is its bytes,
  four or sixteen of them. The last lemmas give containment its meaning: an address is in a network when
  its number and that of the network agree in the leading bits.
\<close>

unbundle bit_operations_syntax

section \<open>Strings\<close>

definition ToLower :: "string \<Rightarrow> string" where
  "ToLower s = map lower s"

definition HasPrefix :: "string \<Rightarrow> string \<Rightarrow> bool" where
  "HasPrefix s p \<longleftrightarrow> prefix p s"

definition HasSuffix :: "string \<Rightarrow> string \<Rightarrow> bool" where
  "HasSuffix s p \<longleftrightarrow> suffix p s"

definition Contains_str :: "string \<Rightarrow> string \<Rightarrow> bool" where
  "Contains_str s t \<longleftrightarrow> list_ex (prefix t) (suffixes s)"

definition ContainsAny :: "string \<Rightarrow> string \<Rightarrow> bool" where
  "ContainsAny s cs \<longleftrightarrow> list_ex (\<lambda>c. c \<in> set cs) s"

definition byte :: "char \<Rightarrow> int" where
  "byte c = of_char c"

definition is_digit :: "char \<Rightarrow> bool" where
  "is_digit c \<longleftrightarrow> 48 \<le> byte c \<and> byte c \<le> 57"

definition is_letter :: "char \<Rightarrow> bool" where
  "is_letter c \<longleftrightarrow> (97 \<le> byte c \<and> byte c \<le> 122) \<or> (65 \<le> byte c \<and> byte c \<le> 90)"

text \<open>\<^verbatim>\<open>strings.Cut\<close> at the first separator, and the parts around the last one (\<^verbatim>\<open>LastIndex\<close>).\<close>

definition cut :: "char \<Rightarrow> string \<Rightarrow> string \<times> string option" where
  "cut c s = (takeWhile (\<lambda>x. x \<noteq> c) s, case dropWhile (\<lambda>x. x \<noteq> c) s of [] \<Rightarrow> None | _ # t \<Rightarrow> Some t)"

definition cut_last :: "char \<Rightarrow> string \<Rightarrow> (string \<times> string) option" where
  "cut_last c s = (case cut c (rev s) of (b, Some a) \<Rightarrow> Some (rev a, rev b) | _ \<Rightarrow> None)"

section \<open>Addresses and networks\<close>

type_synonym IP = "8 word list"

definition v4InV6Prefix :: IP where
  "v4InV6Prefix = replicate 10 0 @ [0xff, 0xff]"

definition To4 :: "IP \<Rightarrow> IP option" where
  "To4 ip = (if length ip = 4 then Some ip
     else if length ip = 16 \<and> take 12 ip = v4InV6Prefix then Some (drop 12 ip) else None)"

definition IPv6loopback :: IP where
  "IPv6loopback = replicate 15 0 @ [1]"

definition IsLoopback :: "IP \<Rightarrow> bool" where
  "IsLoopback ip = (case To4 ip of Some ip4 \<Rightarrow> ip4 ! 0 = 127 | None \<Rightarrow> ip = IPv6loopback)"

definition IsMulticast :: "IP \<Rightarrow> bool" where
  "IsMulticast ip = (case To4 ip of Some ip4 \<Rightarrow> ip4 ! 0 AND 0xf0 = 0xe0
     | None \<Rightarrow> length ip = 16 \<and> ip ! 0 = 0xff)"

definition IsLinkLocalMulticast :: "IP \<Rightarrow> bool" where
  "IsLinkLocalMulticast ip = (case To4 ip of Some ip4 \<Rightarrow> ip4 ! 0 = 224 \<and> ip4 ! 1 = 0 \<and> ip4 ! 2 = 0
     | None \<Rightarrow> length ip = 16 \<and> ip ! 0 = 0xff \<and> ip ! 1 AND 0x0f = 0x02)"

definition IsLinkLocalUnicast :: "IP \<Rightarrow> bool" where
  "IsLinkLocalUnicast ip = (case To4 ip of Some ip4 \<Rightarrow> ip4 ! 0 = 169 \<and> ip4 ! 1 = 254
     | None \<Rightarrow> length ip = 16 \<and> ip ! 0 = 0xfe \<and> ip ! 1 AND 0xc0 = 0x80)"

record IPNet =
  net_IP :: IP
  net_Mask :: IP

text \<open>\<open>CIDRMask l ones\<close> has \<open>l\<close> bytes with \<open>ones\<close> leading one bits.\<close>

fun CIDRMask :: "nat \<Rightarrow> nat \<Rightarrow> IP" where
  "CIDRMask 0 n = []"
| "CIDRMask (Suc l) n = (if 8 \<le> n then 0xff # CIDRMask l (n - 8) else NOT (drop_bit n 0xff) # CIDRMask l 0)"

definition mask_bytes :: "IP \<Rightarrow> IP \<Rightarrow> IP" where
  "mask_bytes ip m = map2 (AND) ip m"

text \<open>\<^verbatim>\<open>IP.Mask\<close>; a length mismatch gives the nil address.\<close>

definition Mask :: "IP \<Rightarrow> IP \<Rightarrow> IP" where
  "Mask ip m =
     (let m' = if length m = 16 \<and> length ip = 4 \<and> take 12 m = replicate 12 0xff then drop 12 m else m;
          ip' = if length m' = 4 \<and> length ip = 16 \<and> take 12 ip = v4InV6Prefix then drop 12 ip else ip
      in if length ip' = length m' then mask_bytes ip' m' else [])"

definition networkNumberAndMask :: "IPNet \<Rightarrow> IP \<times> IP" where
  "networkNumberAndMask n =
     (let ip = (case To4 (net_IP n) of Some ip4 \<Rightarrow> ip4 | None \<Rightarrow> net_IP n); m = net_Mask n
      in if length ip \<noteq> 4 \<and> length ip \<noteq> 16 then ([], [])
         else if length m = 4 then (if length ip = 4 then (ip, m) else ([], []))
         else if length m = 16 then (ip, if length ip = 4 then drop 12 m else m)
         else ([], []))"

definition canonical :: "IP \<Rightarrow> IP" where
  "canonical ip = (case To4 ip of Some ip4 \<Rightarrow> ip4 | None \<Rightarrow> ip)"

definition Contains :: "IPNet \<Rightarrow> IP \<Rightarrow> bool" where
  "Contains n ip =
     (let (nn, m) = networkNumberAndMask n; x = canonical ip
      in length x = length nn \<and> mask_bytes nn m = mask_bytes x m)"

section \<open>Reading addresses and networks\<close>

definition dec_val :: "char \<Rightarrow> int" where
  "dec_val c = byte c - 48"

text \<open>A field of a dotted address: digits, no leading zero, at most 255.\<close>

definition octet :: "string \<Rightarrow> 8 word option" where
  "octet s = (let v = foldl (\<lambda>a c. a * 10 + dec_val c) 0 s
     in if s \<noteq> [] \<and> list_all is_digit s \<and> (length s = 1 \<or> hd s \<noteq> CHR ''0'') \<and> v \<le> 255
        then Some (of_int v) else None)"

definition parseIPv4 :: "string \<Rightarrow> IP option" where
  "parseIPv4 s = (let fs = split_on (CHR ''.'') s in if length fs = 4 then those (map octet fs) else None)"

definition hex_val :: "char \<Rightarrow> int option" where
  "hex_val c =
     (let n = byte c in
      if is_digit c then Some (n - 48)
      else if 97 \<le> n \<and> n \<le> 102 then Some (n - 87)
      else if 65 \<le> n \<and> n \<le> 70 then Some (n - 55) else None)"

text \<open>
  The groups of \<^verbatim>\<open>parseIPv6\<close>: \<open>groups k s acc e\<close> reads at most \<open>k\<close> more groups; \<open>acc\<close> has the
  bytes read, \<open>e\<close> the position of the ellipsis. The result has the text that is left.
\<close>

fun groups :: "nat \<Rightarrow> string \<Rightarrow> IP \<Rightarrow> nat option \<Rightarrow> (string \<times> IP \<times> nat option) option" where
  "groups 0 s acc e = Some (s, acc, e)"
| "groups (Suc k) s acc e =
     (let ds = takeWhile (\<lambda>c. hex_val c \<noteq> None) s; s1 = drop (length ds) s;
          v = foldl (\<lambda>a c. a * 16 + the (hex_val c)) 0 ds
      in if ds = [] \<or> 4 < length ds then None
         else if s1 \<noteq> [] \<and> hd s1 = CHR ''.'' then
           (if (e = None \<and> length acc \<noteq> 12) \<or> 16 < length acc + 4 then None
            else map_option (\<lambda>fs. ([], acc @ fs, e)) (parseIPv4 s))
         else
           (let acc1 = acc @ [of_int (v div 256), of_int (v mod 256)]
            in if s1 = [] then Some ([], acc1, e)
               else if hd s1 \<noteq> CHR '':'' \<or> length s1 = 1 then None
               else if hd (tl s1) = CHR '':'' then
                 (if e \<noteq> None then None
                  else if length s1 = 2 then Some ([], acc1, Some (length acc1))
                  else groups k (drop 2 s1) acc1 (Some (length acc1)))
               else groups k (tl s1) acc1 e))"

definition expand :: "IP \<Rightarrow> nat option \<Rightarrow> IP option" where
  "expand acc e =
     (case e of
        None \<Rightarrow> if length acc < 16 then None else Some acc
      | Some p \<Rightarrow> if length acc < 16 then Some (take p acc @ replicate (16 - length acc) 0 @ drop p acc) else None)"

text \<open>An address with a zone is refused where the sources read addresses.\<close>

definition parseIPv6 :: "string \<Rightarrow> IP option" where
  "parseIPv6 s =
     (if CHR ''%'' \<in> set s then None
      else let (e, s1) = (if HasPrefix s ''::'' then (Some 0, drop 2 s) else (None, s))
        in if e \<noteq> None \<and> s1 = [] then Some (replicate 16 0)
           else case groups 8 s1 [] e of
               Some ([], acc, e') \<Rightarrow> expand acc e'
             | _ \<Rightarrow> None)"

text \<open>\<^verbatim>\<open>netip.ParseAddr\<close>: the first dot or colon decides.\<close>

definition ParseAddr :: "string \<Rightarrow> IP option" where
  "ParseAddr s =
     (case find (\<lambda>c. c \<in> set ''.:%'') s of
        None \<Rightarrow> None
      | Some c \<Rightarrow> if c = CHR ''.'' then parseIPv4 s else if c = CHR '':'' then parseIPv6 s else None)"

definition As16 :: "IP \<Rightarrow> IP" where
  "As16 ip = (if length ip = 4 then v4InV6Prefix @ ip else ip)"

definition ParseIP :: "string \<Rightarrow> IP option" where
  "ParseIP s = map_option As16 (ParseAddr s)"

definition prefix_length :: "string \<Rightarrow> nat option" where
  "prefix_length s = (let v = foldl (\<lambda>a c. a * 10 + dec_val c) 0 s
     in if s \<noteq> [] \<and> list_all is_digit s \<and> v < 0xFFFFFF then Some (nat v) else None)"

definition ParseCIDR :: "string \<Rightarrow> IPNet option" where
  "ParseCIDR s =
     (case cut (CHR ''/'') s of
        (_, None) \<Rightarrow> None
      | (addr, Some bits) \<Rightarrow>
          (case (ParseAddr addr, prefix_length bits) of
             (Some ip, Some n) \<Rightarrow>
               if 8 * length ip < n then None
               else let m = CIDRMask (length ip) n in Some \<lparr>net_IP = Mask (As16 ip) m, net_Mask = m\<rparr>
           | _ \<Rightarrow> None))"

section \<open>URLs\<close>

text \<open>The parts of a URL that the sources read: the scheme, whether there is a user, and the host with its port.\<close>

record URL =
  url_Scheme :: string
  url_User :: bool
  url_Host :: string

text \<open>\<^verbatim>\<open>getScheme\<close>: an error when the text starts with a colon.\<close>

definition scheme_char :: "char \<Rightarrow> bool" where
  "scheme_char c \<longleftrightarrow> is_letter c \<or> is_digit c \<or> c \<in> set ''+-.''"

definition getScheme :: "string \<Rightarrow> (string \<times> string) option" where
  "getScheme s =
     (let p = takeWhile scheme_char s; r = drop (length p) s
      in if r \<noteq> [] \<and> hd r = CHR '':'' then
           (if p = [] then None else if is_letter (hd p) then Some (p, tl r) else Some ([], s))
         else Some ([], s))"

text \<open>
  \<^verbatim>\<open>unescape\<close>: \<open>ok\<close> says which unescaped bytes may stand in this part, \<open>esc\<close> which values may be
  escaped, given the two digits.
\<close>

fun unescape :: "(char \<Rightarrow> bool) \<Rightarrow> (char \<Rightarrow> char \<Rightarrow> bool) \<Rightarrow> string \<Rightarrow> string option" where
  "unescape ok esc [] = Some []"
| "unescape ok esc (c # s) =
     (if c = CHR ''%'' then
        (case s of
           x # y # t \<Rightarrow>
             (case (hex_val x, hex_val y) of
                (Some a, Some b) \<Rightarrow>
                  if esc x y then map_option ((#) (char_of (16 * a + b))) (unescape ok esc t) else None
              | _ \<Rightarrow> None)
         | _ \<Rightarrow> None)
      else if ok c then map_option ((#) c) (unescape ok esc s) else None)"

text \<open>A path, a fragment, a user or a password takes any escape; a host only those of bytes outside ASCII
  and of the percent sign; a zone also those of the bytes a host may have.\<close>

definition unescape_any :: "string \<Rightarrow> string option" where
  "unescape_any = unescape (\<lambda>_. True) (\<lambda>_ _. True)"

definition host_char :: "char \<Rightarrow> bool" where
  "host_char c \<longleftrightarrow> 128 \<le> byte c \<or> is_letter c \<or> is_digit c \<or> c \<in> set ''-_.~!$&()*+,;=:[]<>'' \<or> byte c \<in> {34, 39}"

definition unescape_host :: "string \<Rightarrow> string option" where
  "unescape_host = unescape host_char (\<lambda>x y. 8 \<le> the (hex_val x) \<or> (x = CHR ''2'' \<and> y = CHR ''5''))"

definition unescape_zone :: "string \<Rightarrow> string option" where
  "unescape_zone = unescape host_char
     (\<lambda>x y. let v = 16 * the (hex_val x) + the (hex_val y)
            in (x = CHR ''2'' \<and> y = CHR ''5'') \<or> v = 32 \<or> 128 > v \<and> host_char (char_of v))"

definition validOptionalPort :: "string \<Rightarrow> bool" where
  "validOptionalPort p \<longleftrightarrow> p = [] \<or> (hd p = CHR '':'' \<and> list_all is_digit (tl p))"

text \<open>The text before the first occurrence of \<open>t\<close> and the rest, which starts with it.\<close>

fun split_before :: "string \<Rightarrow> string \<Rightarrow> (string \<times> string) option" where
  "split_before t [] = None"
| "split_before t (c # s) =
     (if prefix t (c # s) then Some ([], c # s) else map_option (\<lambda>(a, b). (c # a, b)) (split_before t s))"

definition parseHost :: "string \<Rightarrow> string option" where
  "parseHost host =
     (if HasPrefix host ''['' then
        (case cut_last (CHR '']'') host of
           None \<Rightarrow> None
         | Some (a, colonPort) \<Rightarrow>
             if \<not> validOptionalPort colonPort then None
             else case split_before ''%25'' a of
                 Some (h, z) \<Rightarrow>
                   (case (unescape_host h, unescape_zone z, unescape_host (CHR '']'' # colonPort)) of
                      (Some h1, Some h2, Some h3) \<Rightarrow> Some (h1 @ h2 @ h3) | _ \<Rightarrow> None)
               | None \<Rightarrow> unescape_host host)
      else
        (case cut_last (CHR '':'') host of
           Some (_, port) \<Rightarrow> if validOptionalPort (CHR '':'' # port) then unescape_host host else None
         | None \<Rightarrow> unescape_host host))"

definition userinfo_char :: "char \<Rightarrow> bool" where
  "userinfo_char c \<longleftrightarrow> is_letter c \<or> is_digit c \<or> c \<in> set ''-._:~!$&()*+,;=%@'' \<or> byte c = 39"

text \<open>\<^verbatim>\<open>parseAuthority\<close>: whether there is a user, and the host.\<close>

definition parseAuthority :: "string \<Rightarrow> (bool \<times> string) option" where
  "parseAuthority a =
     (case cut_last (CHR ''@'') a of
        None \<Rightarrow> map_option (Pair False) (parseHost a)
      | Some (userinfo, h) \<Rightarrow>
          (case parseHost h of
             None \<Rightarrow> None
           | Some host \<Rightarrow>
               if \<not> list_all userinfo_char userinfo then None
               else case cut (CHR '':'') userinfo of
                   (u, None) \<Rightarrow> map_option (\<lambda>_. (True, host)) (unescape_any u)
                 | (u, Some p) \<Rightarrow>
                     (case (unescape_any u, unescape_any p) of (Some _, Some _) \<Rightarrow> Some (True, host) | _ \<Rightarrow> None)))"

definition ctl_char :: "char \<Rightarrow> bool" where
  "ctl_char c \<longleftrightarrow> byte c < 32 \<or> byte c = 127"

text \<open>\<^verbatim>\<open>parse\<close>, on a text without a fragment.\<close>

definition parse_url :: "string \<Rightarrow> URL option" where
  "parse_url raw =
     (if list_ex ctl_char raw then None
      else if raw = ''*'' then Some \<lparr>url_Scheme = [], url_User = False, url_Host = []\<rparr>
      else case getScheme raw of
          None \<Rightarrow> None
        | Some (sch, r) \<Rightarrow>
            (let scheme = ToLower sch; rest = fst (cut (CHR ''?'') r)
             in if \<not> HasPrefix rest ''/'' \<and> scheme \<noteq> [] then
                  Some \<lparr>url_Scheme = scheme, url_User = False, url_Host = []\<rparr>
                else if \<not> HasPrefix rest ''/'' \<and> CHR '':'' \<in> set (fst (cut (CHR ''/'') rest)) then None
                else if (scheme \<noteq> [] \<or> \<not> HasPrefix rest ''///'') \<and> HasPrefix rest ''//'' then
                  (let authority = fst (cut (CHR ''/'') (drop 2 rest));
                       path = drop (length authority) (drop 2 rest)
                   in case (parseAuthority authority, unescape_any path) of
                        (Some (user, host), Some _) \<Rightarrow>
                          Some \<lparr>url_Scheme = scheme, url_User = user, url_Host = host\<rparr>
                      | _ \<Rightarrow> None)
                else map_option (\<lambda>_. \<lparr>url_Scheme = scheme, url_User = False, url_Host = []\<rparr>) (unescape_any rest)))"

definition Parse_url :: "string \<Rightarrow> URL option" where
  "Parse_url raw =
     (case cut (CHR ''#'') raw of
        (u, None) \<Rightarrow> parse_url u
      | (u, Some frag) \<Rightarrow>
          (case parse_url u of
             None \<Rightarrow> None
           | Some url \<Rightarrow> map_option (\<lambda>_. url) (unescape_any frag)))"

definition Hostname :: "URL \<Rightarrow> string" where
  "Hostname url =
     (let h = url_Host url;
          h1 = (case cut_last (CHR '':'') h of
                  Some (a, p) \<Rightarrow> if validOptionalPort (CHR '':'' # p) then a else h
                | None \<Rightarrow> h)
      in if HasPrefix h1 ''['' \<and> HasSuffix h1 '']'' then butlast (tl h1) else h1)"

section \<open>Containment by numbers\<close>

definition addr_num :: "IP \<Rightarrow> nat" where
  "addr_num ip = foldl (\<lambda>a b. a * 256 + unat b) 0 ip"

lemma addr_num_foldl: "foldl (\<lambda>a b. a * 256 + unat b) n ip = n * 256 ^ length ip + addr_num ip"
proof (induction ip arbitrary: n)
  case (Cons b ip)
  have "addr_num (b # ip) = foldl (\<lambda>a b. a * 256 + unat b) (unat b) ip" by (simp add: addr_num_def)
  also have "\<dots> = unat b * 256 ^ length ip + addr_num ip" by (rule Cons)
  finally have head: "addr_num (b # ip) = unat b * 256 ^ length ip + addr_num ip" .
  have "foldl (\<lambda>a b. a * 256 + unat b) n (b # ip) = (n * 256 + unat b) * 256 ^ length ip + addr_num ip"
    by (simp add: Cons)
  then show ?case by (simp add: head algebra_simps)
qed (simp add: addr_num_def)

lemma addr_num_Nil [simp]: "addr_num [] = 0"
  by (simp add: addr_num_def)

lemma addr_num_Cons [simp]: "addr_num (b # ip) = unat b * 256 ^ length ip + addr_num ip"
  using addr_num_foldl [of "unat b" ip] by (simp add: addr_num_def)

lemma addr_num_append [simp]: "addr_num (a @ b) = addr_num a * 256 ^ length b + addr_num b"
  by (induction a) (simp_all add: power_add algebra_simps)

lemma addr_num_zeros [simp]: "addr_num (replicate n 0) = 0"
  by (induction n) simp_all

lemma unat_byte: "unat (b :: 8 word) < 256"
  using unsigned_less [of b, where 'a = nat] by simp

lemma addr_num_bound: "addr_num ip < 256 ^ length ip"
proof (induction ip)
  case (Cons b ip)
  have "unat b * 256 ^ length ip + addr_num ip < (unat b + 1) * 256 ^ length ip" using Cons by simp
  also have "\<dots> \<le> 256 * 256 ^ length ip" using unat_byte [of b] by (intro mult_right_mono) simp_all
  finally show ?case by simp
qed simp

text \<open>One byte: masking keeps the leading bits.\<close>

lemma mask_bits: "bit (x AND NOT (Bit_Operations.mask k)) i \<longleftrightarrow> k \<le> i \<and> bit x i" for x :: "8 word"
  using bit_imp_le_length [of x i] by (auto simp: bit_and_iff bit_not_iff bit_mask_iff)

lemma mask_eq_iff: "b AND NOT (Bit_Operations.mask k) = c AND NOT (Bit_Operations.mask k) \<longleftrightarrow> drop_bit k b = drop_bit k c" for b c :: "8 word"
proof
  assume eq: "b AND NOT (Bit_Operations.mask k) = c AND NOT (Bit_Operations.mask k)"
  show "drop_bit k b = drop_bit k c"
  proof (rule bit_word_eqI)
    fix n
    have "bit b (k + n) = bit c (k + n)" using arg_cong [OF eq, of "\<lambda>x. bit x (k + n)"] unfolding mask_bits by simp
    then show "bit (drop_bit k b) n = bit (drop_bit k c) n" by (simp only: bit_drop_bit_eq o_def)
  qed
next
  assume eq: "drop_bit k b = drop_bit k c"
  show "b AND NOT (Bit_Operations.mask k) = c AND NOT (Bit_Operations.mask k)"
  proof (rule bit_word_eqI)
    fix n
    have "bit b n = bit c n" if "k \<le> n"
      using arg_cong [OF eq, of "\<lambda>x. bit x (n - k)"] that by (simp only: bit_drop_bit_eq o_def) simp
    then show "bit (b AND NOT (Bit_Operations.mask k)) n = bit (c AND NOT (Bit_Operations.mask k)) n" unfolding mask_bits by blast
  qed
qed

lemma mask_byte:
  fixes b c :: "8 word"
  assumes "n < 8"
  shows "b AND NOT (drop_bit n 0xff) = c AND NOT (drop_bit n 0xff) \<longleftrightarrow> unat b div 2 ^ (8 - n) = unat c div 2 ^ (8 - n)"
proof -
  have ff: "(0xff :: 8 word) = Bit_Operations.mask 8" by (simp add: mask_eq_exp_minus_1)
  have m: "drop_bit n (0xff :: 8 word) = Bit_Operations.mask (8 - n)"
    unfolding ff by (rule bit_eqI) (auto simp: bit_drop_bit_eq bit_mask_iff)
  have u: "unat (drop_bit k x) = unat x div 2 ^ k" for x :: "8 word" and k
    using unat_drop_bit_eq [of k x] by (simp only: drop_bit_eq_div [where 'a = nat])
  show ?thesis unfolding m mask_eq_iff by (simp only: word_unat_eq_iff u)
qed

lemma lead_split:
  fixes x y r s :: nat
  assumes "d \<le> e" "r < 2 ^ e" "s < 2 ^ e"
  shows "(x * 2 ^ e + r) div 2 ^ d = (y * 2 ^ e + s) div 2 ^ d \<longleftrightarrow> x = y \<and> r div 2 ^ d = s div 2 ^ d"
proof -
  have e: "(2::nat) ^ e = 2 ^ (e - d) * 2 ^ d" using assms(1) by (simp flip: power_add)
  have split: "(z * 2 ^ e + t) div 2 ^ d = z * 2 ^ (e - d) + t div 2 ^ d" for z t :: nat
    unfolding e by (simp add: mult.assoc [symmetric] div_mult_self3)
  have small: "t div 2 ^ d < 2 ^ (e - d)" if "t < 2 ^ e" for t :: nat
    using that unfolding e by (simp add: less_mult_imp_div_less)
  show ?thesis
  proof
    assume "(x * 2 ^ e + r) div 2 ^ d = (y * 2 ^ e + s) div 2 ^ d"
    then have eq: "x * 2 ^ (e - d) + r div 2 ^ d = y * 2 ^ (e - d) + s div 2 ^ d" by (simp only: split)
    from arg_cong [OF eq, of "\<lambda>v. v div 2 ^ (e - d)"] small [OF assms(2)] small [OF assms(3)] have "x = y" by simp
    with eq show "x = y \<and> r div 2 ^ d = s div 2 ^ d" by simp
  qed (simp add: split)
qed

lemma length_CIDRMask [simp]: "length (CIDRMask l n) = l"
  by (induction l n rule: CIDRMask.induct) auto

lemma mask_bytes_Cons [simp]: "mask_bytes (b # ip) (m # ms) = (b AND m) # mask_bytes ip ms"
  by (simp add: mask_bytes_def)

lemma byte_masks: "(- 256 :: 8 word) = 0" "(0xff :: 8 word) = - 1"
  by (simp_all add: word_eq_iff_unsigned)

lemma mask_bytes_zero: "length ip = l \<Longrightarrow> mask_bytes ip (CIDRMask l 0) = replicate l 0"
proof (induction l arbitrary: ip)
  case (Suc l)
  then obtain b bs where "ip = b # bs" "length bs = l" by (cases ip) auto
  then show ?case using Suc.IH [of bs] by (simp add: byte_masks)
qed (simp add: mask_bytes_def)

lemma masked_equal:
  assumes "length ip = l" "length net = l" "n \<le> 8 * l"
  shows "mask_bytes net (CIDRMask l n) = mask_bytes ip (CIDRMask l n)
     \<longleftrightarrow> addr_num net div 2 ^ (8 * l - n) = addr_num ip div 2 ^ (8 * l - n)"
  using assms
proof (induction l arbitrary: ip net n)
  case 0
  then show ?case by simp
next
  case (Suc l)
  then obtain b bs c cs where ip: "ip = b # bs" "length bs = l" and net: "net = c # cs" "length cs = l"
    by (cases ip; cases net) auto
  have p: "(256::nat) ^ l = 2 ^ (8 * l)" by (simp add: power_mult)
  have small: "addr_num bs < 2 ^ (8 * l)" "addr_num cs < 2 ^ (8 * l)"
    using addr_num_bound [of bs] addr_num_bound [of cs] ip net p by simp_all
  show ?case
  proof (cases "8 \<le> n")
    case True
    then have d: "8 * Suc l - n = 8 * l - (n - 8)" "n - 8 \<le> 8 * l" "8 * l - (n - 8) \<le> 8 * l" using Suc.prems(3) by simp_all
    have "mask_bytes net (CIDRMask (Suc l) n) = mask_bytes ip (CIDRMask (Suc l) n)
        \<longleftrightarrow> c = b \<and> mask_bytes cs (CIDRMask l (n - 8)) = mask_bytes bs (CIDRMask l (n - 8))"
      using True ip net by (simp add: byte_masks)
    also have "\<dots> \<longleftrightarrow> unat c = unat b \<and> addr_num cs div 2 ^ (8 * l - (n - 8)) = addr_num bs div 2 ^ (8 * l - (n - 8))"
      using Suc.IH [OF ip(2) net(2) d(2)] by (simp add: word_unat_eq_iff)
    also have "\<dots> \<longleftrightarrow> addr_num net div 2 ^ (8 * Suc l - n) = addr_num ip div 2 ^ (8 * Suc l - n)"
      using lead_split [OF d(3) small(2) small(1), of "unat c" "unat b"] ip net p d(1) by simp
    finally show ?thesis .
  next
    case False
    then have d: "8 * Suc l - n = 8 * l + (8 - n)" by simp
    have head: "addr_num (x # xs) div 2 ^ (8 * Suc l - n) = unat x div 2 ^ (8 - n)"
      if "addr_num xs < 2 ^ (8 * l)" "length xs = l" for x and xs :: IP
    proof -
      have "addr_num (x # xs) div 2 ^ (8 * Suc l - n) = (unat x * 2 ^ (8 * l) + addr_num xs) div 2 ^ (8 * l) div 2 ^ (8 - n)"
        using that p unfolding d power_add div_mult2_eq by simp
      then show ?thesis using that(1) by simp
    qed
    have "mask_bytes net (CIDRMask (Suc l) n) = mask_bytes ip (CIDRMask (Suc l) n)
        \<longleftrightarrow> c AND NOT (drop_bit n 0xff) = b AND NOT (drop_bit n 0xff)"
      using False ip net by (simp add: mask_bytes_zero)
    also have "\<dots> \<longleftrightarrow> addr_num net div 2 ^ (8 * Suc l - n) = addr_num ip div 2 ^ (8 * Suc l - n)"
      using mask_byte [of n c b] False head [OF small(2) net(2), of c] head [OF small(1) ip(2), of b] ip net by simp
    finally show ?thesis .
  qed
qed

text \<open>The bytes that are compared, and containment in a network given by an address and a prefix length.\<close>

lemma Contains_by_number:
  assumes "length a = l" "l = 4 \<or> l = 16 \<and> To4 a = None" "k \<le> 8 * l"
  shows "Contains \<lparr>net_IP = a, net_Mask = CIDRMask l k\<rparr> ip \<longleftrightarrow> length (canonical ip) = l
     \<and> addr_num (canonical ip) div 2 ^ (8 * l - k) = addr_num a div 2 ^ (8 * l - k)"
proof -
  have "networkNumberAndMask \<lparr>net_IP = a, net_Mask = CIDRMask l k\<rparr> = (a, CIDRMask l k)"
    using assms by (auto simp: networkNumberAndMask_def To4_def)
  then show ?thesis using assms masked_equal [of "canonical ip" l a k] by (auto simp: Contains_def Let_def)
qed

end
