(* ===== verification/Target_Safety.thy ===== *)
theory Target_Safety
  imports Go_Net
begin

text \<open>
  What keeps the load away from hosts it must not reach: the validator of target URLs
  (\<^verbatim>\<open>internal/validation/ssrf_validator.go\<close>), the validator of resolved addresses with its cache
  (\<^verbatim>\<open>dns_validator.go\<close>), and, when a connection is made, the dialer and the check of redirects
  (\<^verbatim>\<open>internal/transport/streamable_http.go\<close>). A report is passed and returned. The resolver is a
  parameter of the dialer; a dial is given by the address and port that \<^verbatim>\<open>net.Dialer\<close> is called with.
\<close>

section \<open>Decoded JSON\<close>

text \<open>
  A document decoded into \<^verbatim>\<open>map[string]interface{}\<close>: the last member of a name counts, and a null
  leaves the map nil. A type assertion with \<^verbatim>\<open>ok\<close> is an option; every number is a \<^verbatim>\<open>float64\<close>,
  modelled as a real number.
\<close>

type_synonym document = "(string, json) gomap"

definition decode_map :: "raw_config \<Rightarrow> document option" where
  "decode_map data = Unmarshal (dec_map JNull dec_any) [] data"

definition members :: "(string \<times> json) list \<Rightarrow> document" where
  "members kvs = fold (\<lambda>(k, v). map_put k v) kvs []"

fun as_map :: "json \<Rightarrow> document option" where
  "as_map (JObj kvs) = Some (members kvs)"
| "as_map _ = None"

fun as_slice :: "json \<Rightarrow> json list option" where
  "as_slice (JArr js) = Some js"
| "as_slice _ = None"

fun as_string :: "json \<Rightarrow> string option" where
  "as_string (JStr s) = Some s"
| "as_string _ = None"

fun as_float :: "json \<Rightarrow> real option" where
  "as_float (JInt i) = Some (real_of_int i)"
| "as_float (JNum x) = Some x"
| "as_float _ = None"

fun as_bool :: "json \<Rightarrow> bool option" where
  "as_bool (JBool b) = Some b"
| "as_bool _ = None"

definition lookup_as :: "(json \<Rightarrow> 'a option) \<Rightarrow> document \<Rightarrow> string \<Rightarrow> 'a option" where
  "lookup_as as m k = Option.bind (map_get m k) as"

section \<open>Reports\<close>

datatype ValidationLevel = LevelError | LevelWarning

record ValidationIssue =
  vi_Level :: ValidationLevel
  vi_Code :: string
  vi_Message :: string
  vi_JSONPointer :: string
  vi_Remediation :: string

record ValidationReport =
  vr_OK :: bool
  vr_Errors :: "ValidationIssue list"
  vr_Warnings :: "ValidationIssue list"

definition NewValidationReport :: ValidationReport where
  "NewValidationReport = \<lparr>vr_OK = True, vr_Errors = [], vr_Warnings = []\<rparr>"

definition AddErrorWithRemediation :: "string \<Rightarrow> string \<Rightarrow> string \<Rightarrow> string \<Rightarrow> ValidationReport \<Rightarrow> ValidationReport" where
  "AddErrorWithRemediation code message jsonPointer remediation r =
     r\<lparr>vr_OK := False, vr_Errors := vr_Errors r @
       [\<lparr>vi_Level = LevelError, vi_Code = code, vi_Message = message, vi_JSONPointer = jsonPointer,
         vi_Remediation = remediation\<rparr>]\<rparr>"

definition AddError :: "string \<Rightarrow> string \<Rightarrow> string \<Rightarrow> ValidationReport \<Rightarrow> ValidationReport" where
  "AddError code message jsonPointer r =
     r\<lparr>vr_OK := False, vr_Errors := vr_Errors r @
       [\<lparr>vi_Level = LevelError, vi_Code = code, vi_Message = message, vi_JSONPointer = jsonPointer,
         vi_Remediation = []\<rparr>]\<rparr>"

definition AddWarning :: "string \<Rightarrow> string \<Rightarrow> string \<Rightarrow> ValidationReport \<Rightarrow> ValidationReport" where
  "AddWarning code message jsonPointer r =
     r\<lparr>vr_Warnings := vr_Warnings r @
       [\<lparr>vi_Level = LevelWarning, vi_Code = code, vi_Message = message, vi_JSONPointer = jsonPointer,
         vi_Remediation = []\<rparr>]\<rparr>"

definition Merge :: "ValidationReport \<Rightarrow> ValidationReport \<Rightarrow> ValidationReport" where
  "Merge r other =
     r\<lparr>vr_OK := vr_OK r \<and> vr_OK other, vr_Errors := vr_Errors r @ vr_Errors other,
       vr_Warnings := vr_Warnings r @ vr_Warnings other\<rparr>"

definition HasErrors :: "ValidationReport \<Rightarrow> bool" where
  "HasErrors r \<longleftrightarrow> vr_Errors r \<noteq> []"

definition HasWarnings :: "ValidationReport \<Rightarrow> bool" where
  "HasWarnings r \<longleftrightarrow> vr_Warnings r \<noteq> []"

section \<open>Target URLs\<close>

record SSRFValidator =
  sv_allowPrivateNetworks :: "string list"
  sv_allowedPrivateRanges :: "IPNet list"

text \<open>The networks of the texts that parse, in order.\<close>

definition networks :: "string list \<Rightarrow> IPNet list" where
  "networks cidrs = List.map_filter ParseCIDR cidrs"

definition NewSSRFValidator :: "string list \<Rightarrow> SSRFValidator" where
  "NewSSRFValidator allow = \<lparr>sv_allowPrivateNetworks = allow, sv_allowedPrivateRanges = networks allow\<rparr>"

definition in_networks :: "IPNet list \<Rightarrow> IP \<Rightarrow> bool" where
  "in_networks ns ip \<longleftrightarrow> list_ex (\<lambda>n. Contains n ip) ns"

definition isPrivateNetworkAllowed :: "SSRFValidator \<Rightarrow> IP \<Rightarrow> bool" where
  "isPrivateNetworkAllowed v ip = in_networks (sv_allowedPrivateRanges v) ip"

definition isLoopbackAllowed :: "SSRFValidator \<Rightarrow> bool" where
  "isLoopbackAllowed v =
     (isPrivateNetworkAllowed v (v4InV6Prefix @ [127, 0, 0, 1]) \<or> isPrivateNetworkAllowed v IPv6loopback)"

definition validateScheme :: "URL \<Rightarrow> ValidationReport \<Rightarrow> ValidationReport" where
  "validateScheme parsed report =
     (let scheme = ToLower (url_Scheme parsed)
      in if scheme \<noteq> ''http'' \<and> scheme \<noteq> ''https''
         then AddErrorWithRemediation ''INVALID_URL_SCHEME'' ''Only HTTP and HTTPS schemes are allowed'' ''/target/url''
                ''Use https:// or http:// URL scheme'' report
         else report)"

definition validateUserInfo :: "URL \<Rightarrow> ValidationReport \<Rightarrow> ValidationReport" where
  "validateUserInfo parsed report =
     (if url_User parsed
      then AddErrorWithRemediation ''USERINFO_BLOCKED'' ''URLs with userinfo (user:pass@host) are not allowed'' ''/target/url''
             ''Remove credentials from URL and use auth configuration instead'' report
      else report)"

text \<open>A loop over a table of ranges: an error for each range that parses and contains the address.\<close>

definition check_ranges :: "(string \<times> string \<times> string) list \<Rightarrow> IP \<Rightarrow> ValidationReport \<Rightarrow> ValidationReport" where
  "check_ranges table ip report =
     fold (\<lambda>(range, code, msg) r.
         case ParseCIDR range of
           None \<Rightarrow> r
         | Some cidr \<Rightarrow> if Contains cidr ip then AddError code msg ''/target/url'' r else r) table report"

definition blockedRanges_v4 :: "(string \<times> string \<times> string) list" where
  "blockedRanges_v4 =
     [(''127.0.0.0/8'', ''LOOPBACK_BLOCKED'', ''Loopback range (127.0.0.0/8) is blocked''),
      (''169.254.0.0/16'', ''LINK_LOCAL_BLOCKED'', ''Link-local range (169.254.0.0/16) is blocked''),
      (''169.254.169.254/32'', ''METADATA_IP_BLOCKED'', ''Cloud metadata IP (169.254.169.254) is blocked''),
      (''100.100.100.200/32'', ''METADATA_IP_BLOCKED'', ''Alibaba Cloud metadata IP is blocked''),
      (''192.0.0.0/24'', ''PRIVATE_ADDRESS_BLOCKED'', ''IETF protocol assignments (192.0.0.0/24) are blocked''),
      (''0.0.0.0/8'', ''PRIVATE_ADDRESS_BLOCKED'', ''This network (0.0.0.0/8) is blocked'')]"

definition rfc1918Ranges :: "string list" where
  "rfc1918Ranges = [''10.0.0.0/8'', ''172.16.0.0/12'', ''192.168.0.0/16'']"

definition validateIPv4 :: "SSRFValidator \<Rightarrow> IP \<Rightarrow> ValidationReport \<Rightarrow> ValidationReport" where
  "validateIPv4 v ip report =
     fold (\<lambda>cidrStr r.
         case ParseCIDR cidrStr of
           None \<Rightarrow> r
         | Some cidr \<Rightarrow>
             if Contains cidr ip \<and> \<not> isPrivateNetworkAllowed v ip
             then AddErrorWithRemediation ''PRIVATE_ADDRESS_BLOCKED'' ''RFC 1918 private address is blocked by default''
                    ''/target/url'' ''Configure system_policy.allow_private_networks to allow specific private ranges'' r
             else r)
       rfc1918Ranges (check_ranges blockedRanges_v4 ip report)"

definition blockedRanges_v6 :: "(string \<times> string \<times> string) list" where
  "blockedRanges_v6 =
     [(''::1/128'', ''LOOPBACK_BLOCKED'', ''IPv6 loopback (::1) is blocked''),
      (''::/128'', ''PRIVATE_ADDRESS_BLOCKED'', ''IPv6 unspecified address (::) is blocked''),
      (''fc00::/7'', ''UNIQUE_LOCAL_BLOCKED'', ''IPv6 unique local addresses (fc00::/7) are blocked''),
      (''fe80::/10'', ''LINK_LOCAL_BLOCKED'', ''IPv6 link-local addresses (fe80::/10) are blocked''),
      (''ff00::/8'', ''MULTICAST_BLOCKED'', ''IPv6 multicast addresses (ff00::/8) are blocked''),
      (''::ffff:0:0/96'', ''IPV4_MAPPED_BLOCKED'', ''IPv4-mapped IPv6 addresses are blocked''),
      (''64:ff9b::/96'', ''NAT64_BLOCKED'', ''NAT64 addresses (64:ff9b::/96) are blocked''),
      (''2001:db8::/32'', ''DOCUMENTATION_IP_BLOCKED'', ''Documentation addresses (2001:db8::/32) are blocked'')]"

definition validateIPv6 :: "SSRFValidator \<Rightarrow> IP \<Rightarrow> ValidationReport \<Rightarrow> ValidationReport" where
  "validateIPv6 v ip report =
     (let r = check_ranges blockedRanges_v6 ip report
      in if length ip = 16 \<and> take 12 ip = v4InV6Prefix then validateIPv4 v (drop 12 ip) r else r)"

definition on_cond :: "bool \<Rightarrow> (ValidationReport \<Rightarrow> ValidationReport) \<Rightarrow> ValidationReport \<Rightarrow> ValidationReport" where
  "on_cond b f r = (if b then f r else r)"

definition validateIPAddress :: "SSRFValidator \<Rightarrow> IP \<Rightarrow> ValidationReport \<Rightarrow> ValidationReport" where
  "validateIPAddress v ip report =
     (if isPrivateNetworkAllowed v ip then report
      else
        let r1 = AddErrorWithRemediation ''IP_LITERAL_BLOCKED'' ''IP literal targets are not allowed'' ''/target/url''
                   ''Use a hostname instead of an IP address'' report;
            r2 = on_cond (IsLoopback ip)
                   (AddError ''LOOPBACK_BLOCKED'' ''Loopback addresses are blocked'' ''/target/url'') r1;
            r3 = on_cond (IsLinkLocalUnicast ip \<or> IsLinkLocalMulticast ip)
                   (AddError ''LINK_LOCAL_BLOCKED'' ''Link-local addresses are blocked'' ''/target/url'') r2;
            r4 = on_cond (IsMulticast ip)
                   (AddError ''MULTICAST_BLOCKED'' ''Multicast addresses are blocked'' ''/target/url'') r3
        in case To4 ip of Some ip4 \<Rightarrow> validateIPv4 v ip4 r4 | None \<Rightarrow> validateIPv6 v ip r4)"

definition localhostPatterns :: "string list" where
  "localhostPatterns = [''localhost'', ''localhost.localdomain'', ''local'']"

definition local_name :: "string \<Rightarrow> bool" where
  "local_name lowerHost \<longleftrightarrow>
     list_ex (\<lambda>pattern. lowerHost = pattern \<or> HasSuffix lowerHost (CHR ''.'' # pattern)) localhostPatterns"

definition validateHostname :: "SSRFValidator \<Rightarrow> string \<Rightarrow> ValidationReport \<Rightarrow> ValidationReport" where
  "validateHostname v host report =
     (let lowerHost = ToLower host
      in if local_name lowerHost then
           (if isLoopbackAllowed v then report
            else AddError ''LOCALHOST_BLOCKED'' ''Localhost hostnames are blocked'' ''/target/url'' report)
         else on_cond (HasSuffix lowerHost ''.internal'' \<or> HasSuffix lowerHost ''.local'' \<or> HasSuffix lowerHost ''.localhost'')
                (AddWarning ''LOCALHOST_BLOCKED'' ''Hostname appears to be a local/internal address'' ''/target/url'') report)"

definition validateHost :: "SSRFValidator \<Rightarrow> URL \<Rightarrow> ValidationReport \<Rightarrow> ValidationReport" where
  "validateHost v parsed report =
     (let host = Hostname parsed
      in if host = [] then AddError ''SCHEMA_VIOLATION'' ''URL must have a host'' ''/target/url'' report
         else case ParseIP host of
             Some ip \<Rightarrow> validateIPAddress v ip report
           | None \<Rightarrow> validateHostname v host report)"

definition validateURL :: "SSRFValidator \<Rightarrow> string \<Rightarrow> ValidationReport \<Rightarrow> ValidationReport" where
  "validateURL v urlStr report =
     (case Parse_url urlStr of
        None \<Rightarrow> AddError ''SCHEMA_VIOLATION'' ''Invalid URL format'' ''/target/url'' report
      | Some parsed \<Rightarrow> validateHost v parsed (validateUserInfo parsed (validateScheme parsed report)))"

definition ValidateRedirectTarget :: "SSRFValidator \<Rightarrow> string \<Rightarrow> ValidationReport \<Rightarrow> ValidationReport" where
  "ValidateRedirectTarget v targetURL report = validateURL v targetURL report"

definition Validate_ssrf :: "SSRFValidator \<Rightarrow> raw_config \<Rightarrow> ValidationReport" where
  "Validate_ssrf v data =
     (case decode_map data of
        None \<Rightarrow> AddError ''SCHEMA_VIOLATION'' ''Invalid JSON'' [] NewValidationReport
      | Some config \<Rightarrow>
          (case lookup_as as_map config ''target'' of
             None \<Rightarrow> NewValidationReport
           | Some target \<Rightarrow>
               (case lookup_as as_string target ''url'' of
                  None \<Rightarrow> NewValidationReport
                | Some urlStr \<Rightarrow>
                    if urlStr = [] then NewValidationReport else validateURL v urlStr NewValidationReport)))"

definition redirect_modes :: "string list" where
  "redirect_modes = [''deny'', ''same_origin'', ''allowlist_only'']"

definition ValidateRedirectPolicy :: "document \<Rightarrow> ValidationReport \<Rightarrow> ValidationReport" where
  "ValidateRedirectPolicy config report =
     (case lookup_as as_map config ''target'' of
        None \<Rightarrow> report
      | Some target \<Rightarrow>
          (case lookup_as as_map target ''redirect_policy'' of
             None \<Rightarrow> AddError ''REDIRECT_POLICY_REQUIRED'' ''redirect_policy must be explicitly configured''
                       ''/target/redirect_policy'' report
           | Some redirectPolicy \<Rightarrow>
               (case lookup_as as_string redirectPolicy ''mode'' of
                  None \<Rightarrow> AddError ''REDIRECT_POLICY_REQUIRED'' ''redirect_policy.mode must be set''
                            ''/target/redirect_policy/mode'' report
                | Some mode \<Rightarrow>
                    (let maxRedirects = (case lookup_as as_float redirectPolicy ''max_redirects'' of None \<Rightarrow> 0 | Some x \<Rightarrow> x)
                     in on_cond (maxRedirects > 3)
                          (AddError ''MAX_REDIRECTS_EXCEEDED'' ''max_redirects must not exceed 3''
                             ''/target/redirect_policy/max_redirects'')
                          (on_cond (mode \<notin> set redirect_modes)
                             (AddError ''SCHEMA_VIOLATION''
                                ''redirect_policy.mode must be one of: deny, same_origin, allowlist_only''
                                ''/target/redirect_policy/mode'') report)))))"

section \<open>Resolved addresses\<close>

record DNSRebindingValidator =
  dv_cache :: "(string, IP list) gomap"
  dv_ssrf :: SSRFValidator
  dv_blockedIPv4Ranges :: "IPNet list"
  dv_blockedIPv6Ranges :: "IPNet list"
  dv_rfc1918Ranges :: "IPNet list"

definition dns_blocked_v4 :: "string list" where
  "dns_blocked_v4 = [''127.0.0.0/8'', ''169.254.0.0/16'', ''169.254.169.254/32'', ''100.100.100.200/32'',
     ''192.0.0.0/24'', ''0.0.0.0/8'']"

definition blocked_v6 :: "string list" where
  "blocked_v6 = [''::1/128'', ''::/128'', ''fc00::/7'', ''fe80::/10'', ''ff00::/8'', ''::ffff:0:0/96'',
     ''64:ff9b::/96'', ''2001:db8::/32'']"

definition NewDNSRebindingValidator :: "string list \<Rightarrow> DNSRebindingValidator" where
  "NewDNSRebindingValidator allow =
     \<lparr>dv_cache = [], dv_ssrf = NewSSRFValidator allow, dv_blockedIPv4Ranges = networks dns_blocked_v4,
      dv_blockedIPv6Ranges = networks blocked_v6, dv_rfc1918Ranges = networks rfc1918Ranges\<rparr>"

definition dns_isIPBlocked :: "DNSRebindingValidator \<Rightarrow> IP \<Rightarrow> bool" where
  "dns_isIPBlocked v ip =
     (case To4 ip of
        Some ip4 \<Rightarrow>
          if in_networks (dv_blockedIPv4Ranges v) ip4 then True
          else if in_networks (dv_rfc1918Ranges v) ip4 then \<not> isPrivateNetworkAllowed (dv_ssrf v) ip4
          else False
      | None \<Rightarrow> in_networks (dv_blockedIPv6Ranges v) ip)"

text \<open>\<^verbatim>\<open>IP.String\<close> gives the same text for two addresses exactly when their canonical bytes are equal.\<close>

definition ipsMatch :: "IP list \<Rightarrow> IP list \<Rightarrow> bool" where
  "ipsMatch a b = (length a = length b \<and> list_all (\<lambda>ip. canonical ip \<in> set (map canonical a)) b)"

definition dns_error :: "string \<Rightarrow> ValidationReport" where
  "dns_error msg = AddError ''DNS_REBINDING_BLOCKED'' msg ''/target/url'' NewValidationReport"

definition Store :: "string \<Rightarrow> IP list \<Rightarrow> DNSRebindingValidator \<Rightarrow> DNSRebindingValidator" where
  "Store hostname ips v = v\<lparr>dv_cache := map_put hostname ips (dv_cache v)\<rparr>"

definition ClearCache :: "DNSRebindingValidator \<Rightarrow> DNSRebindingValidator" where
  "ClearCache v = v\<lparr>dv_cache := []\<rparr>"

definition ValidateResolvedIPs ::
  "string \<Rightarrow> IP list \<Rightarrow> DNSRebindingValidator \<Rightarrow> ValidationReport \<times> DNSRebindingValidator" where
  "ValidateResolvedIPs hostname ips v =
     (if list_ex (dns_isIPBlocked v) ips then (dns_error ''DNS resolution returned blocked IP address'', v)
      else
        case map_get (dv_cache v) hostname of
          Some cachedIPs \<Rightarrow>
            if \<not> ipsMatch cachedIPs ips \<and> list_ex (dns_isIPBlocked v) ips
            then (dns_error ''DNS rebinding detected: hostname resolved to blocked IP'', v)
            else (NewValidationReport, Store hostname ips v)
        | None \<Rightarrow> (NewValidationReport, Store hostname ips v))"

section \<open>Dialing\<close>

record safeDialer =
  sd_allowedPrivateRanges :: "IPNet list"
  sd_blockedIPv4Ranges :: "IPNet list"
  sd_blockedIPv6Ranges :: "IPNet list"

definition dialer_blocked_v4 :: "string list" where
  "dialer_blocked_v4 = [''127.0.0.0/8'', ''169.254.0.0/16'', ''169.254.169.254/32'', ''100.100.100.200/32'',
     ''192.0.0.0/24'', ''0.0.0.0/8'', ''10.0.0.0/8'', ''172.16.0.0/12'', ''192.168.0.0/16'']"

definition newSafeDialer :: "string list \<Rightarrow> safeDialer" where
  "newSafeDialer allow =
     \<lparr>sd_allowedPrivateRanges = networks allow, sd_blockedIPv4Ranges = networks dialer_blocked_v4,
      sd_blockedIPv6Ranges = networks blocked_v6\<rparr>"

definition dialer_isIPBlocked :: "safeDialer \<Rightarrow> IP \<Rightarrow> bool" where
  "dialer_isIPBlocked d ip =
     (if in_networks (sd_allowedPrivateRanges d) ip then False
      else case To4 ip of
          Some ip4 \<Rightarrow> in_networks (sd_blockedIPv4Ranges d) ip4
        | None \<Rightarrow> in_networks (sd_blockedIPv6Ranges d) ip)"

text \<open>\<^verbatim>\<open>net.SplitHostPort\<close>.\<close>

definition SplitHostPort :: "string \<Rightarrow> (string \<times> string) option" where
  "SplitHostPort s =
     (case cut_last (CHR '':'') s of
        None \<Rightarrow> None
      | Some (h, port) \<Rightarrow>
          if HasPrefix s ''['' then
            (let host = butlast (tl h)
             in if HasSuffix (tl h) '']'' \<and> list_all (\<lambda>c. c \<notin> set ''[]'') (host @ port) then Some (host, port) else None)
          else if CHR '':'' \<in> set h \<or> list_ex (\<lambda>c. c \<in> set ''[]'') s then None
          else Some (h, port))"

datatype dial_result = InvalidAddress | LookupFailed | BlockedIP IP | DialPanic | Dial IP string

definition DialContext :: "(string \<Rightarrow> IP list option) \<Rightarrow> safeDialer \<Rightarrow> string \<Rightarrow> dial_result" where
  "DialContext LookupIP d address =
     (case SplitHostPort address of
        None \<Rightarrow> InvalidAddress
      | Some (host, port) \<Rightarrow>
          (case LookupIP host of
             None \<Rightarrow> LookupFailed
           | Some ips \<Rightarrow>
               (case find (dialer_isIPBlocked d) ips of
                  Some ip \<Rightarrow> BlockedIP ip
                | None \<Rightarrow> (case ips of [] \<Rightarrow> DialPanic | ip # _ \<Rightarrow> Dial ip port))))"

section \<open>Redirects\<close>

record redirect_policy =
  trp_Mode :: string
  trp_MaxRedirects :: int
  trp_Allowlist :: "string list"

definition allowed_hostname :: "string \<Rightarrow> string" where
  "allowed_hostname allowed =
     (case Parse_url allowed of
        Some u \<Rightarrow> if url_Host u \<noteq> [] then ToLower (Hostname u) else ToLower allowed
      | None \<Rightarrow> ToLower allowed)"

text \<open>Whether the redirect to \<open>req\<close> is followed after \<open>via\<close> requests; if not, the last response is used.\<close>

definition buildCheckRedirect :: "redirect_policy option \<Rightarrow> string \<Rightarrow> URL \<Rightarrow> nat \<Rightarrow> bool" where
  "buildCheckRedirect policy endpoint req via =
     (case policy of
        None \<Rightarrow> False
      | Some p \<Rightarrow>
          if trp_Mode p = [] \<or> trp_Mode p = ''deny'' then False
          else
            let maxRedirects = (if trp_MaxRedirects p \<le> 0 then 0 else if trp_MaxRedirects p > 3 then 3 else trp_MaxRedirects p);
                (originalHostname, originalScheme) =
                  (case Parse_url endpoint of
                     Some u \<Rightarrow> (ToLower (Hostname u), ToLower (url_Scheme u)) | None \<Rightarrow> ([], []));
                redirectHostname = ToLower (Hostname req)
            in if int via > maxRedirects then False
               else if originalScheme = ''https'' \<and> ToLower (url_Scheme req) = ''http'' then False
               else if trp_Mode p = ''same_origin'' then redirectHostname = originalHostname
               else if trp_Mode p = ''allowlist_only'' then
                 list_ex (\<lambda>allowed. let allowedHostname = allowed_hostname allowed
                      in redirectHostname = allowedHostname \<or> HasSuffix redirectHostname (CHR ''.'' # allowedHostname))
                   (trp_Allowlist p)
               else False)"

text \<open>\<^verbatim>\<open>http.Client\<close> asks before each redirect, with the requests made so far: the requests that are sent
  when the responses redirect to \<open>urls\<close> in turn.\<close>

fun follow :: "redirect_policy option \<Rightarrow> string \<Rightarrow> nat \<Rightarrow> URL list \<Rightarrow> URL list" where
  "follow p endpoint via [] = []"
| "follow p endpoint via (u # us) =
     (if buildCheckRedirect p endpoint u via then u # follow p endpoint (Suc via) us else [])"

section \<open>Blocked addresses by number\<close>

text \<open>The addresses the dialer blocks, by their numbers: four-byte ones and sixteen-byte ones.\<close>

definition blocked4 :: "nat \<Rightarrow> bool" where
  "blocked4 n \<longleftrightarrow> n div 2 ^ 24 \<in> {0, 10, 127} \<or> n div 2 ^ 20 = 172 * 16 + 1
     \<or> n div 2 ^ 16 \<in> {169 * 256 + 254, 192 * 256 + 168} \<or> n div 2 ^ 8 = 192 * 65536
     \<or> n = ((100 * 256 + 100) * 256 + 100) * 256 + 200"

definition blocked6 :: "nat \<Rightarrow> bool" where
  "blocked6 n \<longleftrightarrow> n \<le> 1 \<or> n div 2 ^ 121 = 0xfc div 2 \<or> n div 2 ^ 118 = 0xfe80 div 2 ^ 6 \<or> n div 2 ^ 120 = 0xff
     \<or> n div 2 ^ 32 = 0x0064ff9b * 2 ^ 64 \<or> n div 2 ^ 96 = 0x20010db8"

definition blocked_address :: "IP \<Rightarrow> bool" where
  "blocked_address ip \<longleftrightarrow>
     (let c = canonical ip
      in (length c = 4 \<and> blocked4 (addr_num c)) \<or> (length c = 16 \<and> blocked6 (addr_num c)))"

lemma networks_v4:
  "networks dialer_blocked_v4 =
     [\<lparr>net_IP = [127, 0, 0, 0], net_Mask = CIDRMask 4 8\<rparr>, \<lparr>net_IP = [169, 254, 0, 0], net_Mask = CIDRMask 4 16\<rparr>,
      \<lparr>net_IP = [169, 254, 169, 254], net_Mask = CIDRMask 4 32\<rparr>, \<lparr>net_IP = [100, 100, 100, 200], net_Mask = CIDRMask 4 32\<rparr>,
      \<lparr>net_IP = [192, 0, 0, 0], net_Mask = CIDRMask 4 24\<rparr>, \<lparr>net_IP = [0, 0, 0, 0], net_Mask = CIDRMask 4 8\<rparr>,
      \<lparr>net_IP = [10, 0, 0, 0], net_Mask = CIDRMask 4 8\<rparr>, \<lparr>net_IP = [172, 16, 0, 0], net_Mask = CIDRMask 4 12\<rparr>,
      \<lparr>net_IP = [192, 168, 0, 0], net_Mask = CIDRMask 4 16\<rparr>]"
  by code_simp

lemma networks_v6:
  "networks blocked_v6 =
     [\<lparr>net_IP = replicate 15 0 @ [1], net_Mask = CIDRMask 16 128\<rparr>, \<lparr>net_IP = replicate 16 0, net_Mask = CIDRMask 16 128\<rparr>,
      \<lparr>net_IP = 0xfc # replicate 15 0, net_Mask = CIDRMask 16 7\<rparr>, \<lparr>net_IP = 0xfe # 0x80 # replicate 14 0, net_Mask = CIDRMask 16 10\<rparr>,
      \<lparr>net_IP = 0xff # replicate 15 0, net_Mask = CIDRMask 16 8\<rparr>,
      \<lparr>net_IP = v4InV6Prefix @ replicate 4 0, net_Mask = CIDRMask 16 96\<rparr>,
      \<lparr>net_IP = [0, 0x64, 0xff, 0x9b] @ replicate 12 0, net_Mask = CIDRMask 16 96\<rparr>,
      \<lparr>net_IP = [0x20, 0x01, 0x0d, 0xb8] @ replicate 12 0, net_Mask = CIDRMask 16 32\<rparr>]"
  by code_simp

lemma To4_length: "To4 ip = Some x \<Longrightarrow> length x = 4"
  by (auto simp: To4_def split: if_splits)

lemma canonical_4 [simp]: "length ip = 4 \<Longrightarrow> canonical ip = ip"
  by (simp add: canonical_def To4_def)

lemma canonical_To4: "To4 ip = Some x \<Longrightarrow> canonical ip = x" "To4 ip = None \<Longrightarrow> canonical ip = ip"
  by (simp_all add: canonical_def)

lemma Contains_canonical: "Contains n (canonical ip) = Contains n ip"
  by (cases "To4 ip") (simp_all add: Contains_def canonical_To4 To4_length)

lemma Contains_length: "Contains n ip \<Longrightarrow> length (canonical ip) = length (fst (networkNumberAndMask n))"
  by (simp add: Contains_def Let_def case_prod_unfold)

lemma in_networks_canonical: "in_networks ns (canonical ip) = in_networks ns ip"
  by (simp add: in_networks_def Contains_canonical)

lemma in_v4: "length ip = 4 \<Longrightarrow> in_networks (networks dialer_blocked_v4) ip = blocked4 (addr_num ip)"
  unfolding networks_v4 in_networks_def blocked4_def
  by (simp add: Contains_by_number) auto

text \<open>The entry for IPv4-mapped addresses never matches: the network is kept in its four-byte form.\<close>

lemma mapped_never:
  assumes "length ip = 16" "To4 ip = None"
  shows "\<not> Contains \<lparr>net_IP = v4InV6Prefix @ replicate 4 0, net_Mask = CIDRMask 16 96\<rparr> ip"
proof -
  have "To4 (v4InV6Prefix @ replicate 4 0) = Some (replicate 4 0)" by (simp add: To4_def v4InV6Prefix_def)
  then show ?thesis using assms by (simp add: Contains_def networkNumberAndMask_def canonical_To4 Let_def)
qed

lemma Contains_v6:
  assumes "length ip = 16" "To4 ip = None" "length a = 16" "take 12 a \<noteq> v4InV6Prefix" "k \<le> 128"
  shows "Contains \<lparr>net_IP = a, net_Mask = CIDRMask 16 k\<rparr> ip \<longleftrightarrow> addr_num ip div 2 ^ (128 - k) = addr_num a div 2 ^ (128 - k)"
  using Contains_by_number [of a 16 k ip] assms by (simp add: canonical_To4 To4_def [of a])

lemma in_v6:
  assumes "length ip = 16" "To4 ip = None"
  shows "in_networks (networks blocked_v6) ip = blocked6 (addr_num ip)"
proof -
  have t: "take 12 (replicate 15 0 @ [1]) \<noteq> v4InV6Prefix" "take 12 (replicate 16 0) \<noteq> v4InV6Prefix"
    "take 12 (0xfc # replicate 15 0) \<noteq> v4InV6Prefix" "take 12 (0xfe # 0x80 # replicate 14 0) \<noteq> v4InV6Prefix"
    "take 12 (0xff # replicate 15 0) \<noteq> v4InV6Prefix" "take 12 ([0, 0x64, 0xff, 0x9b] @ replicate 12 0) \<noteq> v4InV6Prefix"
    "take 12 ([0x20, 0x01, 0x0d, 0xb8] @ replicate 12 0) \<noteq> v4InV6Prefix" by code_simp+
  note c = Contains_v6 [OF assms]
  have 1: "addr_num ip = 1 \<or> addr_num ip = 0 \<longleftrightarrow> addr_num ip \<le> 1" by auto
  have n: "Contains \<lparr>net_IP = replicate 15 0 @ [1], net_Mask = CIDRMask 16 128\<rparr> ip \<longleftrightarrow> addr_num ip = 1"
    "Contains \<lparr>net_IP = replicate 16 0, net_Mask = CIDRMask 16 128\<rparr> ip \<longleftrightarrow> addr_num ip = 0"
    "Contains \<lparr>net_IP = 0xfc # replicate 15 0, net_Mask = CIDRMask 16 7\<rparr> ip \<longleftrightarrow> addr_num ip div 2 ^ 121 = 0xfc div 2"
    "Contains \<lparr>net_IP = 0xfe # 0x80 # replicate 14 0, net_Mask = CIDRMask 16 10\<rparr> ip \<longleftrightarrow> addr_num ip div 2 ^ 118 = 0xfe80 div 2 ^ 6"
    "Contains \<lparr>net_IP = 0xff # replicate 15 0, net_Mask = CIDRMask 16 8\<rparr> ip \<longleftrightarrow> addr_num ip div 2 ^ 120 = 0xff"
    "Contains \<lparr>net_IP = [0, 0x64, 0xff, 0x9b] @ replicate 12 0, net_Mask = CIDRMask 16 96\<rparr> ip
       \<longleftrightarrow> addr_num ip div 2 ^ 32 = 0x0064ff9b * 2 ^ 64"
    "Contains \<lparr>net_IP = [0x20, 0x01, 0x0d, 0xb8] @ replicate 12 0, net_Mask = CIDRMask 16 32\<rparr> ip
       \<longleftrightarrow> addr_num ip div 2 ^ 96 = 0x20010db8"
    using c [OF _ t(1), of 128] c [OF _ t(2), of 128] c [OF _ t(3), of 7] c [OF _ t(4), of 10] c [OF _ t(5), of 8]
      c [OF _ t(6), of 96] c [OF _ t(7), of 32] by simp_all
  show ?thesis
    unfolding networks_v6 in_networks_def blocked6_def list_ex_iff list.set bex_simps n 1 [symmetric]
    using mapped_never [OF assms] by auto
qed

lemma dialer_blocks: "dialer_isIPBlocked (newSafeDialer allow) ip \<longleftrightarrow> \<not> in_networks (networks allow) ip \<and> blocked_address ip"
proof (cases "To4 ip")
  case (Some x)
  then show ?thesis using in_v4 [OF To4_length [OF Some]] To4_length [OF Some]
    by (simp add: dialer_isIPBlocked_def newSafeDialer_def blocked_address_def canonical_To4)
next
  case None
  have "list_all (\<lambda>n. length (fst (networkNumberAndMask n)) \<in> {4, 16}) (networks blocked_v6)" by code_simp
  then have "length ip = 16" if "in_networks (networks blocked_v6) ip"
    using that None Contains_length [of _ ip]
    by (fastforce simp: in_networks_def list_ex_iff list_all_iff canonical_To4 To4_def split: if_splits)
  then show ?thesis using None in_v6 [of ip]
    by (auto simp: dialer_isIPBlocked_def newSafeDialer_def blocked_address_def canonical_To4 To4_def Let_def split: if_splits)
qed

lemma networks_append: "networks (a @ b) = networks a @ networks b"
  by (simp add: networks_def List.map_filter_def)

lemma in_networks_append: "in_networks (a @ b) ip \<longleftrightarrow> in_networks a ip \<or> in_networks b ip"
  by (simp add: in_networks_def)

lemma dialer_ranges: "dialer_blocked_v4 = dns_blocked_v4 @ rfc1918Ranges"
  by (simp add: dialer_blocked_v4_def dns_blocked_v4_def rfc1918Ranges_def)

text \<open>The ranges and the allowed networks of the address validator never change.\<close>

definition dns_config :: "string list \<Rightarrow> DNSRebindingValidator \<Rightarrow> bool" where
  "dns_config allow v \<longleftrightarrow> v\<lparr>dv_cache := []\<rparr> = NewDNSRebindingValidator allow"

lemma dns_config_fields:
  assumes "dns_config allow v"
  shows "dv_ssrf v = NewSSRFValidator allow" "dv_blockedIPv4Ranges v = networks dns_blocked_v4"
    "dv_blockedIPv6Ranges v = networks blocked_v6" "dv_rfc1918Ranges v = networks rfc1918Ranges"
proof -
  have "dv_ssrf (v\<lparr>dv_cache := []\<rparr>) = NewSSRFValidator allow" "dv_blockedIPv4Ranges (v\<lparr>dv_cache := []\<rparr>) = networks dns_blocked_v4"
    "dv_blockedIPv6Ranges (v\<lparr>dv_cache := []\<rparr>) = networks blocked_v6" "dv_rfc1918Ranges (v\<lparr>dv_cache := []\<rparr>) = networks rfc1918Ranges"
    using assms unfolding dns_config_def by (simp_all only:) (simp_all add: NewDNSRebindingValidator_def)
  then show "dv_ssrf v = NewSSRFValidator allow" "dv_blockedIPv4Ranges v = networks dns_blocked_v4"
    "dv_blockedIPv6Ranges v = networks blocked_v6" "dv_rfc1918Ranges v = networks rfc1918Ranges" by simp_all
qed

text \<open>Its verdict is stricter than that of the dialer: an allowed network opens the private ranges only.\<close>

lemma dns_blocks:
  assumes "dns_config allow v" "dialer_isIPBlocked (newSafeDialer allow) ip"
  shows "dns_isIPBlocked v ip"
  using assms(2) in_networks_canonical [of "networks allow" ip] dns_config_fields [OF assms(1)]
  by (auto simp: dialer_isIPBlocked_def dns_isIPBlocked_def newSafeDialer_def dialer_ranges networks_append
      in_networks_append isPrivateNetworkAllowed_def NewSSRFValidator_def canonical_To4 split: option.splits if_splits)

lemma dns_blocks_blocked:
  assumes "dns_config allow v" "dns_isIPBlocked v ip"
  shows "blocked_address ip"
proof -
  have "networks [] = []" by (simp add: networks_def List.map_filter_def)
  then have "dialer_isIPBlocked (newSafeDialer []) ip"
    using assms(2) dns_config_fields [OF assms(1)]
    by (auto simp: dialer_isIPBlocked_def dns_isIPBlocked_def newSafeDialer_def dialer_ranges networks_append
        in_networks_append in_networks_def split: option.splits if_splits)
  then show ?thesis by (simp add: dialer_blocks)
qed

datatype dns_op = Resolved string "IP list" | Clear

fun dns_do :: "dns_op \<Rightarrow> DNSRebindingValidator \<Rightarrow> DNSRebindingValidator" where
  "dns_do (Resolved h ips) v = snd (ValidateResolvedIPs h ips v)"
| "dns_do Clear v = ClearCache v"

lemma ValidateResolvedIPs_eq:
  "ValidateResolvedIPs h ips v =
     (if list_ex (dns_isIPBlocked v) ips then (dns_error ''DNS resolution returned blocked IP address'', v)
      else (NewValidationReport, Store h ips v))"
  by (simp add: ValidateResolvedIPs_def split: option.split)

lemma dns_isIPBlocked_cache [simp]: "dns_isIPBlocked (v\<lparr>dv_cache := c\<rparr>) = dns_isIPBlocked v"
  by (rule ext) (simp add: dns_isIPBlocked_def split: option.split)

lemma dns_config_cache [simp]: "dns_config allow (v\<lparr>dv_cache := c\<rparr>) = dns_config allow v"
  by (simp add: dns_config_def)

definition cache_ok :: "string list \<Rightarrow> DNSRebindingValidator \<Rightarrow> bool" where
  "cache_ok allow v \<longleftrightarrow> dns_config allow v
     \<and> (\<forall>h ips. map_get (dv_cache v) h = Some ips \<longrightarrow> \<not> list_ex (dns_isIPBlocked v) ips)"

lemma cache_ok_do: "cache_ok allow v \<Longrightarrow> cache_ok allow (dns_do op v)"
  by (cases op) (auto simp: cache_ok_def ValidateResolvedIPs_eq Store_def ClearCache_def split: if_splits)

lemma cache_ok_run: "cache_ok allow v \<Longrightarrow> cache_ok allow (fold dns_do ops v)"
  by (induction ops arbitrary: v) (simp_all add: cache_ok_do)

section \<open>Verdicts\<close>

named_theorems ok_simps "when a step of a validation leaves the report good"

lemma ok_add [ok_simps]: "vr_OK NewValidationReport" "\<not> vr_OK (AddError c m p r)" "\<not> vr_OK (AddErrorWithRemediation c m p q r)"
  "vr_OK (AddWarning c m p r) = vr_OK r" "vr_OK (Merge r r') = (vr_OK r \<and> vr_OK r')"
  by (simp_all add: NewValidationReport_def AddError_def AddErrorWithRemediation_def AddWarning_def Merge_def)

lemma ok_cond: "vr_OK (on_cond b f r) = (if b then vr_OK (f r) else vr_OK r)"
  by (simp add: on_cond_def)

text \<open>A step never makes a bad report good again.\<close>

definition keeps_bad :: "(ValidationReport \<Rightarrow> ValidationReport) \<Rightarrow> bool" where
  "keeps_bad f \<longleftrightarrow> (\<forall>r. vr_OK (f r) \<longrightarrow> vr_OK r)"

lemma keeps_badI: "(\<And>r. vr_OK (f r) \<Longrightarrow> vr_OK r) \<Longrightarrow> keeps_bad f"
  by (simp add: keeps_bad_def)

lemma keeps_badD: "keeps_bad f \<Longrightarrow> vr_OK (f r) \<Longrightarrow> vr_OK r"
  by (simp add: keeps_bad_def)

lemma keeps_bad_comp: "keeps_bad f \<Longrightarrow> keeps_bad g \<Longrightarrow> keeps_bad (g \<circ> f)"
  by (rule keeps_badI) (metis comp_apply keeps_badD)

lemma keeps_bad_id: "keeps_bad id"
  by (simp add: keeps_bad_def)

lemma keeps_bad_fold: "(\<And>x. keeps_bad (f x)) \<Longrightarrow> keeps_bad (fold f xs)"
  by (induction xs) (simp_all add: keeps_bad_comp keeps_bad_id)

lemma keeps_bad_ranges: "keeps_bad (check_ranges table ip)"
  unfolding check_ranges_def by (intro keeps_bad_fold keeps_badI) (auto simp: ok_simps split: option.splits if_splits)

lemma keeps_bad_v4: "keeps_bad (validateIPv4 v ip)"
proof -
  have "keeps_bad (fold (\<lambda>cidrStr r. case ParseCIDR cidrStr of None \<Rightarrow> r
      | Some cidr \<Rightarrow> if Contains cidr ip \<and> \<not> isPrivateNetworkAllowed v ip
          then AddErrorWithRemediation ''PRIVATE_ADDRESS_BLOCKED'' ''RFC 1918 private address is blocked by default''
                 ''/target/url'' ''Configure system_policy.allow_private_networks to allow specific private ranges'' r
          else r) rfc1918Ranges)"
    by (intro keeps_bad_fold keeps_badI) (auto simp: ok_simps split: option.splits if_splits)
  then show ?thesis using keeps_bad_comp [OF keeps_bad_ranges [of blockedRanges_v4 ip]]
    unfolding validateIPv4_def comp_def by simp
qed

lemma keeps_bad_v6: "keeps_bad (validateIPv6 v ip)"
  by (rule keeps_badI)
    (auto simp: validateIPv6_def Let_def split: if_splits dest: keeps_badD [OF keeps_bad_ranges] keeps_badD [OF keeps_bad_v4])

lemma ok_address [ok_simps]: "vr_OK (validateIPAddress v ip r) \<longleftrightarrow> vr_OK r \<and> isPrivateNetworkAllowed v ip"
  by (auto simp: validateIPAddress_def Let_def ok_cond ok_simps split: option.splits if_splits
      dest!: keeps_badD [OF keeps_bad_v4] keeps_badD [OF keeps_bad_v6])

lemma ok_scheme [ok_simps]: "vr_OK (validateScheme u r) \<longleftrightarrow> vr_OK r \<and> ToLower (url_Scheme u) \<in> {''http'', ''https''}"
  by (simp add: validateScheme_def Let_def ok_simps)

lemma ok_user [ok_simps]: "vr_OK (validateUserInfo u r) \<longleftrightarrow> vr_OK r \<and> \<not> url_User u"
  by (simp add: validateUserInfo_def ok_simps)

lemma ok_hostname [ok_simps]: "vr_OK (validateHostname v h r) \<longleftrightarrow> vr_OK r \<and> (local_name (ToLower h) \<longrightarrow> isLoopbackAllowed v)"
  by (simp add: validateHostname_def Let_def ok_cond ok_simps)

lemma ok_url [ok_simps]:
  "vr_OK (validateURL v url r) \<longleftrightarrow> vr_OK r \<and> (\<exists>u. Parse_url url = Some u \<and> ToLower (url_Scheme u) \<in> {''http'', ''https''}
     \<and> \<not> url_User u \<and> Hostname u \<noteq> []
     \<and> (case ParseIP (Hostname u) of
           Some ip \<Rightarrow> isPrivateNetworkAllowed v ip
         | None \<Rightarrow> local_name (ToLower (Hostname u)) \<longrightarrow> isLoopbackAllowed v))"
  by (auto simp: validateURL_def validateHost_def Let_def ok_simps split: option.splits)

lemma no_networks: "\<not> isPrivateNetworkAllowed (NewSSRFValidator []) ip" "\<not> isLoopbackAllowed (NewSSRFValidator [])"
  by (simp_all add: isLoopbackAllowed_def isPrivateNetworkAllowed_def NewSSRFValidator_def networks_def in_networks_def
      List.map_filter_def)

text \<open>C38: the validator accepts a target URL exactly when it parses, its scheme is http or https, it names
  no user, and its host is a name that is not local, a local name while a loopback address is allowed, or
  an address inside an allowed network; when no network is allowed, no address and no local name is
  accepted. An address that is accepted here is never refused by the dialer with the same networks.\<close>

theorem ssrf_verdict:
  "let v = NewSSRFValidator allow; accepted = vr_OK (validateURL v url NewValidationReport)
   in (accepted \<longleftrightarrow>
      (\<exists>u. Parse_url url = Some u \<and> ToLower (url_Scheme u) \<in> {''http'', ''https''} \<and> \<not> url_User u \<and> Hostname u \<noteq> []
         \<and> (case ParseIP (Hostname u) of
               Some ip \<Rightarrow> in_networks (networks allow) ip
             | None \<Rightarrow> local_name (ToLower (Hostname u)) \<longrightarrow> isLoopbackAllowed v)))
    \<and> (allow = [] \<and> accepted \<longrightarrow>
         (\<exists>u. Parse_url url = Some u \<and> ParseIP (Hostname u) = None \<and> \<not> local_name (ToLower (Hostname u))))
    \<and> (accepted \<longrightarrow>
         (\<forall>u ip. Parse_url url = Some u \<and> ParseIP (Hostname u) = Some ip \<longrightarrow> \<not> dialer_isIPBlocked (newSafeDialer allow) ip))"
proof -
  let ?v = "NewSSRFValidator allow"
  let ?fine = "\<lambda>u. case ParseIP (Hostname u) of Some ip \<Rightarrow> in_networks (networks allow) ip
      | None \<Rightarrow> local_name (ToLower (Hostname u)) \<longrightarrow> isLoopbackAllowed ?v"
  have "isPrivateNetworkAllowed ?v = in_networks (networks allow)"
    by (simp add: isPrivateNetworkAllowed_def NewSSRFValidator_def fun_eq_iff)
  then have iff: "vr_OK (validateURL ?v url NewValidationReport) \<longleftrightarrow> (\<exists>u. Parse_url url = Some u
      \<and> ToLower (url_Scheme u) \<in> {''http'', ''https''} \<and> \<not> url_User u \<and> Hostname u \<noteq> [] \<and> ?fine u)"
    by (simp only: ok_url ok_add simp_thms)
  then have fine: "?fine u" if "vr_OK (validateURL ?v url NewValidationReport)" "Parse_url url = Some u" for u using that by auto
  have "ParseIP (Hostname u) = None \<and> \<not> local_name (ToLower (Hostname u))" if "?fine u" "allow = []" for u
    using that no_networks by (auto simp: networks_def in_networks_def List.map_filter_def split: option.splits)
  moreover have "\<not> dialer_isIPBlocked (newSafeDialer allow) ip" if "?fine u" "ParseIP (Hostname u) = Some ip" for u ip
    using that by (simp add: dialer_blocks)
  ultimately show ?thesis unfolding Let_def using iff fine by blast
qed

theorem ssrf_verdict_witness:
  "vr_OK (validateURL (NewSSRFValidator [''127.0.0.0/8'']) ''http://127.0.0.1:3000/mcp'' NewValidationReport)
    \<and> \<not> dialer_isIPBlocked (newSafeDialer [''127.0.0.0/8'']) (v4InV6Prefix @ [127, 0, 0, 1])"
proof -
  have ok: "vr_OK (validateURL (NewSSRFValidator [''127.0.0.0/8'']) ''http://127.0.0.1:3000/mcp'' NewValidationReport)" by code_simp
  have "Parse_url ''http://127.0.0.1:3000/mcp'' = Some \<lparr>url_Scheme = ''http'', url_User = False, url_Host = ''127.0.0.1:3000''\<rparr>
      \<and> ParseIP (Hostname \<lparr>url_Scheme = ''http'', url_User = False, url_Host = ''127.0.0.1:3000''\<rparr>) = Some (v4InV6Prefix @ [127, 0, 0, 1])"
    by code_simp
  then show ?thesis using ssrf_verdict [of "[''127.0.0.0/8'']" "''http://127.0.0.1:3000/mcp''"] ok unfolding Let_def by blast
qed

text \<open>C39: whatever addresses are resolved and whatever is dialed, the dialer opens a connection only to
  the first address the resolver gave for the host, and only when every address it gave is inside an
  allowed network or outside the blocked ranges (loopback, link-local, private, metadata, unique local,
  NAT64, documentation, given by their numbers); it does so whenever that holds. The addresses the
  validator of resolved addresses keeps are all of this kind.\<close>

theorem dialer_safe:
  "(DialContext LookupIP (newSafeDialer allow) address = Dial ip port \<longleftrightarrow>
      (\<exists>host ips. SplitHostPort address = Some (host, port) \<and> LookupIP host = Some ips \<and> ips \<noteq> [] \<and> ip = hd ips
         \<and> (\<forall>a \<in> set ips. in_networks (networks allow) a \<or> \<not> blocked_address a)))
    \<and> (map_get (dv_cache (fold dns_do ops (NewDNSRebindingValidator allow))) h = Some ips \<and> a \<in> set ips
         \<longrightarrow> in_networks (networks allow) a \<or> \<not> blocked_address a)"
proof
  let ?d = "newSafeDialer allow"
  have find: "find (dialer_isIPBlocked ?d) xs = None \<longleftrightarrow> (\<forall>a \<in> set xs. in_networks (networks allow) a \<or> \<not> blocked_address a)" for xs
    by (auto simp: find_None_iff dialer_blocks)
  show "DialContext LookupIP ?d address = Dial ip port \<longleftrightarrow>
      (\<exists>host ips. SplitHostPort address = Some (host, port) \<and> LookupIP host = Some ips \<and> ips \<noteq> [] \<and> ip = hd ips
         \<and> (\<forall>a \<in> set ips. in_networks (networks allow) a \<or> \<not> blocked_address a))"
    unfolding find [symmetric] by (auto simp: DialContext_def split: option.split list.split)
  let ?v = "fold dns_do ops (NewDNSRebindingValidator allow)"
  have "cache_ok allow (NewDNSRebindingValidator allow)" by (simp add: cache_ok_def dns_config_def NewDNSRebindingValidator_def)
  then have ok: "cache_ok allow ?v" by (rule cache_ok_run)
  show "map_get (dv_cache ?v) h = Some ips \<and> a \<in> set ips \<longrightarrow> in_networks (networks allow) a \<or> \<not> blocked_address a"
    using ok dns_blocks [of allow ?v a] unfolding cache_ok_def dialer_blocks list_ex_iff by blast
qed

theorem dialer_safe_witness:
  "DialContext (\<lambda>_. Some [[93, 184, 215, 14]]) (newSafeDialer []) ''example.com:443'' = Dial [93, 184, 215, 14] ''443''
    \<and> \<not> blocked_address [93, 184, 215, 14]"
proof -
  have dial: "DialContext (\<lambda>_. Some [[93, 184, 215, 14]]) (newSafeDialer []) ''example.com:443'' = Dial [93, 184, 215, 14] ''443''"
    by code_simp
  have cached: "map_get (dv_cache (fold dns_do [Resolved ''example.com'' [[93, 184, 215, 14]]] (NewDNSRebindingValidator []))) ''example.com''
      = Some [[93, 184, 215, 14]] \<and> [93, 184, 215, 14] \<in> set [[93, 184, 215, 14 :: 8 word]]" by code_simp
  have "\<not> in_networks (networks []) [93, 184, 215, 14]" by code_simp
  then show ?thesis using dial cached
    dialer_safe [of "\<lambda>_. Some [[93, 184, 215, 14]]" "[]" "''example.com:443''" "[93, 184, 215, 14]" "''443''"
      "[Resolved ''example.com'' [[93, 184, 215, 14]]]" "''example.com''" "[[93, 184, 215, 14]]" "[93, 184, 215, 14]"] by blast
qed

lemma follow_prefix: "prefix (follow p e via us) us"
  by (induction p e via us rule: follow.induct) auto

lemma follow_checked: "u \<in> set (follow p e via us) \<Longrightarrow> \<exists>k. buildCheckRedirect p e u k"
proof (induction us arbitrary: via)
  case (Cons v us)
  then show ?case by (cases "buildCheckRedirect p e v via"; cases "u = v") auto
qed simp

lemma check_via: "buildCheckRedirect (Some p) e u via \<Longrightarrow> int via \<le> max 0 (min 3 (trp_MaxRedirects p))"
  by (auto simp: buildCheckRedirect_def Let_def split: if_splits option.splits)

lemma follow_length: "int (length (follow (Some p) e via us)) \<le> max 0 (max 0 (min 3 (trp_MaxRedirects p)) + 1 - int via)"
proof (induction us arbitrary: via)
  case (Cons u us)
  show ?case using Cons [of "Suc via"] check_via [of p e u via] by auto
qed simp

lemma check_redirect:
  assumes "buildCheckRedirect (Some p) e u k" "Parse_url e = Some w"
  shows "ToLower (url_Scheme w) = ''https'' \<Longrightarrow> ToLower (url_Scheme u) \<noteq> ''http''"
    and "trp_Mode p = ''same_origin'' \<Longrightarrow> ToLower (Hostname u) = ToLower (Hostname w)"
    and "trp_Mode p = ''allowlist_only'' \<Longrightarrow> \<exists>a \<in> set (trp_Allowlist p). ToLower (Hostname u) = allowed_hostname a
             \<or> HasSuffix (ToLower (Hostname u)) (CHR ''.'' # allowed_hostname a)"
  using assms by (auto simp: buildCheckRedirect_def Let_def list_ex_iff split: if_splits)



end
