(* ===== verification/Config_Validator.thy ===== *)
theory Config_Validator
  imports Target_Safety
begin

text \<open>
  The semantic validator of run configurations (\<^verbatim>\<open>internal/validation/semantic_validator.go\<close>): what the
  schema cannot say about the stages, the workload, the caps, the allowlists, the secrets and the
  identification of a run. A validator carries the policy of the system, or none. Each check takes the
  decoded configuration and the report, and returns the report. The loop of \<^verbatim>\<open>wildcardMatch\<close> is
  shown to end and to decide the usual meaning of a pattern.
\<close>

section \<open>Policies\<close>

record AllowlistEntry =
  ae_Kind :: string
  ae_Value :: string

record HardCaps =
  hc_MaxVUs :: int
  hc_MaxRPS :: real
  hc_MaxConnections :: int
  hc_MaxDurationMs :: int
  hc_MaxInFlightPerVU :: int
  hc_MaxTelemetryQDepth :: int

record SystemPolicy =
  sp_AllowedSecretRefs :: "string list"
  sp_GlobalAllowlist :: "AllowlistEntry list"
  sp_GlobalHardCaps :: HardCaps
  sp_ForbiddenPatterns :: "string list"
  sp_RequireIdentification :: bool
  sp_AllowPrivateNetworks :: "string list"

definition DefaultSystemPolicy :: SystemPolicy where
  "DefaultSystemPolicy =
     \<lparr>sp_AllowedSecretRefs = [''env://MCPDRILL_*'', ''file:///run/secrets/mcpdrill/*''], sp_GlobalAllowlist = [],
      sp_GlobalHardCaps = \<lparr>hc_MaxVUs = 10000, hc_MaxRPS = 100000, hc_MaxConnections = 100000, hc_MaxDurationMs = 86400000,
        hc_MaxInFlightPerVU = 100, hc_MaxTelemetryQDepth = 1000000\<rparr>,
      sp_ForbiddenPatterns = [], sp_RequireIdentification = True, sp_AllowPrivateNetworks = []\<rparr>"

text \<open>A nil policy is \<open>None\<close>.\<close>

type_synonym policy = "SystemPolicy option"

text \<open>\<^verbatim>\<open>int(x)\<close> of a \<^verbatim>\<open>float64\<close> truncates; out of range, amd64 gives the least integer.\<close>

definition int_of_float :: "real \<Rightarrow> int" where
  "int_of_float x = (let t = (if 0 \<le> x then \<lfloor>x\<rfloor> else \<lceil>x\<rceil>) in if is_int64 t then t else - (2 ^ 63))"

section \<open>Stages\<close>

text \<open>\<^verbatim>\<open>strconv.Itoa\<close> in a pointer into the document.\<close>

definition stage_ptr :: "nat \<Rightarrow> string \<Rightarrow> string" where
  "stage_ptr i rest = ''/stages/'' @ dec i @ rest"

text \<open>A loop over the stages that skips the elements that are no objects.\<close>

definition for_stages :: "(nat \<Rightarrow> document \<Rightarrow> ValidationReport \<Rightarrow> ValidationReport) \<Rightarrow> json list \<Rightarrow> ValidationReport \<Rightarrow> ValidationReport" where
  "for_stages body stages report =
     fold (\<lambda>(i, s) r. case as_map s of None \<Rightarrow> r | Some stage \<Rightarrow> body i stage r) (enumerate 0 stages) report"

definition enabled :: "document \<Rightarrow> bool" where
  "enabled stage \<longleftrightarrow> lookup_as as_bool stage ''enabled'' = Some True"

definition str_of :: "document \<Rightarrow> string \<Rightarrow> string" where
  "str_of m k = (case lookup_as as_string m k of Some s \<Rightarrow> s | None \<Rightarrow> [])"

definition enabled_stages :: "json list \<Rightarrow> (nat \<times> document) list" where
  "enabled_stages stages =
     List.map_filter (\<lambda>(i, s). case as_map s of Some m \<Rightarrow> if enabled m then Some (i, m) else None | None \<Rightarrow> None)
       (enumerate 0 stages)"

definition stageIDPatternSemantic :: "string \<Rightarrow> bool" where
  "stageIDPatternSemantic s \<longleftrightarrow>
     prefix ''stg_'' s \<and> list_all is_hex (drop 4 s) \<and> 3 \<le> length s - 4 \<and> length s - 4 \<le> 81"

definition validateStageIDFormats :: "document \<Rightarrow> ValidationReport \<Rightarrow> ValidationReport" where
  "validateStageIDFormats config report =
     (case lookup_as as_slice config ''stages'' of
        None \<Rightarrow> report
      | Some stages \<Rightarrow>
          for_stages (\<lambda>i stage r.
              let stageID = str_of stage ''stage_id''
              in if stageID = [] then r
                 else on_cond (\<not> stageIDPatternSemantic stageID)
                        (AddErrorWithRemediation ''INVALID_ID_FORMAT'' ''stage_id must match pattern ^stg_[0-9a-f]{3,81}$''
                           (stage_ptr i ''/stage_id'') ''Use format: stg_<3-81 hex chars (0-9a-f)>'') r)
            stages report)"

definition validateStagesRequired :: "document \<Rightarrow> ValidationReport \<Rightarrow> ValidationReport" where
  "validateStagesRequired config report =
     (case lookup_as as_slice config ''stages'' of
        None \<Rightarrow> AddError ''STAGES_REQUIRED'' ''At least one stage must be defined'' ''/stages'' report
      | Some stages \<Rightarrow>
          if stages = [] then AddError ''STAGES_REQUIRED'' ''At least one stage must be defined'' ''/stages'' report
          else on_cond (\<not> list_ex (\<lambda>s. case as_map s of None \<Rightarrow> False | Some stage \<Rightarrow> enabled stage) stages)
                 (AddError ''STAGES_REQUIRED'' ''At least one stage must be enabled'' ''/stages'') report)"

definition has_stage :: "string \<Rightarrow> json list \<Rightarrow> bool" where
  "has_stage kind stages \<longleftrightarrow>
     list_ex (\<lambda>s. case as_map s of None \<Rightarrow> False | Some stage \<Rightarrow> enabled stage \<and> str_of stage ''stage'' = kind) stages"

definition validateRequiredStagesPresent :: "document \<Rightarrow> ValidationReport \<Rightarrow> ValidationReport" where
  "validateRequiredStagesPresent config report =
     (case lookup_as as_slice config ''stages'' of
        None \<Rightarrow> report
      | Some stages \<Rightarrow>
          on_cond (\<not> has_stage ''ramp'' stages)
            (AddError ''RAMP_REQUIRED'' ''Ramp stage must be enabled for MVP'' ''/stages'')
            (on_cond (\<not> has_stage ''baseline'' stages)
              (AddError ''BASELINE_REQUIRED'' ''Baseline stage must be enabled for MVP'' ''/stages'')
              (on_cond (\<not> has_stage ''preflight'' stages)
                (AddError ''PREFLIGHT_REQUIRED'' ''Preflight stage must be enabled for MVP'' ''/stages'') report)))"

definition validatePreflightFirst :: "document \<Rightarrow> ValidationReport \<Rightarrow> ValidationReport" where
  "validatePreflightFirst config report =
     (case lookup_as as_slice config ''stages'' of
        None \<Rightarrow> report
      | Some stages \<Rightarrow>
          (case enabled_stages stages of
             [] \<Rightarrow> report
           | (i, stage) # _ \<Rightarrow>
               on_cond (str_of stage ''stage'' \<noteq> ''preflight'')
                 (AddErrorWithRemediation ''PREFLIGHT_NOT_FIRST'' ''First enabled stage must be preflight'' (stage_ptr i [])
                    ''Move preflight stage to be the first enabled stage'') report))"

definition check_duration :: "nat \<Rightarrow> document \<Rightarrow> ValidationReport \<Rightarrow> ValidationReport" where
  "check_duration i stage r =
     (if \<not> enabled stage then r
      else case lookup_as as_float stage ''duration_ms'' of
          None \<Rightarrow> r
        | Some durationMs \<Rightarrow>
            on_cond (durationMs < 1000)
              (AddError ''DURATION_INVALID'' ''Enabled stages must have duration_ms >= 1000'' (stage_ptr i ''/duration_ms'')) r)"

definition validateDurationPositive :: "document \<Rightarrow> ValidationReport \<Rightarrow> ValidationReport" where
  "validateDurationPositive config report =
     (case lookup_as as_slice config ''stages'' of None \<Rightarrow> report | Some stages \<Rightarrow> for_stages check_duration stages report)"

text \<open>\<open>below_zero m k\<close>: the member is a negative number.\<close>

definition below_zero :: "document \<Rightarrow> string \<Rightarrow> bool" where
  "below_zero m k \<longleftrightarrow> (case lookup_as as_float m k of Some x \<Rightarrow> x < 0 | None \<Rightarrow> False)"

definition validateLoadNonnegative :: "document \<Rightarrow> ValidationReport \<Rightarrow> ValidationReport" where
  "validateLoadNonnegative config report =
     (case lookup_as as_slice config ''stages'' of
        None \<Rightarrow> report
      | Some stages \<Rightarrow>
          for_stages (\<lambda>i stage r.
              if \<not> enabled stage then r
              else case lookup_as as_map stage ''load'' of
                  None \<Rightarrow> r
                | Some load \<Rightarrow>
                    on_cond (below_zero load ''target_rps'')
                      (AddError ''LOAD_INVALID'' ''target_rps must be >= 0'' (stage_ptr i ''/load/target_rps''))
                      (on_cond (below_zero load ''target_vus'')
                        (AddError ''LOAD_INVALID'' ''target_vus must be >= 0'' (stage_ptr i ''/load/target_vus'')) r))
            stages report)"

section \<open>Workload\<close>

text \<open>The operations of the workload, under either name.\<close>

definition op_mix_of :: "document \<Rightarrow> json list option" where
  "op_mix_of workload =
     (case lookup_as as_slice workload ''operation_mix'' of
        Some ops \<Rightarrow> Some ops | None \<Rightarrow> lookup_as as_slice workload ''op_mix'')"

definition weight_of :: "json \<Rightarrow> real" where
  "weight_of op = (case as_map op of None \<Rightarrow> 0
     | Some m \<Rightarrow> (case lookup_as as_float m ''weight'' of Some w \<Rightarrow> w | None \<Rightarrow> 0))"

definition validateOperationMixNonempty :: "document \<Rightarrow> ValidationReport \<Rightarrow> ValidationReport" where
  "validateOperationMixNonempty config report =
     (case lookup_as as_map config ''workload'' of
        None \<Rightarrow> report
      | Some workload \<Rightarrow>
          (case op_mix_of workload of
             None \<Rightarrow> AddError ''OPERATION_MIX_EMPTY'' ''At least one operation must be defined in operation_mix or op_mix''
                       ''/workload/operation_mix'' report
           | Some opMix \<Rightarrow>
               if opMix = [] then
                 AddError ''OPERATION_MIX_EMPTY'' ''At least one operation must be defined in operation_mix or op_mix''
                   ''/workload/operation_mix'' report
               else on_cond (sum_list (map weight_of opMix) \<le> 0)
                      (AddError ''OPERATION_MIX_EMPTY'' ''Total weight of operations must be > 0''
                         ''/workload/operation_mix'') report))"

definition is_operation :: "string list \<Rightarrow> json \<Rightarrow> bool" where
  "is_operation names op \<longleftrightarrow>
     (case as_map op of None \<Rightarrow> False
      | Some m \<Rightarrow> (case lookup_as as_string m ''operation'' of Some s \<Rightarrow> s \<in> set names | None \<Rightarrow> False))"

definition validateToolsCallRequiresTools :: "document \<Rightarrow> ValidationReport \<Rightarrow> ValidationReport" where
  "validateToolsCallRequiresTools config report =
     (case lookup_as as_map config ''workload'' of
        None \<Rightarrow> report
      | Some workload \<Rightarrow>
          if \<not> (case op_mix_of workload of None \<Rightarrow> False
                  | Some opMix \<Rightarrow> list_ex (is_operation [''tools_call'', ''tools/call'']) opMix) then report
          else case lookup_as as_map workload ''tools'' of
              None \<Rightarrow> AddError ''TOOLS_CALL_REQUIRES_TEMPLATES'' ''tools_call operation requires tools.templates to be defined''
                        ''/workload/tools'' report
            | Some tools \<Rightarrow>
                on_cond (case lookup_as as_slice tools ''templates'' of None \<Rightarrow> True | Some ts \<Rightarrow> ts = [])
                  (AddError ''TOOLS_CALL_REQUIRES_TEMPLATES'' ''tools_call operation requires at least one tool template''
                     ''/workload/tools/templates'') report)"

text \<open>The loops that ask for a member of every operation of one kind.\<close>

definition require_member ::
  "string list \<Rightarrow> string \<Rightarrow> string \<Rightarrow> document \<Rightarrow> ValidationReport \<Rightarrow> ValidationReport" where
  "require_member names key msg config report =
     (case lookup_as as_map config ''workload'' of
        None \<Rightarrow> report
      | Some workload \<Rightarrow>
          (case op_mix_of workload of
             None \<Rightarrow> report
           | Some opMix \<Rightarrow>
               fold (\<lambda>(i, op) r.
                   on_cond (is_operation names op \<and> (case as_map op of Some m \<Rightarrow> str_of m key = [] | None \<Rightarrow> False))
                     (AddError ''REQUIRED_FIELD_MISSING'' msg (''/workload/operation_mix/'' @ dec i @ ''/'' @ key)) r)
                 (enumerate 0 opMix) report))"

definition validateResourcesReadRequiresURI :: "document \<Rightarrow> ValidationReport \<Rightarrow> ValidationReport" where
  "validateResourcesReadRequiresURI =
     require_member [''resources_read'', ''resources/read''] ''uri''
       (''resources_read operation requires '' @ [CHR 0x27] @ ''uri'' @ [CHR 0x27] @ '' field'')"

definition validatePromptsGetRequiresName :: "document \<Rightarrow> ValidationReport \<Rightarrow> ValidationReport" where
  "validatePromptsGetRequiresName =
     require_member [''prompts_get'', ''prompts/get''] ''prompt_name''
       (''prompts_get operation requires '' @ [CHR 0x27] @ ''prompt_name'' @ [CHR 0x27] @ '' field'')"

section \<open>Caps\<close>

definition not_positive :: "document \<Rightarrow> string \<Rightarrow> bool" where
  "not_positive m k \<longleftrightarrow> (case lookup_as as_float m k of None \<Rightarrow> True | Some x \<Rightarrow> x \<le> 0)"

definition validateCapsRequired :: "document \<Rightarrow> ValidationReport \<Rightarrow> ValidationReport" where
  "validateCapsRequired config report =
     (case lookup_as as_map config ''safety'' of
        None \<Rightarrow> AddError ''CAPS_REQUIRED'' ''safety section is required'' ''/safety'' report
      | Some safety \<Rightarrow>
          (case lookup_as as_map safety ''hard_caps'' of
             None \<Rightarrow> AddError ''CAPS_REQUIRED'' ''safety.hard_caps is required'' ''/safety/hard_caps'' report
           | Some hardCaps \<Rightarrow>
               on_cond (not_positive hardCaps ''max_duration_ms'')
                 (AddError ''CAPS_REQUIRED'' ''safety.hard_caps.max_duration_ms must be set and > 0''
                    ''/safety/hard_caps/max_duration_ms'')
                 (on_cond (not_positive hardCaps ''max_vus'')
                   (AddError ''CAPS_REQUIRED'' ''safety.hard_caps.max_vus must be set and > 0''
                      ''/safety/hard_caps/max_vus'') report)))"

definition hard_caps_of :: "document \<Rightarrow> document option" where
  "hard_caps_of config =
     (case lookup_as as_map config ''safety'' of None \<Rightarrow> None | Some safety \<Rightarrow> lookup_as as_map safety ''hard_caps'')"

definition validateCapsConsistent :: "document \<Rightarrow> ValidationReport \<Rightarrow> ValidationReport" where
  "validateCapsConsistent config report =
     (case (lookup_as as_map config ''workload'', hard_caps_of config) of
        (Some workload, Some hardCaps) \<Rightarrow>
          (case (lookup_as as_float workload ''in_flight_per_vu'', lookup_as as_float hardCaps ''max_in_flight_per_vu'') of
             (Some inFlightPerVU, Some maxInFlightPerVU) \<Rightarrow>
               on_cond (inFlightPerVU > maxInFlightPerVU)
                 (AddError ''CAPS_INCONSISTENT'' ''workload.in_flight_per_vu exceeds safety.hard_caps.max_in_flight_per_vu''
                    ''/workload/in_flight_per_vu'') report
           | _ \<Rightarrow> report)
      | _ \<Rightarrow> report)"

definition exceeds :: "document \<Rightarrow> string \<Rightarrow> (real \<Rightarrow> bool) \<Rightarrow> bool" where
  "exceeds m k over \<longleftrightarrow> (case lookup_as as_float m k of Some x \<Rightarrow> over x | None \<Rightarrow> False)"

definition validateCapsWithinSystemPolicy :: "policy \<Rightarrow> document \<Rightarrow> ValidationReport \<Rightarrow> ValidationReport" where
  "validateCapsWithinSystemPolicy policy config report =
     (case (policy, hard_caps_of config) of
        (Some sp, Some hardCaps) \<Rightarrow>
          (let caps = sp_GlobalHardCaps sp
           in on_cond (exceeds hardCaps ''max_duration_ms'' (\<lambda>x. int_of_float x > hc_MaxDurationMs caps))
                (AddError ''SYSTEM_POLICY_VIOLATION'' ''safety.hard_caps.max_duration_ms exceeds system policy limit''
                   ''/safety/hard_caps/max_duration_ms'')
                (on_cond (exceeds hardCaps ''max_rps'' (\<lambda>x. x > hc_MaxRPS caps))
                  (AddError ''SYSTEM_POLICY_VIOLATION'' ''safety.hard_caps.max_rps exceeds system policy limit''
                     ''/safety/hard_caps/max_rps'')
                  (on_cond (exceeds hardCaps ''max_vus'' (\<lambda>x. int_of_float x > hc_MaxVUs caps))
                    (AddError ''SYSTEM_POLICY_VIOLATION'' ''safety.hard_caps.max_vus exceeds system policy limit''
                       ''/safety/hard_caps/max_vus'') report)))
      | _ \<Rightarrow> report)"

section \<open>Targets\<close>

definition validateAllowlistRequired :: "document \<Rightarrow> ValidationReport \<Rightarrow> ValidationReport" where
  "validateAllowlistRequired config report =
     (case lookup_as as_map config ''environment'' of
        None \<Rightarrow> AddError ''ALLOWLIST_REQUIRED'' ''environment section is required'' ''/environment'' report
      | Some env \<Rightarrow>
          (case lookup_as as_map env ''allowlist'' of
             None \<Rightarrow> AddError ''ALLOWLIST_REQUIRED'' ''environment.allowlist is required'' ''/environment/allowlist'' report
           | Some allowlist \<Rightarrow>
               on_cond (lookup_as as_string allowlist ''mode'' \<noteq> Some ''deny_by_default'')
                 (AddError ''ALLOWLIST_REQUIRED''
                    (''environment.allowlist.mode must be '' @ [CHR 0x27] @ ''deny_by_default'' @ [CHR 0x27])
                    ''/environment/allowlist/mode'') report))"

definition extractHost :: "string \<Rightarrow> string" where
  "extractHost rawURL =
     (case Parse_url rawURL of
        None \<Rightarrow>
          (let r1 = trim_prefix ''http://'' (trim_prefix ''https://'' rawURL);
               r2 = fst (cut (CHR ''/'') r1); r3 = fst (cut (CHR '':'') r2)
           in ToLower r3)
      | Some parsed \<Rightarrow> ToLower (Hostname parsed))"

definition targetURLFromConfig :: "document \<Rightarrow> string option" where
  "targetURLFromConfig config =
     (case lookup_as as_map config ''target'' of
        None \<Rightarrow> None
      | Some target \<Rightarrow>
          (case lookup_as as_string target ''url'' of
             Some targetURL \<Rightarrow> if targetURL = [] then None else Some targetURL
           | None \<Rightarrow> None))"

definition targetHostFromConfig :: "document \<Rightarrow> string option" where
  "targetHostFromConfig config = map_option extractHost (targetURLFromConfig config)"

definition normalizeAllowlistSuffix :: "string \<Rightarrow> string" where
  "normalizeAllowlistSuffix value =
     (let suf = ToLower value in if HasPrefix suf ''.'' then suf else CHR ''.'' # suf)"

definition allowlistEntryMatchesHost :: "string \<Rightarrow> AllowlistEntry \<Rightarrow> bool" where
  "allowlistEntryMatchesHost targetHost entry =
     (let h = ToLower targetHost
      in if ae_Kind entry = ''exact'' then h = extractHost (ae_Value entry)
         else if ae_Kind entry = ''suffix'' then
           (let suf = normalizeAllowlistSuffix (ae_Value entry) in h = trim_prefix ''.'' suf \<or> HasSuffix h suf)
         else False)"

definition allowlistMatchesHost :: "string \<Rightarrow> AllowlistEntry list \<Rightarrow> bool" where
  "allowlistMatchesHost targetHost allowlist = list_ex (allowlistEntryMatchesHost targetHost) allowlist"

definition validateTargetWithinSystemAllowlist :: "policy \<Rightarrow> document \<Rightarrow> ValidationReport \<Rightarrow> ValidationReport" where
  "validateTargetWithinSystemAllowlist policy config report =
     (case policy of
        None \<Rightarrow> report
      | Some sp \<Rightarrow>
          if sp_GlobalAllowlist sp = [] then report
          else case targetHostFromConfig config of
              None \<Rightarrow> report
            | Some targetHost \<Rightarrow>
                on_cond (\<not> allowlistMatchesHost targetHost (sp_GlobalAllowlist sp))
                  (AddError ''ALLOWLIST_VIOLATION'' ''Target URL does not match system policy global allowlist'' ''/target/url'')
                  report)"

definition entry_of :: "json \<Rightarrow> AllowlistEntry option" where
  "entry_of e =
     (case as_map e of
        None \<Rightarrow> None
      | Some entry \<Rightarrow>
          (let kind = str_of entry ''kind''; value = str_of entry ''value''
           in if kind \<noteq> [] \<and> value \<noteq> [] then Some \<lparr>ae_Kind = kind, ae_Value = value\<rparr> else None))"

definition extractRunConfigAllowlistFromConfig :: "document \<Rightarrow> AllowlistEntry list" where
  "extractRunConfigAllowlistFromConfig config =
     (case lookup_as as_map config ''environment'' of
        None \<Rightarrow> []
      | Some env \<Rightarrow>
          (case lookup_as as_map env ''allowlist'' of
             None \<Rightarrow> []
           | Some allowlist \<Rightarrow>
               (case lookup_as as_slice allowlist ''allowed_targets'' of
                  None \<Rightarrow> [] | Some entries \<Rightarrow> List.map_filter entry_of entries)))"

definition validateTargetWithinRunAllowlist :: "policy \<Rightarrow> document \<Rightarrow> ValidationReport \<Rightarrow> ValidationReport" where
  "validateTargetWithinRunAllowlist policy config report =
     (case targetURLFromConfig config of
        None \<Rightarrow> report
      | Some targetURL \<Rightarrow>
          (case lookup_as as_map config ''environment'' of
             None \<Rightarrow> report
           | Some env \<Rightarrow>
               (case lookup_as as_map env ''allowlist'' of
                  None \<Rightarrow> report
                | Some allowlistSection \<Rightarrow>
                    (let runAllowlist = extractRunConfigAllowlistFromConfig config; targetHost = extractHost targetURL
                     in if runAllowlist = [] then
                          on_cond (str_of allowlistSection ''mode'' = ''deny_by_default'')
                            (AddError ''ALLOWLIST_VIOLATION''
                               ''Target URL provided but no allowed_targets defined in environment.allowlist (default-deny)''
                               ''/target/url'') report
                        else if \<not> allowlistMatchesHost targetHost runAllowlist then
                          AddError ''ALLOWLIST_VIOLATION''
                            ''Target URL does not match run config allowlist (environment.allowlist.allowed_targets)''
                            ''/target/url'' report
                        else on_cond (case policy of None \<Rightarrow> False
                                | Some sp \<Rightarrow> sp_GlobalAllowlist sp \<noteq> [] \<and> \<not> allowlistMatchesHost targetHost (sp_GlobalAllowlist sp))
                               (AddError ''ALLOWLIST_VIOLATION''
                                  ''Target URL matches run config allowlist but not system policy global allowlist''
                                  ''/target/url'') report))))"

section \<open>Secrets and identification\<close>

definition matchesSecretRefPattern :: "SystemPolicy \<Rightarrow> string \<Rightarrow> bool" where
  "matchesSecretRefPattern sp ref =
     list_ex (\<lambda>pattern. if HasSuffix pattern ''*'' then HasPrefix ref (butlast pattern) else ref = pattern)
       (sp_AllowedSecretRefs sp)"

definition bad_ref :: "SystemPolicy \<Rightarrow> document \<Rightarrow> string \<Rightarrow> bool" where
  "bad_ref sp m field \<longleftrightarrow> str_of m field \<noteq> [] \<and> \<not> matchesSecretRefPattern sp (str_of m field)"

definition validateSecretRefsAllowed :: "policy \<Rightarrow> document \<Rightarrow> ValidationReport \<Rightarrow> ValidationReport" where
  "validateSecretRefsAllowed policy config report =
     (case policy of
        None \<Rightarrow> report
      | Some sp \<Rightarrow>
          if sp_AllowedSecretRefs sp = [] then report
          else case lookup_as as_map config ''target'' of
              None \<Rightarrow> report
            | Some target \<Rightarrow>
                (case lookup_as as_map target ''auth'' of
                   None \<Rightarrow> report
                 | Some auth \<Rightarrow>
                     (let r1 = on_cond (bad_ref sp auth ''bearer_token_ref'')
                            (AddError ''SECRET_REF_NOT_ALLOWED'' ''Secret reference does not match allowed patterns''
                               ''/target/auth/bearer_token_ref'') report;
                          r2 = on_cond (bad_ref sp auth ''api_key_ref'')
                            (AddError ''SECRET_REF_NOT_ALLOWED'' ''Secret reference does not match allowed patterns''
                               ''/target/auth/api_key_ref'') r1
                      in case lookup_as as_map target ''tls'' of
                           None \<Rightarrow> r2
                         | Some tls \<Rightarrow>
                             on_cond (bad_ref sp tls ''ca_bundle_ref'')
                               (AddError ''SECRET_REF_NOT_ALLOWED'' ''CA bundle reference does not match allowed patterns''
                                  ''/target/tls/ca_bundle_ref'') r2)))"

definition identification_error :: "string \<Rightarrow> string \<Rightarrow> ValidationReport \<Rightarrow> ValidationReport" where
  "identification_error msg ptr = AddError ''IDENTIFICATION_REQUIRED'' msg (''/target/identification'' @ ptr)"

definition check_run_id_header :: "document \<Rightarrow> ValidationReport \<Rightarrow> ValidationReport" where
  "check_run_id_header identification report =
     (case lookup_as as_map identification ''run_id_header'' of
        None \<Rightarrow> identification_error ''target.identification.run_id_header is required'' ''/run_id_header'' report
      | Some runIDHeader \<Rightarrow>
          on_cond (lookup_as as_string runIDHeader ''value_template'' = None)
            (identification_error ''target.identification.run_id_header.value_template is required''
               ''/run_id_header/value_template'')
            (on_cond (lookup_as as_string runIDHeader ''name'' = None)
              (identification_error ''target.identification.run_id_header.name is required'' ''/run_id_header/name'') report))"

definition check_user_agent :: "document \<Rightarrow> ValidationReport \<Rightarrow> ValidationReport" where
  "check_user_agent identification report =
     (case lookup_as as_map identification ''user_agent'' of
        None \<Rightarrow> identification_error ''target.identification.user_agent is required'' ''/user_agent'' report
      | Some userAgent \<Rightarrow>
          on_cond (case lookup_as as_string userAgent ''value'' of None \<Rightarrow> True | Some val \<Rightarrow> \<not> Contains_str val ''${run_id}'')
            (identification_error ''target.identification.user_agent.value must include ${run_id}'' ''/user_agent/value'')
            report)"

definition validateIdentificationRequired :: "policy \<Rightarrow> document \<Rightarrow> ValidationReport \<Rightarrow> ValidationReport" where
  "validateIdentificationRequired policy config report =
     (case lookup_as as_map config ''safety'' of
        None \<Rightarrow> report
      | Some safety \<Rightarrow>
          (let identRequired = (lookup_as as_bool safety ''identification_required'' = Some True);
               systemRequires = (case policy of None \<Rightarrow> False | Some sp \<Rightarrow> sp_RequireIdentification sp)
           in if \<not> identRequired \<and> \<not> systemRequires then report
              else case lookup_as as_map config ''target'' of
                  None \<Rightarrow> report
                | Some target \<Rightarrow>
                    (case lookup_as as_map target ''identification'' of
                       None \<Rightarrow> identification_error ''Test identification is required but target.identification is missing'' [] report
                     | Some identification \<Rightarrow>
                         check_user_agent identification (check_run_id_header identification report))))"

section \<open>Ramp, stop conditions and the remaining policies\<close>

definition ramp_guard_step :: "real \<Rightarrow> document \<Rightarrow> bool \<times> ValidationReport \<Rightarrow> bool \<times> ValidationReport" where
  "ramp_guard_step maxVUs stage acc =
     (case acc of (preflightPassed, r) \<Rightarrow>
        if \<not> enabled stage then (preflightPassed, r)
        else if str_of stage ''stage'' = ''preflight'' then (True, r)
        else if \<not> preflightPassed then (preflightPassed, r)
        else case lookup_as as_map stage ''load'' of
            None \<Rightarrow> (preflightPassed, r)
          | Some load \<Rightarrow>
              (case lookup_as as_float load ''target_vus'' of
                 None \<Rightarrow> (preflightPassed, r)
               | Some targetVUs \<Rightarrow>
                   (preflightPassed, on_cond (targetVUs > maxVUs * 0.5)
                      (AddWarning ''RAMP_BY_DEFAULT_GUARD'' ''Stage jumps to > 50% of max_vus without gradual ramp'' ''/stages'') r)))"

definition validateRampByDefaultGuard :: "document \<Rightarrow> ValidationReport \<Rightarrow> ValidationReport" where
  "validateRampByDefaultGuard config report =
     (case lookup_as as_map config ''safety'' of
        None \<Rightarrow> report
      | Some safety \<Rightarrow>
          if lookup_as as_bool safety ''ramp_by_default'' \<noteq> Some True then report
          else case (lookup_as as_map safety ''hard_caps'', lookup_as as_slice config ''stages'') of
              (Some hardCaps, Some stages) \<Rightarrow>
                (case lookup_as as_float hardCaps ''max_vus'' of
                   None \<Rightarrow> report
                 | Some maxVUs \<Rightarrow>
                     snd (fold (\<lambda>s acc. case as_map s of None \<Rightarrow> acc | Some stage \<Rightarrow> ramp_guard_step maxVUs stage acc)
                            stages (False, report)))
            | _ \<Rightarrow> report)"

definition check_stop_conditions :: "nat \<Rightarrow> document \<Rightarrow> ValidationReport \<Rightarrow> ValidationReport" where
  "check_stop_conditions i stage r =
     (let stageType = str_of stage ''stage''
      in if \<not> enabled stage \<or> (stageType \<noteq> ''baseline'' \<and> stageType \<noteq> ''ramp'') then r
         else on_cond (case lookup_as as_slice stage ''stop_conditions'' of None \<Rightarrow> True | Some cs \<Rightarrow> cs = [])
                (AddError ''STOP_CONDITIONS_REQUIRED'' (stageType @ '' stage must define at least one stop condition'')
                   (stage_ptr i ''/stop_conditions'')) r)"

definition validateStopConditionsRequired :: "document \<Rightarrow> ValidationReport \<Rightarrow> ValidationReport" where
  "validateStopConditionsRequired config report =
     (case lookup_as as_slice config ''stages'' of
        None \<Rightarrow> report | Some stages \<Rightarrow> for_stages check_stop_conditions stages report)"

definition expects_streaming :: "document \<Rightarrow> bool" where
  "expects_streaming workload \<longleftrightarrow>
     (case lookup_as as_map workload ''tools'' of
        None \<Rightarrow> False
      | Some tools \<Rightarrow>
          (case lookup_as as_slice tools ''templates'' of
             None \<Rightarrow> False
           | Some templates \<Rightarrow>
               list_ex (\<lambda>t. case as_map t of None \<Rightarrow> False
                   | Some tmpl \<Rightarrow> lookup_as as_bool tmpl ''expects_streaming'' = Some True) templates))"

definition stall_condition :: "document \<Rightarrow> bool" where
  "stall_condition stage \<longleftrightarrow>
     (case lookup_as as_slice stage ''stop_conditions'' of
        None \<Rightarrow> False
      | Some cs \<Rightarrow>
          list_ex (\<lambda>c. case as_map c of None \<Rightarrow> False | Some cond \<Rightarrow> Contains_str (str_of cond ''metric'') ''stream_stall'') cs)"

definition validateStreamingGuardrails :: "document \<Rightarrow> ValidationReport \<Rightarrow> ValidationReport" where
  "validateStreamingGuardrails config report =
     (case lookup_as as_map config ''workload'' of
        None \<Rightarrow> report
      | Some workload \<Rightarrow>
          if \<not> expects_streaming workload then report
          else case lookup_as as_slice config ''stages'' of
              None \<Rightarrow> report
            | Some stages \<Rightarrow>
                on_cond (\<not> list_ex (\<lambda>s. case as_map s of None \<Rightarrow> False | Some stage \<Rightarrow> enabled stage \<and> stall_condition stage) stages)
                  (AddError ''STREAMING_GUARDRAILS'' ''Streaming is enabled but no stream stall stop condition is defined'' ''/stages'')
                  report)"

definition validateRedirectPolicyRequired :: "document \<Rightarrow> ValidationReport \<Rightarrow> ValidationReport" where
  "validateRedirectPolicyRequired config report =
     (case lookup_as as_map config ''target'' of
        None \<Rightarrow> report
      | Some target \<Rightarrow>
          (case lookup_as as_map target ''redirect_policy'' of
             None \<Rightarrow> AddError ''REDIRECT_POLICY_REQUIRED'' ''target.redirect_policy is required'' ''/target/redirect_policy'' report
           | Some redirectPolicy \<Rightarrow>
               on_cond (lookup_as as_string redirectPolicy ''mode'' = None)
                 (AddError ''REDIRECT_POLICY_REQUIRED'' ''target.redirect_policy.mode must be explicitly set''
                    ''/target/redirect_policy/mode'') report))"

definition validWorkerFailurePolicies :: "string list" where
  "validWorkerFailurePolicies = [''fail_fast'', ''replace_if_possible'', ''best_effort'']"

definition validateWorkerFailurePolicy :: "document \<Rightarrow> ValidationReport \<Rightarrow> ValidationReport" where
  "validateWorkerFailurePolicy config report =
     (case lookup_as as_map config ''safety'' of
        None \<Rightarrow> report
      | Some safety \<Rightarrow>
          (case lookup_as as_string safety ''worker_failure_policy'' of
             None \<Rightarrow> report
           | Some policy \<Rightarrow>
               on_cond (policy \<notin> set validWorkerFailurePolicies)
                 (AddErrorWithRemediation ''INVALID_WORKER_FAILURE_POLICY'' (''Invalid worker_failure_policy value: '' @ policy)
                    ''/safety/worker_failure_policy'' ''Valid values are: fail_fast, replace_if_possible, best_effort'') report))"

definition validateChurnIntervalOps :: "document \<Rightarrow> ValidationReport \<Rightarrow> ValidationReport" where
  "validateChurnIntervalOps config report =
     (case lookup_as as_map config ''session_policy'' of
        None \<Rightarrow> report
      | Some sessionPolicy \<Rightarrow>
          on_cond (exceeds sessionPolicy ''churn_interval_ops'' (\<lambda>x. x > 0) \<and> str_of sessionPolicy ''mode'' \<noteq> ''churn'')
            (AddErrorWithRemediation ''CHURN_INTERVAL_OPS_INVALID''
               (''churn_interval_ops is only valid when session_policy.mode is '' @ [CHR 0x27] @ ''churn'' @ [CHR 0x27])
               ''/session_policy/churn_interval_ops''
               (''Either set mode to '' @ [CHR 0x27] @ ''churn'' @ [CHR 0x27] @ '' or remove churn_interval_ops'')) report)"

section \<open>Forbidden patterns\<close>

text \<open>The loop of \<^verbatim>\<open>wildcardMatch\<close>: the index in the pattern at the end, or nothing when it returns false.
  The index of the last star is \<open>None\<close> for the \<open>-1\<close> of the code.\<close>

function wildcard_loop :: "string \<Rightarrow> string \<Rightarrow> nat \<Rightarrow> nat \<Rightarrow> nat option \<Rightarrow> nat \<Rightarrow> nat option" where
  "wildcard_loop pattern value pidx vidx starIdx matchIdx =
     (if vidx < length value then
        if pidx < length pattern \<and> (pattern ! pidx = CHR ''?'' \<or> pattern ! pidx = value ! vidx)
        then wildcard_loop pattern value (pidx + 1) (vidx + 1) starIdx matchIdx
        else if pidx < length pattern \<and> pattern ! pidx = CHR ''*''
        then wildcard_loop pattern value (pidx + 1) vidx (Some pidx) vidx
        else case starIdx of
            Some s \<Rightarrow> wildcard_loop pattern value (s + 1) (matchIdx + 1) (Some s) (matchIdx + 1)
          | None \<Rightarrow> None
      else Some pidx)"
  by pat_completeness auto

text \<open>It ends from every state: where the position of the last star is behind the position in the value,
  which holds after the first star, either that position grows or the index in the pattern does.\<close>

termination
  by (relation "measures [\<lambda>(p, v, pidx, vidx, s, m). if m \<le> vidx then 0 else 1,
        \<lambda>(p, v, pidx, vidx, s, m). if m \<le> vidx then length v - m else 0, \<lambda>(p, v, pidx, vidx, s, m). length p - pidx]") auto

declare wildcard_loop.simps [simp del]

definition wildcardMatch :: "string \<Rightarrow> string \<Rightarrow> bool" where
  "wildcardMatch pattern value =
     (case wildcard_loop pattern value 0 0 None 0 of
        None \<Rightarrow> False
      | Some pidx \<Rightarrow> pidx + length (takeWhile (\<lambda>c. c = CHR ''*'') (drop pidx pattern)) = length pattern)"

definition matchesForbiddenPattern :: "string \<Rightarrow> string \<Rightarrow> bool" where
  "matchesForbiddenPattern value pattern =
     (if \<not> ContainsAny pattern ''*?'' then ToLower value = ToLower pattern
      else wildcardMatch (ToLower pattern) (ToLower value))"

definition forbidden_patterns :: "policy \<Rightarrow> document \<Rightarrow> string list" where
  "forbidden_patterns policy config =
     (case policy of None \<Rightarrow> [] | Some sp \<Rightarrow> sp_ForbiddenPatterns sp)
     @ (case lookup_as as_map config ''environment'' of
          None \<Rightarrow> []
        | Some env \<Rightarrow>
            (case lookup_as as_slice env ''forbidden_patterns'' of None \<Rightarrow> [] | Some ps \<Rightarrow> List.map_filter as_string ps))"

definition validateForbiddenPatterns :: "policy \<Rightarrow> document \<Rightarrow> ValidationReport \<Rightarrow> ValidationReport" where
  "validateForbiddenPatterns policy config report =
     (case targetURLFromConfig config of
        None \<Rightarrow> report
      | Some targetURL \<Rightarrow>
          (let targetHost = extractHost targetURL
           in case find (\<lambda>pattern. matchesForbiddenPattern targetHost pattern \<or> matchesForbiddenPattern targetURL pattern)
                     (forbidden_patterns policy config) of
                None \<Rightarrow> report
              | Some pattern \<Rightarrow>
                  AddError ''FORBIDDEN_PATTERN_MATCHED'' (''Target URL matches forbidden pattern: '' @ pattern) ''/target/url'' report))"

section \<open>The validator\<close>

definition checks :: "policy \<Rightarrow> (document \<Rightarrow> ValidationReport \<Rightarrow> ValidationReport) list" where
  "checks policy =
     [validateStagesRequired, validateRequiredStagesPresent, validatePreflightFirst, validateDurationPositive,
      validateLoadNonnegative, validateOperationMixNonempty, validateToolsCallRequiresTools,
      validateResourcesReadRequiresURI, validatePromptsGetRequiresName, validateCapsRequired, validateCapsConsistent,
      validateCapsWithinSystemPolicy policy, validateAllowlistRequired, validateTargetWithinSystemAllowlist policy,
      validateSecretRefsAllowed policy, validateIdentificationRequired policy, validateRampByDefaultGuard,
      validateStopConditionsRequired, validateStreamingGuardrails, validateRedirectPolicyRequired,
      validateWorkerFailurePolicy, validateChurnIntervalOps, validateTargetWithinRunAllowlist policy,
      validateForbiddenPatterns policy, validateStageIDFormats]"

definition Validate_semantic :: "policy \<Rightarrow> raw_config \<Rightarrow> ValidationReport" where
  "Validate_semantic policy data =
     (case decode_map data of
        None \<Rightarrow> AddError ''SCHEMA_VIOLATION'' ''Invalid JSON'' [] NewValidationReport
      | Some config \<Rightarrow> fold (\<lambda>check. check config) (checks policy) NewValidationReport)"

section \<open>What a pattern means\<close>

text \<open>A star stands for any text, a question mark for any byte.\<close>

fun glob :: "string \<Rightarrow> string \<Rightarrow> bool" where
  "glob [] v = (v = [])"
| "glob (c # p) v =
     (if c = CHR ''*'' then list_ex (glob p) (suffixes v)
      else case v of [] \<Rightarrow> False | x # xs \<Rightarrow> (c = CHR ''?'' \<or> c = x) \<and> glob p xs)"

lemma glob_star: "glob (CHR ''*'' # p) v \<longleftrightarrow> (\<exists>k \<le> length v. glob p (drop k v))"
proof -
  have "glob (CHR ''*'' # p) v \<longleftrightarrow> (\<exists>s. suffix s v \<and> glob p s)" by (simp add: list_ex_iff set_suffixes_eq Bex_def)
  also have "\<dots> \<longleftrightarrow> (\<exists>k \<le> length v. glob p (drop k v))"
  proof
    assume "\<exists>s. suffix s v \<and> glob p s"
    then obtain s us where "v = us @ s" "glob p s" by (auto elim: suffixE)
    then show "\<exists>k \<le> length v. glob p (drop k v)" by (intro exI [of _ "length us"]) simp
  next
    assume "\<exists>k \<le> length v. glob p (drop k v)"
    then show "\<exists>s. suffix s v \<and> glob p s" using suffix_drop by blast
  qed
  finally show ?thesis .
qed

lemma glob_plain: "c \<noteq> CHR ''*'' \<Longrightarrow> glob (c # p) (x # xs) \<longleftrightarrow> (c = CHR ''?'' \<or> c = x) \<and> glob p xs"
  by simp

lemma glob_stars: "glob p [] \<longleftrightarrow> list_all (\<lambda>c. c = CHR ''*'') p"
  by (induction p) auto

lemma glob_literal: "\<not> ContainsAny p ''*?'' \<Longrightarrow> glob p v \<longleftrightarrow> v = p"
  by (induction p arbitrary: v) (auto simp: ContainsAny_def split: list.split)

text \<open>A part without stars takes as many bytes as it is long.\<close>

lemma glob_segment: "CHR ''*'' \<notin> set seg \<Longrightarrow> glob (seg @ p) v \<Longrightarrow> length seg \<le> length v \<and> glob p (drop (length seg) v)"
  by (induction seg arbitrary: v) (auto split: list.splits)

text \<open>What is still to be matched in a state of the loop: the rest of the pattern here, or the part after
  the last star at a later position.\<close>

definition pending :: "string \<Rightarrow> string \<Rightarrow> nat \<Rightarrow> nat \<Rightarrow> nat option \<Rightarrow> nat \<Rightarrow> bool" where
  "pending p v i j s m \<longleftrightarrow> glob (drop i p) (drop j v)
     \<or> (case s of None \<Rightarrow> False | Some k \<Rightarrow> \<exists>l. m < l \<and> l \<le> length v \<and> glob (drop (k + 1) p) (drop l v))"

text \<open>The part of the pattern between the last star and here has no star and has been matched.\<close>

definition loop_ok :: "string \<Rightarrow> string \<Rightarrow> nat \<Rightarrow> nat \<Rightarrow> nat option \<Rightarrow> nat \<Rightarrow> bool" where
  "loop_ok p v i j s m \<longleftrightarrow> i \<le> length p \<and> j \<le> length v
     \<and> (case s of None \<Rightarrow> True
        | Some k \<Rightarrow> k < i \<and> j = m + (i - (k + 1)) \<and> CHR ''*'' \<notin> set (take (i - (k + 1)) (drop (k + 1) p)))"

lemma later_star:
  assumes ok: "loop_ok p v i j (Some k) m" and l: "m < l" "l \<le> length v" "glob (drop (k + 1) p) (drop l v)"
  shows "\<exists>n. j < n \<and> n \<le> length v \<and> glob (drop i p) (drop n v)"
proof -
  let ?seg = "take (i - (k + 1)) (drop (k + 1) p)"
  have len: "length ?seg = i - (k + 1)" and i: "drop (k + 1) p = ?seg @ drop i p"
    using ok by (auto simp: loop_ok_def) (metis Suc_leI append_take_drop_id drop_drop le_add_diff_inverse2 plus_1_eq_Suc add.commute)
  have "length ?seg \<le> length (drop l v) \<and> glob (drop i p) (drop (length ?seg) (drop l v))"
  proof (rule glob_segment)
    show "CHR ''*'' \<notin> set ?seg" using ok by (simp add: loop_ok_def)
    show "glob (?seg @ drop i p) (drop l v)" by (subst i [symmetric]) (rule l(3))
  qed
  then show ?thesis using l(1,2) ok len
    by (intro exI [of _ "l + (i - (k + 1))"]) (auto simp: loop_ok_def add.commute)
qed

lemma loop_ok_hit:
  assumes "loop_ok p v i j s m" "i < length p" "j < length v" "p ! i \<noteq> CHR ''*''"
  shows "loop_ok p v (i + 1) (j + 1) s m"
proof (cases s)
  case (Some k)
  then have "k < i" using assms(1) by (simp add: loop_ok_def)
  then have "i + 1 - (k + 1) = Suc (i - (k + 1))" "drop (k + 1) p ! (i - (k + 1)) = p ! i" "i - (k + 1) < length (drop (k + 1) p)"
    using assms(2) by auto
  then have "take (i + 1 - (k + 1)) (drop (k + 1) p) = take (i - (k + 1)) (drop (k + 1) p) @ [p ! i]"
    by (metis take_Suc_conv_app_nth)
  with assms Some \<open>k < i\<close> show ?thesis by (auto simp: loop_ok_def)
qed (use assms in \<open>auto simp: loop_ok_def\<close>)

lemma glob_star_from: "j \<le> length v \<Longrightarrow> glob (CHR ''*'' # p) (drop j v) \<longleftrightarrow> (\<exists>l. j \<le> l \<and> l \<le> length v \<and> glob p (drop l v))"
  unfolding glob_star
proof
  assume "j \<le> length v" "\<exists>k \<le> length (drop j v). glob p (drop k (drop j v))"
  then obtain k where "k \<le> length v - j" "glob p (drop (k + j) v)" by auto
  with \<open>j \<le> length v\<close> show "\<exists>l. j \<le> l \<and> l \<le> length v \<and> glob p (drop l v)" by (intro exI [of _ "k + j"]) auto
next
  assume "\<exists>l. j \<le> l \<and> l \<le> length v \<and> glob p (drop l v)"
  then obtain l where "j \<le> l" "l \<le> length v" "glob p (drop l v)" by blast
  then show "\<exists>k \<le> length (drop j v). glob p (drop k (drop j v))" by (intro exI [of _ "l - j"]) auto
qed

lemma pending_star:
  assumes ok: "loop_ok p v i j s m" and "j < length v" and p: "drop i p = CHR ''*'' # drop (i + 1) p"
  shows "pending p v i j s m = pending p v (i + 1) j (Some i) j"
proof -
  let ?from = "\<lambda>n. \<exists>l. n \<le> l \<and> l \<le> length v \<and> glob (drop (i + 1) p) (drop l v)"
  have here: "glob (drop i p) (drop n v) \<longleftrightarrow> ?from n" if "n \<le> length v" for n
    unfolding p using that by (rule glob_star_from)
  have "pending p v (i + 1) j (Some i) j \<longleftrightarrow> ?from j"
    using assms(2) unfolding pending_def option.case by (metis less_imp_le order.order_iff_strict)
  moreover have "pending p v i j s m \<longleftrightarrow> ?from j"
  proof
    assume "pending p v i j s m"
    then consider "glob (drop i p) (drop j v)"
      | k l where "s = Some k" "m < l" "l \<le> length v" "glob (drop (k + 1) p) (drop l v)"
      by (auto simp: pending_def split: option.splits)
    then show "?from j"
    proof cases
      case 1
      then show ?thesis using here [of j] assms(2) by simp
    next
      case 2
      then obtain n where "j < n" "n \<le> length v" "glob (drop i p) (drop n v)" using later_star ok by blast
      then show ?thesis using here [of n] by (meson less_imp_le order.trans)
    qed
  next
    assume "?from j"
    then show "pending p v i j s m" using here [of j] assms(2) by (simp add: pending_def)
  qed
  ultimately show ?thesis by simp
qed

lemma pending_miss:
  assumes "\<not> glob (drop i p) (drop j v)" "m < length v"
  shows "pending p v i j (Some k) m = pending p v (k + 1) (m + 1) (Some k) (m + 1)"
proof -
  have "(\<exists>l. m < l \<and> l \<le> length v \<and> Q l) \<longleftrightarrow> Q (m + 1) \<or> (\<exists>l. m + 1 < l \<and> l \<le> length v \<and> Q l)" for Q
  proof -
    have "m < l \<and> l \<le> length v \<longleftrightarrow> l = m + 1 \<or> (m + 1 < l \<and> l \<le> length v)" for l using assms(2) by auto
    then have "(\<exists>l. (m < l \<and> l \<le> length v) \<and> Q l) \<longleftrightarrow> (\<exists>l. (l = m + 1 \<or> (m + 1 < l \<and> l \<le> length v)) \<and> Q l)"
      by (simp only:)
    then show ?thesis by (simp only: conj_assoc) auto
  qed
  then show ?thesis using assms(1) by (simp add: pending_def)
qed

text \<open>The loop decides what is pending.\<close>

lemma wildcard_loop_pending:
  assumes "loop_ok p v i j s m" "CHR ''*'' \<notin> set v"
  shows "(case wildcard_loop p v i j s m of None \<Rightarrow> False | Some n \<Rightarrow> glob (drop n p) []) \<longleftrightarrow> pending p v i j s m"
  using assms
proof (induction p v i j s m rule: wildcard_loop.induct)
  case (1 p v i j s m)
  let ?hit = "i < length p \<and> (p ! i = CHR ''?'' \<or> p ! i = v ! j)"
  let ?star = "i < length p \<and> p ! i = CHR ''*''"
  show ?case
  proof (cases "j < length v")
    case finished: False
    then have "j = length v" using 1(4) by (simp add: loop_ok_def)
    then have "pending p v i j s m \<longleftrightarrow> glob (drop i p) []"
      using later_star [of p v i j _ m] 1(4) by (fastforce simp: pending_def split: option.splits)
    then show ?thesis using finished by (subst wildcard_loop.simps) simp
  next
    case more: True
    have "v ! j \<noteq> CHR ''*''" using 1(5) nth_mem [OF more] by metis
    then have v: "drop j v = v ! j # drop (j + 1) v" "v ! j \<noteq> CHR ''*''" using more by (simp_all add: Cons_nth_drop_Suc)
    consider (hit) ?hit | (star) "\<not> ?hit" ?star | (miss) "\<not> ?hit" "\<not> ?star" by blast
    then show ?thesis
    proof cases
      case hit
      then have p: "drop i p = p ! i # drop (i + 1) p" by (simp add: Cons_nth_drop_Suc)
      have ok: "loop_ok p v (i + 1) (j + 1) s m" using 1(4) more hit v(2) by (intro loop_ok_hit) auto
      have "pending p v i j s m = pending p v (i + 1) (j + 1) s m"
        using hit v p by (auto simp: pending_def)
      then show ?thesis using 1(1) [OF more hit ok 1(5)] more hit by (subst wildcard_loop.simps) simp
    next
      case star
      then have p: "drop i p = CHR ''*'' # drop (i + 1) p" by (metis Cons_nth_drop_Suc Suc_eq_plus1)
      have ok: "loop_ok p v (i + 1) j (Some i) j" using star 1(4) by (auto simp: loop_ok_def)
      have "pending p v i j s m = pending p v (i + 1) j (Some i) j" using more p 1(4) by (intro pending_star) auto
      then show ?thesis using 1(2) [OF more star ok 1(5)] more star by (subst wildcard_loop.simps) simp
    next
      case miss
      have no: "\<not> glob (drop i p) (drop j v)"
      proof (cases "i < length p")
        case True
        then have "drop i p = p ! i # drop (i + 1) p" by (simp add: Cons_nth_drop_Suc)
        with miss True v(1) show ?thesis by simp
      qed (simp add: v(1))
      show ?thesis
      proof (cases s)
        case None
        with no miss more show ?thesis by (subst wildcard_loop.simps) (auto simp: pending_def)
      next
        case (Some k)
        then have "m < length v" and ok: "loop_ok p v (k + 1) (m + 1) (Some k) (m + 1)" using 1(4) more by (auto simp: loop_ok_def)
        then have "pending p v i j s m = pending p v (k + 1) (m + 1) (Some k) (m + 1)" using no Some pending_miss by blast
        then show ?thesis using 1(3) [OF more miss(1,2) Some ok 1(5)] more miss Some by (subst wildcard_loop.simps) auto
      qed
    qed
  qed
qed

text \<open>Lower case neither makes nor hides a special byte of a pattern.\<close>

lemma byte_lower: "(of_char (lower c) :: nat) = (let n = of_char c in if 65 \<le> n \<and> n \<le> 90 then n + 32 else n)"
proof -
  have "(of_char c :: nat) < 256" by simp
  then show ?thesis by (auto simp: lower_def Let_def)
qed

lemma lower_special: "lower c = CHR ''*'' \<longleftrightarrow> c = CHR ''*''" "lower c = CHR ''?'' \<longleftrightarrow> c = CHR ''?''"
proof -
  have eq: "x = y \<longleftrightarrow> (of_char x :: nat) = of_char y" for x y by simp
  show "lower c = CHR ''*'' \<longleftrightarrow> c = CHR ''*''" "lower c = CHR ''?'' \<longleftrightarrow> c = CHR ''?''"
    unfolding eq [of "lower c"] eq [of c] byte_lower by (auto simp: Let_def)
qed

lemma special_ToLower: "CHR ''*'' \<in> set (ToLower s) \<longleftrightarrow> CHR ''*'' \<in> set s" "ContainsAny (ToLower s) ''*?'' \<longleftrightarrow> ContainsAny s ''*?''"
  by (induction s) (simp_all add: ToLower_def ContainsAny_def lower_special eq_commute [of "CHR ''*''"])

lemma trailing_stars: "n \<le> length p \<Longrightarrow> n + length (takeWhile (\<lambda>c. c = CHR ''*'') (drop n p)) = length p \<longleftrightarrow> glob (drop n p) []"
proof -
  assume n: "n \<le> length p"
  let ?t = "takeWhile (\<lambda>c. c = CHR ''*'') (drop n p)"
  have "n + length ?t = length p \<longleftrightarrow> length ?t = length (drop n p)" using n by auto
  also have "\<dots> \<longleftrightarrow> ?t = drop n p" by (metis take_all_iff order_refl takeWhile_eq_take)
  also have "\<dots> \<longleftrightarrow> glob (drop n p) []" by (simp add: glob_stars takeWhile_eq_all_conv list_all_iff)
  finally show ?thesis .
qed

lemma wildcard_loop_le:
  "wildcard_loop p v i j s m = Some n \<Longrightarrow> i \<le> length p \<Longrightarrow> (case s of None \<Rightarrow> True | Some k \<Rightarrow> k < length p) \<Longrightarrow> n \<le> length p"
proof (induction p v i j s m rule: wildcard_loop.induct)
  case (1 p v i j s m)
  let ?hit = "i < length p \<and> (p ! i = CHR ''?'' \<or> p ! i = v ! j)"
  let ?star = "i < length p \<and> p ! i = CHR ''*''"
  have loop: "(if j < length v then if ?hit then wildcard_loop p v (i + 1) (j + 1) s m
      else if ?star then wildcard_loop p v (i + 1) j (Some i) j
      else case s of Some k \<Rightarrow> wildcard_loop p v (k + 1) (m + 1) (Some k) (m + 1) | None \<Rightarrow> None else Some i) = Some n"
    using 1(4) by (subst (asm) wildcard_loop.simps)
  consider (stop) "\<not> j < length v" | (hit) "j < length v" ?hit | (star) "j < length v" "\<not> ?hit" ?star
    | (miss) k where "j < length v" "\<not> ?hit" "\<not> ?star" "s = Some k"
    using loop by (auto split: if_splits option.splits)
  then show ?case
  proof cases
    case hit
    with loop 1(5,6) show ?thesis by (intro 1(1) [OF hit]) auto
  next
    case star
    with loop 1(5,6) show ?thesis by (intro 1(2) [OF star]) auto
  next
    case miss
    with loop 1(5,6) show ?thesis by (intro 1(3) [OF miss]) auto
  qed (use loop 1(5) in auto)
qed

lemma wildcardMatch_glob: "CHR ''*'' \<notin> set v \<Longrightarrow> wildcardMatch p v \<longleftrightarrow> glob p v"
proof -
  assume v: "CHR ''*'' \<notin> set v"
  have ok: "loop_ok p v 0 0 None 0" by (simp add: loop_ok_def)
  have "pending p v 0 0 None 0 \<longleftrightarrow> glob p v" by (simp add: pending_def)
  then show ?thesis using wildcard_loop_pending [OF ok v] wildcard_loop_le [of p v 0 0 None 0]
    by (auto simp: wildcardMatch_def trailing_stars split: option.splits)
qed

text \<open>C37: a target is matched by a forbidden pattern exactly when the pattern, read with stars for any text and question
  marks for any byte and up to case, describes it, for every target without a star; the loop always ends. A star in
  the target is taken literally where the pattern has one, so such a target can escape a pattern that describes it.\<close>

theorem forbidden_pattern_meaning:
  "(CHR ''*'' \<notin> set value \<longrightarrow> (matchesForbiddenPattern value pattern \<longleftrightarrow> glob (ToLower pattern) (ToLower value)))
   \<and> glob ''https://evil.example/*'' ''https://evil.example/*/mcp''
   \<and> \<not> matchesForbiddenPattern ''https://evil.example/*/mcp'' ''https://evil.example/*''"
proof (intro conjI impI)
  assume v: "CHR ''*'' \<notin> set value"
  show "matchesForbiddenPattern value pattern \<longleftrightarrow> glob (ToLower pattern) (ToLower value)"
  proof (cases "ContainsAny pattern ''*?''")
    case True
    then show ?thesis using v by (simp add: matchesForbiddenPattern_def wildcardMatch_glob special_ToLower)
  next
    case False
    then show ?thesis using glob_literal [of "ToLower pattern"] by (simp add: matchesForbiddenPattern_def special_ToLower)
  qed
next
  show "glob ''https://evil.example/*'' ''https://evil.example/*/mcp''" by code_simp
next
  show "\<not> matchesForbiddenPattern ''https://evil.example/*/mcp'' ''https://evil.example/*''" by code_simp
qed

theorem forbidden_pattern_meaning_witness:
  "glob ''*.internal'' ''db.internal'' \<and> matchesForbiddenPattern ''DB.internal'' ''*.Internal''"
proof -
  have "glob (ToLower ''*.Internal'') (ToLower ''DB.internal'')" "CHR ''*'' \<notin> set ''DB.internal''" "glob ''*.internal'' ''db.internal''"
    by code_simp+
  then show ?thesis using forbidden_pattern_meaning [of "''DB.internal''" "''*.Internal''"] by blast
qed

end
