(* ===== verification/Config_Admission.thy ===== *)
theory Config_Admission
  imports Config_Validator Run_System
begin

text \<open>
  The unified validator (\<^verbatim>\<open>internal/validation/unified_validator.go\<close>) and what it admits. No check turns a
  report with an error into a good one (the collection \<open>kb\<close>), so a good report says that every check was
  passed; the last lemmas spell out what that means for the target, the stages, the caps and the redirects,
  and for the runs that \<^verbatim>\<open>CreateRun\<close> lets into the server.
\<close>

named_theorems kb "no check makes a bad report good"

section \<open>What a good report says\<close>

lemma keeps_bad_cond [intro]: "keeps_bad f \<Longrightarrow> keeps_bad (on_cond b f)"
  by (auto simp: keeps_bad_def on_cond_def)

lemma keeps_bad_add: "keeps_bad (AddError c m p)" "keeps_bad (AddErrorWithRemediation c m p q)" "keeps_bad (AddWarning c m p)"
  by (simp_all add: keeps_bad_def ok_simps)

lemma ok_cond_error:
  "vr_OK (on_cond b (AddError c m p) r) \<longleftrightarrow> \<not> b \<and> vr_OK r" "vr_OK (on_cond b (AddErrorWithRemediation c m p q) r) \<longleftrightarrow> \<not> b \<and> vr_OK r"
  "vr_OK (on_cond b (AddWarning c m p) r) \<longleftrightarrow> vr_OK r" "vr_OK (on_cond b (identification_error m p) r) \<longleftrightarrow> \<not> b \<and> vr_OK r"
  "\<not> vr_OK (identification_error m p r)"
  by (simp_all add: ok_cond ok_simps identification_error_def)

lemmas ok_rules = ok_cond_error ok_add

text \<open>A loop over a list leaves the report good only when every turn of it did.\<close>

lemma fold_ok:
  assumes "\<And>x. keeps_bad (f x)" "vr_OK (fold f xs r)"
  shows "vr_OK r" and "x \<in> set xs \<Longrightarrow> \<exists>r'. vr_OK r' \<and> vr_OK (f x r')"
proof -
  show "vr_OK r" using keeps_badD [OF keeps_bad_fold [of f xs]] assms by blast
  show "\<exists>r'. vr_OK r' \<and> vr_OK (f x r')" if "x \<in> set xs"
    using assms(2) that
  proof (induction xs arbitrary: r)
    case (Cons y ys)
    have "vr_OK (f y r)" using Cons.prems(1) keeps_badD [OF keeps_bad_fold [of f ys, OF assms(1)]] by simp
    then have "vr_OK r" using keeps_badD [OF assms(1)] by blast
    show ?case
    proof (cases "x = y")
      case True
      then show ?thesis using \<open>vr_OK r\<close> \<open>vr_OK (f y r)\<close> by blast
    next
      case False
      then show ?thesis using Cons.IH [of "f y r"] Cons.prems by simp
    qed
  qed simp
qed

lemma fold_ok_in:
  assumes "vr_OK (fold f xs r)" "\<And>x. x \<in> set xs \<Longrightarrow> keeps_bad (f x)" "x \<in> set xs"
  shows "\<exists>r'. vr_OK r' \<and> vr_OK (f x r')"
proof -
  let ?g = "\<lambda>x. if x \<in> set xs then f x else id"
  have "fold ?g xs r = fold f xs r" by (intro fold_cong) auto
  moreover have "keeps_bad (?g x)" for x using assms(2) by (simp add: keeps_bad_id)
  ultimately show ?thesis using fold_ok(2) [of ?g xs r x] assms(1,3) by simp
qed

lemma keeps_bad_for_stages:
  assumes "\<And>i stage. keeps_bad (body i stage)"
  shows "keeps_bad (for_stages body stages)"
  unfolding for_stages_def using assms
  by (intro keeps_bad_fold) (auto simp: keeps_bad_def split: option.splits)

lemmas for_stages_bad = keeps_badD [OF keeps_bad_for_stages, rotated]

lemma for_stages_ok:
  assumes "\<And>i stage. keeps_bad (body i stage)" "vr_OK (for_stages body stages r)" "i < length stages" "as_map (stages ! i) = Some stage"
  shows "\<exists>r'. vr_OK r' \<and> vr_OK (body i stage r')"
proof -
  let ?f = "\<lambda>(i, s) r. case as_map s of None \<Rightarrow> r | Some stage \<Rightarrow> body i stage r"
  have bad: "keeps_bad (?f x)" for x using assms(1) by (cases x) (auto simp: keeps_bad_def split: option.splits)
  have mem: "(i, stages ! i) \<in> set (enumerate 0 stages)" using assms(3) by (simp add: in_set_enumerate_eq)
  have "\<exists>r'. vr_OK r' \<and> vr_OK (?f (i, stages ! i) r')" by (rule fold_ok(2) [OF bad assms(2) [unfolded for_stages_def] mem])
  then show ?thesis using assms(4) by simp
qed

text \<open>No check makes a bad report good.\<close>

lemma kb_validateStagesRequired [kb]: "keeps_bad (validateStagesRequired config)"
  by (rule keeps_badI) (auto simp: validateStagesRequired_def ok_rules Let_def split: option.splits if_splits list.splits prod.splits)

lemma kb_validateRequiredStagesPresent [kb]: "keeps_bad (validateRequiredStagesPresent config)"
  by (rule keeps_badI) (auto simp: validateRequiredStagesPresent_def ok_rules Let_def split: option.splits if_splits list.splits prod.splits)

lemma kb_validatePreflightFirst [kb]: "keeps_bad (validatePreflightFirst config)"
  by (rule keeps_badI) (auto simp: validatePreflightFirst_def ok_rules Let_def split: option.splits if_splits list.splits prod.splits)

lemma kb_validateOperationMixNonempty [kb]: "keeps_bad (validateOperationMixNonempty config)"
  by (rule keeps_badI) (auto simp: validateOperationMixNonempty_def ok_rules Let_def split: option.splits if_splits list.splits prod.splits)

lemma kb_validateToolsCallRequiresTools [kb]: "keeps_bad (validateToolsCallRequiresTools config)"
  by (rule keeps_badI) (auto simp: validateToolsCallRequiresTools_def ok_rules Let_def split: option.splits if_splits list.splits prod.splits)

lemma kb_validateCapsRequired [kb]: "keeps_bad (validateCapsRequired config)"
  by (rule keeps_badI) (auto simp: validateCapsRequired_def ok_rules Let_def split: option.splits if_splits list.splits prod.splits)

lemma kb_validateCapsConsistent [kb]: "keeps_bad (validateCapsConsistent config)"
  by (rule keeps_badI) (auto simp: validateCapsConsistent_def ok_rules Let_def split: option.splits if_splits list.splits prod.splits)

lemma kb_validateCapsWithinSystemPolicy [kb]: "keeps_bad (validateCapsWithinSystemPolicy policy config)"
  by (rule keeps_badI) (auto simp: validateCapsWithinSystemPolicy_def ok_rules Let_def split: option.splits if_splits list.splits prod.splits)

lemma kb_validateAllowlistRequired [kb]: "keeps_bad (validateAllowlistRequired config)"
  by (rule keeps_badI) (auto simp: validateAllowlistRequired_def ok_rules Let_def split: option.splits if_splits list.splits prod.splits)

lemma kb_validateTargetWithinSystemAllowlist [kb]: "keeps_bad (validateTargetWithinSystemAllowlist policy config)"
  by (rule keeps_badI) (auto simp: validateTargetWithinSystemAllowlist_def ok_rules Let_def split: option.splits if_splits list.splits prod.splits)

lemma kb_validateSecretRefsAllowed [kb]: "keeps_bad (validateSecretRefsAllowed policy config)"
  by (rule keeps_badI) (auto simp: validateSecretRefsAllowed_def ok_rules Let_def split: option.splits if_splits list.splits prod.splits)

lemma kb_validateStreamingGuardrails [kb]: "keeps_bad (validateStreamingGuardrails config)"
  by (rule keeps_badI) (auto simp: validateStreamingGuardrails_def ok_rules Let_def split: option.splits if_splits list.splits prod.splits)

lemma kb_validateRedirectPolicyRequired [kb]: "keeps_bad (validateRedirectPolicyRequired config)"
  by (rule keeps_badI) (auto simp: validateRedirectPolicyRequired_def ok_rules Let_def split: option.splits if_splits list.splits prod.splits)

lemma kb_validateWorkerFailurePolicy [kb]: "keeps_bad (validateWorkerFailurePolicy config)"
  by (rule keeps_badI) (auto simp: validateWorkerFailurePolicy_def ok_rules Let_def split: option.splits if_splits list.splits prod.splits)

lemma kb_validateChurnIntervalOps [kb]: "keeps_bad (validateChurnIntervalOps config)"
  by (rule keeps_badI) (auto simp: validateChurnIntervalOps_def ok_rules Let_def split: option.splits if_splits list.splits prod.splits)

lemma kb_validateTargetWithinRunAllowlist [kb]: "keeps_bad (validateTargetWithinRunAllowlist policy config)"
  by (rule keeps_badI) (auto simp: validateTargetWithinRunAllowlist_def ok_rules Let_def split: option.splits if_splits list.splits prod.splits)

lemma kb_validateForbiddenPatterns [kb]: "keeps_bad (validateForbiddenPatterns policy config)"
  by (rule keeps_badI) (auto simp: validateForbiddenPatterns_def ok_rules Let_def split: option.splits if_splits list.splits prod.splits)

lemma kb_validateStageIDFormats [kb]: "keeps_bad (validateStageIDFormats config)"
  by (rule keeps_badI, simp add: validateStageIDFormats_def split: option.splits)
    (erule for_stages_bad, rule keeps_badI, auto simp: ok_rules Let_def split: option.splits if_splits)

lemma kb_check_duration: "keeps_bad (check_duration i stage)"
  by (rule keeps_badI) (auto simp: check_duration_def ok_rules Let_def split: option.splits if_splits)

lemma kb_validateDurationPositive [kb]: "keeps_bad (validateDurationPositive config)"
  by (rule keeps_badI, simp add: validateDurationPositive_def split: option.splits) (erule for_stages_bad, rule kb_check_duration)

lemma kb_validateLoadNonnegative [kb]: "keeps_bad (validateLoadNonnegative config)"
  by (rule keeps_badI, simp add: validateLoadNonnegative_def split: option.splits)
    (erule for_stages_bad, rule keeps_badI, auto simp: ok_rules Let_def split: option.splits if_splits)

lemma kb_check_stop_conditions: "keeps_bad (check_stop_conditions i stage)"
  by (rule keeps_badI) (auto simp: check_stop_conditions_def ok_rules Let_def split: option.splits if_splits)

lemma kb_validateStopConditionsRequired [kb]: "keeps_bad (validateStopConditionsRequired config)"
  by (rule keeps_badI, simp add: validateStopConditionsRequired_def split: option.splits) (erule for_stages_bad, rule kb_check_stop_conditions)

lemma kb_require_member: "keeps_bad (require_member names key msg config)"
  by (rule keeps_badI, simp add: require_member_def split: option.splits)
    (erule keeps_badD [OF keeps_bad_fold, rotated], rule keeps_badI, auto simp: ok_rules split: prod.splits)

lemma kb_members [kb]: "keeps_bad (validateResourcesReadRequiresURI config)" "keeps_bad (validatePromptsGetRequiresName config)"
  unfolding validateResourcesReadRequiresURI_def validatePromptsGetRequiresName_def by (rule kb_require_member)+

lemma kb_validateIdentificationRequired [kb]: "keeps_bad (validateIdentificationRequired policy config)"
  by (rule keeps_badI) (auto simp: validateIdentificationRequired_def check_user_agent_def check_run_id_header_def ok_rules Let_def
      split: option.splits if_splits)

lemma ramp_guard_ok: "vr_OK (snd (ramp_guard_step maxVUs stage (b, r))) = vr_OK r"
  by (auto simp: ramp_guard_step_def ok_rules split: option.splits)

lemma ok_ramp_guard: "vr_OK (validateRampByDefaultGuard config r) = vr_OK r"
proof -
  have "vr_OK (snd (fold (\<lambda>s acc. case as_map s of None \<Rightarrow> acc | Some stage \<Rightarrow> ramp_guard_step maxVUs stage acc) stages (b, r))) = vr_OK r"
    for maxVUs stages b
  proof (induction stages arbitrary: b r)
    case (Cons s stages)
    show ?case
    proof (cases "as_map s")
      case (Some stage)
      then show ?thesis using Cons [of "fst (ramp_guard_step maxVUs stage (b, r))" "snd (ramp_guard_step maxVUs stage (b, r))"]
        by (simp add: ramp_guard_ok)
    qed (simp add: Cons)
  qed simp
  then show ?thesis by (auto simp: validateRampByDefaultGuard_def split: option.splits)
qed

lemma kb_checks: "c \<in> set (checks policy) \<Longrightarrow> keeps_bad (c config)"
  unfolding checks_def by (auto simp: kb ok_ramp_guard intro: keeps_badI)

text \<open>So a good report means that every check was passed.\<close>

lemma check_passed:
  assumes "decode_map data = Some config" "vr_OK (Validate_semantic policy data)" "c \<in> set (checks policy)"
  shows "\<exists>r. vr_OK r \<and> vr_OK (c config r)"
proof -
  have "vr_OK (fold (\<lambda>check. check config) (checks policy) NewValidationReport)" using assms(1,2) by (simp add: Validate_semantic_def)
  then show ?thesis using kb_checks assms(3) by (rule fold_ok_in)
qed

section \<open>The unified validator\<close>

text \<open>\<^verbatim>\<open>internal/validation/unified_validator.go\<close>. The report of the schema validator is an argument; a
  configuration that it refuses goes no further.\<close>

definition validateSecurity :: "SystemPolicy \<Rightarrow> raw_config \<Rightarrow> ValidationReport" where
  "validateSecurity sp data =
     (let ssrfReport = Validate_ssrf (NewSSRFValidator (sp_AllowPrivateNetworks sp)) data;
          report = Merge NewValidationReport ssrfReport
      in if \<not> vr_OK ssrfReport then report
         else
           let report1 = (case decode_map data of
                  None \<Rightarrow> report
                | Some configMap \<Rightarrow> Merge report (ValidateRedirectPolicy configMap NewValidationReport))
           in Merge report1 (Validate_semantic (Some sp) data))"

definition ValidateRunConfig_unified :: "(raw_config \<Rightarrow> ValidationReport) \<Rightarrow> SystemPolicy \<Rightarrow> raw_config \<Rightarrow> ValidationReport" where
  "ValidateRunConfig_unified schema sp data =
     (let schemaReport = schema data; report = Merge NewValidationReport schemaReport
      in if \<not> vr_OK schemaReport then report else Merge report (validateSecurity sp data))"

text \<open>What is promised of the target, the stages and the caps of a configuration.\<close>

definition target_cleared :: "SystemPolicy \<Rightarrow> document \<Rightarrow> bool" where
  "target_cleared sp config \<longleftrightarrow>
     (case targetURLFromConfig config of
        None \<Rightarrow> True
      | Some url \<Rightarrow>
          vr_OK (validateURL (NewSSRFValidator (sp_AllowPrivateNetworks sp)) url NewValidationReport)
          \<and> allowlistMatchesHost (extractHost url) (extractRunConfigAllowlistFromConfig config)
          \<and> (sp_GlobalAllowlist sp = [] \<or> allowlistMatchesHost (extractHost url) (sp_GlobalAllowlist sp))
          \<and> (\<forall>pattern \<in> set (forbidden_patterns (Some sp) config).
               \<not> matchesForbiddenPattern (extractHost url) pattern \<and> \<not> matchesForbiddenPattern url pattern))"

definition stages_cleared :: "document \<Rightarrow> bool" where
  "stages_cleared config \<longleftrightarrow>
     (\<exists>stages. lookup_as as_slice config ''stages'' = Some stages
        \<and> (\<exists>i stage rest. enabled_stages stages = (i, stage) # rest \<and> str_of stage ''stage'' = ''preflight'')
        \<and> has_stage ''baseline'' stages \<and> has_stage ''ramp'' stages
        \<and> (\<forall>i < length stages. \<forall>stage. as_map (stages ! i) = Some stage \<and> enabled stage \<longrightarrow>
             (str_of stage ''stage'' \<in> {''baseline'', ''ramp''} \<longrightarrow>
                (\<exists>c cs. lookup_as as_slice stage ''stop_conditions'' = Some (c # cs)))
             \<and> (\<forall>d. lookup_as as_float stage ''duration_ms'' = Some d \<longrightarrow> 1000 \<le> d)))"

definition caps_cleared :: "SystemPolicy \<Rightarrow> document \<Rightarrow> bool" where
  "caps_cleared sp config \<longleftrightarrow>
     (\<exists>caps vus dur. hard_caps_of config = Some caps \<and> lookup_as as_float caps ''max_vus'' = Some vus
        \<and> lookup_as as_float caps ''max_duration_ms'' = Some dur \<and> 0 < vus \<and> 0 < dur
        \<and> int_of_float vus \<le> hc_MaxVUs (sp_GlobalHardCaps sp) \<and> int_of_float dur \<le> hc_MaxDurationMs (sp_GlobalHardCaps sp))"

definition redirect_cleared :: "document \<Rightarrow> bool" where
  "redirect_cleared config \<longleftrightarrow>
     (\<forall>target. lookup_as as_map config ''target'' = Some target \<longrightarrow>
        (\<exists>rp mode. lookup_as as_map target ''redirect_policy'' = Some rp \<and> lookup_as as_string rp ''mode'' = Some mode
           \<and> mode \<in> set redirect_modes \<and> (\<forall>n. lookup_as as_float rp ''max_redirects'' = Some n \<longrightarrow> n \<le> 3)))"

lemma passed_target:
  assumes "decode_map data = Some config" "vr_OK (Validate_semantic (Some sp) data)"
    "vr_OK (Validate_ssrf (NewSSRFValidator (sp_AllowPrivateNetworks sp)) data)"
  shows "target_cleared sp config"
proof (cases "targetURLFromConfig config")
  case (Some url)
  note passed = check_passed [OF assms(1,2)]
  have ssrf: "vr_OK (validateURL (NewSSRFValidator (sp_AllowPrivateNetworks sp)) url NewValidationReport)"
    using assms(3) Some by (auto simp: Validate_ssrf_def assms(1) targetURLFromConfig_def split: option.splits if_splits)
  obtain env al where env: "lookup_as as_map config ''environment'' = Some env" "lookup_as as_map env ''allowlist'' = Some al"
    "lookup_as as_string al ''mode'' = Some ''deny_by_default''"
    using passed [of validateAllowlistRequired]
    by (auto simp: checks_def validateAllowlistRequired_def ok_rules split: option.splits)
  have run: "allowlistMatchesHost (extractHost url) (extractRunConfigAllowlistFromConfig config)"
    using passed [of "validateTargetWithinRunAllowlist (Some sp)"] env Some
    by (auto simp: checks_def validateTargetWithinRunAllowlist_def ok_rules Let_def str_of_def split: if_splits)
  have sys: "sp_GlobalAllowlist sp = [] \<or> allowlistMatchesHost (extractHost url) (sp_GlobalAllowlist sp)"
    using passed [of "validateTargetWithinSystemAllowlist (Some sp)"] Some
    by (auto simp: checks_def validateTargetWithinSystemAllowlist_def targetHostFromConfig_def ok_rules split: if_splits)
  have "find (\<lambda>pattern. matchesForbiddenPattern (extractHost url) pattern \<or> matchesForbiddenPattern url pattern)
      (forbidden_patterns (Some sp) config) = None"
    using passed [of "validateForbiddenPatterns (Some sp)"] Some
    by (auto simp: checks_def validateForbiddenPatterns_def ok_rules Let_def split: option.splits)
  then show ?thesis using ssrf run sys Some by (auto simp: target_cleared_def find_None_iff)
qed (simp add: target_cleared_def)

lemma no_enabled_stage: "enabled_stages stages = [] \<Longrightarrow> \<not> has_stage kind stages"
proof
  assume none: "enabled_stages stages = []" and "has_stage kind stages"
  then obtain s stage where s: "s \<in> set stages" "as_map s = Some stage" "enabled stage"
    by (auto simp: has_stage_def list_ex_iff split: option.splits)
  then obtain i where i: "i < length stages" "stages ! i = s" by (auto simp: in_set_conv_nth)
  then have "(i, s) \<in> set (enumerate 0 stages)" by (simp add: in_set_enumerate_eq)
  moreover have "the (case as_map s of Some m \<Rightarrow> if enabled m then Some (i, m) else None | None \<Rightarrow> None) = (i, stage)" using s by simp
  ultimately have "(i, stage) \<in> set (enabled_stages stages)"
    unfolding enabled_stages_def List.map_filter_def using s by (force simp: image_iff)
  with none show False by simp
qed

lemma passed_stages:
  assumes "decode_map data = Some config" "vr_OK (Validate_semantic (Some sp) data)"
  shows "stages_cleared config"
proof -
  note passed = check_passed [OF assms]
  obtain stages where st: "lookup_as as_slice config ''stages'' = Some stages"
    using passed [of validateStagesRequired] by (auto simp: checks_def validateStagesRequired_def ok_rules split: option.splits)
  have has: "has_stage ''preflight'' stages" "has_stage ''baseline'' stages" "has_stage ''ramp'' stages"
    using passed [of validateRequiredStagesPresent] st by (auto simp: checks_def validateRequiredStagesPresent_def ok_rules)
  obtain i stage rest where first: "enabled_stages stages = (i, stage) # rest"
    using no_enabled_stage has(1) by (cases "enabled_stages stages") auto
  have "str_of stage ''stage'' = ''preflight''"
    using passed [of validatePreflightFirst] st first by (auto simp: checks_def validatePreflightFirst_def ok_rules)
  moreover have "\<exists>c cs. lookup_as as_slice stage ''stop_conditions'' = Some (c # cs)"
    if k: "k < length stages" "as_map (stages ! k) = Some stage" and e: "enabled stage" "str_of stage ''stage'' \<in> {''baseline'', ''ramp''}" for k stage
  proof -
    obtain r where "vr_OK (for_stages check_stop_conditions stages r)"
      using passed [of validateStopConditionsRequired] st by (auto simp: checks_def validateStopConditionsRequired_def)
    from for_stages_ok [OF kb_check_stop_conditions this k] obtain r' where "vr_OK (check_stop_conditions k stage r')" by blast
    then show ?thesis using e by (auto simp: check_stop_conditions_def Let_def ok_rules neq_Nil_conv split: option.splits if_splits)
  qed
  moreover have "1000 \<le> d"
    if k: "k < length stages" "as_map (stages ! k) = Some stage" and e: "enabled stage" "lookup_as as_float stage ''duration_ms'' = Some d" for k stage d
  proof -
    obtain r where "vr_OK (for_stages check_duration stages r)"
      using passed [of validateDurationPositive] st by (auto simp: checks_def validateDurationPositive_def)
    from for_stages_ok [OF kb_check_duration this k] obtain r' where "vr_OK (check_duration k stage r')" by blast
    then show ?thesis using e by (auto simp: check_duration_def ok_rules)
  qed
  ultimately show ?thesis using st has first unfolding stages_cleared_def by blast
qed

lemma passed_caps:
  assumes "decode_map data = Some config" "vr_OK (Validate_semantic (Some sp) data)"
  shows "caps_cleared sp config"
proof -
  obtain r where "vr_OK (validateCapsRequired config r)" using check_passed [OF assms, of validateCapsRequired] by (auto simp: checks_def)
  then obtain caps vus dur where caps: "hard_caps_of config = Some caps" "lookup_as as_float caps ''max_vus'' = Some vus"
      "lookup_as as_float caps ''max_duration_ms'' = Some dur" "0 < vus" "0 < dur"
    by (auto simp: validateCapsRequired_def hard_caps_of_def not_positive_def ok_rules split: option.splits)
  obtain r where "vr_OK (validateCapsWithinSystemPolicy (Some sp) config r)"
    using check_passed [OF assms, of "validateCapsWithinSystemPolicy (Some sp)"] by (auto simp: checks_def)
  then have "int_of_float vus \<le> hc_MaxVUs (sp_GlobalHardCaps sp)" "int_of_float dur \<le> hc_MaxDurationMs (sp_GlobalHardCaps sp)"
    using caps by (auto simp: validateCapsWithinSystemPolicy_def exceeds_def ok_rules Let_def)
  with caps show ?thesis unfolding caps_cleared_def by blast
qed

lemma passed_redirect: "vr_OK (ValidateRedirectPolicy config NewValidationReport) \<Longrightarrow> redirect_cleared config"
  by (auto simp: ValidateRedirectPolicy_def redirect_cleared_def ok_rules Let_def not_less split: option.splits)

lemma unified_ok:
  assumes "vr_OK (ValidateRunConfig_unified schema sp data)"
  shows "vr_OK (schema data) \<and> (\<exists>config. decode_map data = Some config \<and> target_cleared sp config \<and> stages_cleared config
    \<and> caps_cleared sp config \<and> redirect_cleared config)"
proof -
  have parts: "vr_OK (schema data)" "vr_OK (Validate_ssrf (NewSSRFValidator (sp_AllowPrivateNetworks sp)) data)"
    "vr_OK (Validate_semantic (Some sp) data)"
    using assms by (auto simp: ValidateRunConfig_unified_def validateSecurity_def Let_def ok_add split: if_splits option.splits)
  then obtain config where c: "decode_map data = Some config" by (auto simp: Validate_semantic_def ok_add split: option.splits)
  then have "vr_OK (ValidateRedirectPolicy config NewValidationReport)"
    using assms by (auto simp: ValidateRunConfig_unified_def validateSecurity_def Let_def ok_add split: if_splits)
  then show ?thesis using c parts passed_target passed_stages passed_caps passed_redirect by blast
qed

section \<open>A configuration that is accepted\<close>

definition accepted_stage :: "string \<Rightarrow> json" where
  "accepted_stage kind = JObj [(''stage'', JStr kind), (''enabled'', JBool True), (''duration_ms'', JInt 60000),
     (''load'', JObj [(''target_vus'', JInt 10)]), (''stop_conditions'', JArr [JObj [(''metric'', JStr ''error_rate'')]])]"

definition sample_document :: json where
  "sample_document = JObj
     [(''stages'', JArr (map accepted_stage [''preflight'', ''baseline'', ''ramp''])),
      (''target'', JObj [(''url'', JStr ''https://api.example.com/mcp''),
         (''redirect_policy'', JObj [(''mode'', JStr ''deny'')]),
         (''identification'', JObj
            [(''run_id_header'', JObj [(''name'', JStr ''X-Run''), (''value_template'', JStr ''${run_id}'')]),
             (''user_agent'', JObj [(''value'', JStr ''drill/${run_id}'')])])]),
      (''environment'', JObj [(''allowlist'', JObj [(''mode'', JStr ''deny_by_default''),
         (''allowed_targets'', JArr [JObj [(''kind'', JStr ''suffix''), (''value'', JStr ''example.com'')]])])]),
      (''safety'', JObj [(''hard_caps'', JObj [(''max_vus'', JInt 100), (''max_duration_ms'', JInt 600000)])])]"

definition accepted_sample :: raw_config where
  "accepted_sample = Config ''{...}'' (Some sample_document)"

lemma sample_accepted: "vr_OK (ValidateRunConfig_unified (\<lambda>_. NewValidationReport) DefaultSystemPolicy accepted_sample)"
  by code_simp

section \<open>Properties\<close>

text \<open>C36: what the validator of the control plane accepts, the schema accepts and is fit to run. The target, if any,
  passes the checks against request forgery, lies in the allowlist of the run and in that of the system where there is
  one, and neither its address nor its host matches a forbidden pattern. The first enabled stage is a preflight, a
  baseline and a ramp are enabled, both have stop conditions, and no enabled stage lasts less than a second. The caps on
  virtual users and on the duration are positive and, as integers, within those of the system. Redirects are denied or
  limited to a known mode and to three.\<close>
theorem accepted_config:
  assumes "vr_OK (ValidateRunConfig_unified schema sp data)"
  shows "vr_OK (schema data) \<and> (\<exists>config. decode_map data = Some config \<and> target_cleared sp config \<and> stages_cleared config
    \<and> caps_cleared sp config \<and> redirect_cleared config)"
  using assms by (rule unified_ok)

theorem accepted_config_witness:
  "\<exists>config. decode_map accepted_sample = Some config \<and> stages_cleared config \<and> caps_cleared DefaultSystemPolicy config
    \<and> targetURLFromConfig config = Some ''https://api.example.com/mcp'' \<and> target_cleared DefaultSystemPolicy config"
proof -
  have "map_option targetURLFromConfig (decode_map accepted_sample) = Some (Some ''https://api.example.com/mcp'')" by code_simp
  then show ?thesis using accepted_config [OF sample_accepted] by auto
qed

text \<open>C35: with this validator in place, a run that \<^verbatim>\<open>CreateRun\<close> creates on a server in any reachable state has a
  configuration that is fit to run, and still has that very configuration in every later state of the server.\<close>
theorem created_run_cleared:
  assumes "env_validator E = Some (\<lambda>data. vr_OK (ValidateRunConfig_unified schema sp data))"
    and "reachable E rm" and "get_run rm (fst (generateRunID rm)) = None"
    and "CreateRun E data actor rm = (Inr rid, rm1)" and "(rm_step E)\<^sup>*\<^sup>* rm1 rm2"
  shows "\<exists>r config. get_run rm2 rid = Some r \<and> rr_Config r = data \<and> decode_map data = Some config
    \<and> target_cleared sp config \<and> stages_cleared config \<and> caps_cleared sp config \<and> redirect_cleared config"
proof -
  have v: "ValidateRunConfig E data" using assms(4) by (auto simp: CreateRun_def split: if_splits)
  then have "vr_OK (ValidateRunConfig_unified schema sp data)" using assms(1) by (simp add: ValidateRunConfig_def)
  note cleared = unified_ok [OF this]
  have "(rm_step E)\<^sup>*\<^sup>* rm rm1" using run_create [OF reachable_clock [OF assms(2)] assms(3), of E data actor] assms(4) by simp
  then have "reachable E rm1" using assms(2) reachable_run by blast
  then have "evolves rm1 rm2" using assms(5) by (blast intro: rms.run_rel reachable_inv)
  moreover have "\<exists>r. get_run rm1 rid = Some r \<and> rr_Config r = data"
    using assms(4) v by (auto simp: CreateRun_def Let_def case_prod_unfold frames insert_run_def new_record_def)
  ultimately obtain r where "get_run rm2 rid = Some r" "rr_Config r = data" by (auto simp: evolves_def run_le_def same_run_def)
  with cleared show ?thesis by blast
qed

definition checked_env :: environment where
  "checked_env = plain_env\<lparr>env_validator :=
     Some (\<lambda>data. vr_OK (ValidateRunConfig_unified (\<lambda>_. NewValidationReport) DefaultSystemPolicy data))\<rparr>"

theorem created_run_cleared_witness:
  "\<exists>rm1 r config. CreateRun checked_env accepted_sample ''user'' small_start = (Inr small_id, rm1)
     \<and> get_run rm1 small_id = Some r \<and> rr_Config r = accepted_sample \<and> decode_map accepted_sample = Some config
     \<and> target_cleared DefaultSystemPolicy config"
proof -
  obtain rm1 where c: "CreateRun checked_env accepted_sample ''user'' small_start = (Inr small_id, rm1)"
    using sample_accepted by (simp add: CreateRun_def ValidateRunConfig_def checked_env_def small_id_def Let_def case_prod_unfold)
  have new: "get_run small_start (fst (generateRunID small_start)) = None"
    by (simp add: small_start_def server_start_def NewRunManager_def)
  have "env_validator checked_env = Some (\<lambda>data. vr_OK (ValidateRunConfig_unified (\<lambda>_. NewValidationReport) DefaultSystemPolicy data))"
    by (simp add: checked_env_def)
  from created_run_cleared [OF this small_start_reachable new c rtranclp.rtrancl_refl] c show ?thesis by blast
qed

end
